(* ===== verification/Switch.thy ===== *)
theory Switch
  imports Main
begin

text \<open>
  C \<open>switch\<close> statements whose every branch returns a constant: a list of labels with
  their results and the result of \<open>default\<close>.  The locale \<open>switch_table\<close> states what
  a name table needs of one (labels distinct, as the compiler demands, and a default
  no label shares); the tables of the tracer interpret it.
\<close>

definition switch :: "('a \<times> 'b) list \<Rightarrow> 'b \<Rightarrow> 'a \<Rightarrow> 'b" where
  "switch cases dflt x = (case map_of cases x of None \<Rightarrow> dflt | Some r \<Rightarrow> r)"

locale switch_table =
  fixes labels :: "('a \<times> 'b) list" and dflt :: 'b
  assumes labels_distinct: "distinct (map fst labels)"
    and default_fresh: "dflt \<notin> snd ` set labels"
begin

lemma switch_label: "(x, r) \<in> set labels \<Longrightarrow> switch labels dflt x = r"
  using labels_distinct by (simp add: switch_def map_of_is_SomeI)

lemma switch_default: "switch labels dflt x = dflt \<longleftrightarrow> x \<notin> fst ` set labels"
  using default_fresh
  by (auto simp: switch_def map_of_eq_None_iff split: option.splits dest!: map_of_SomeD intro: rev_image_eqI)

lemma switch_result: "r \<noteq> dflt \<Longrightarrow> switch labels dflt x = r \<longleftrightarrow> (x, r) \<in> set labels"
  using labels_distinct by (auto simp: switch_def split: option.splits dest: map_of_SomeD eq_key_imp_eq_value)

end

end
