(* ===== verification/Unistd.thy ===== *)
theory Unistd
  imports Switch "HOL-Library.Word"
begin

text \<open>
  The system call table the tracer compiles into \<open>syscall_name\<close>: the entries of the
  kernel's \<open>uapi/asm-generic/unistd.h\<close> in the order of the header, each with the
  preprocessor condition it stands under, and the expansion of \<open>__SYSCALL\<close>,
  \<open>__SC_COMP\<close>, \<open>__SC_3264\<close> and \<open>__SC_COMP_3264\<close> for a configuration.
\<close>

section \<open>Configurations\<close>

record unistd_cfg =
  BITS_PER_LONG :: nat
  SYSCALL_COMPAT :: bool
  ARCH_WANT_RENAMEAT :: bool
  ARCH_WANT_NEW_STAT :: bool
  ARCH_WANT_STAT64 :: bool
  ARCH_WANT_SYNC_FILE_RANGE2 :: bool
  ARCH_WANT_SET_GET_RLIMIT :: bool
  ARCH_WANT_TIME32_SYSCALLS :: bool
  ARCH_WANT_SYS_CLONE3 :: bool
  ARCH_WANT_MEMFD_SECRET :: bool
  ARCH_NOMMU :: bool

text \<open>\<open>arch/arm64/include/uapi/asm/unistd.h\<close> and \<open>bitsperlong.h\<close>.\<close>

definition arm64_unistd :: unistd_cfg where
  "arm64_unistd =
     \<lparr>BITS_PER_LONG = 64, SYSCALL_COMPAT = False, ARCH_WANT_RENAMEAT = True, ARCH_WANT_NEW_STAT = True,
      ARCH_WANT_STAT64 = False, ARCH_WANT_SYNC_FILE_RANGE2 = False, ARCH_WANT_SET_GET_RLIMIT = True,
      ARCH_WANT_TIME32_SYSCALLS = True, ARCH_WANT_SYS_CLONE3 = True, ARCH_WANT_MEMFD_SECRET = True,
      ARCH_NOMMU = False\<rparr>"

text \<open>The conditions that occur in the header.\<close>

datatype guard =
  Always | Want_Time32 | Want_Renameat | Want_Stat | Want_Sync_File_Range2 | No_Sync_File_Range2
| Want_Set_Get_Rlimit | Mmu | Compat_Or_32 | Want_Clone3 | Want_Memfd_Secret

fun guard_holds :: "unistd_cfg \<Rightarrow> guard \<Rightarrow> bool" where
  "guard_holds c Always = True"
| "guard_holds c Want_Time32 = (ARCH_WANT_TIME32_SYSCALLS c \<or> BITS_PER_LONG c \<noteq> 32)"
| "guard_holds c Want_Renameat = ARCH_WANT_RENAMEAT c"
| "guard_holds c Want_Stat = (ARCH_WANT_NEW_STAT c \<or> ARCH_WANT_STAT64 c)"
| "guard_holds c Want_Sync_File_Range2 = ARCH_WANT_SYNC_FILE_RANGE2 c"
| "guard_holds c No_Sync_File_Range2 = (\<not> ARCH_WANT_SYNC_FILE_RANGE2 c)"
| "guard_holds c Want_Set_Get_Rlimit = ARCH_WANT_SET_GET_RLIMIT c"
| "guard_holds c Mmu = (\<not> ARCH_NOMMU c)"
| "guard_holds c Compat_Or_32 = (SYSCALL_COMPAT c \<or> BITS_PER_LONG c = 32)"
| "guard_holds c Want_Clone3 = ARCH_WANT_SYS_CLONE3 c"
| "guard_holds c Want_Memfd_Secret = ARCH_WANT_MEMFD_SECRET c"

section \<open>Entries and their expansion\<close>

datatype sc_entry =
  SYSCALL int string
| SC_COMP int string string
| SC_3264 int string string
| SC_COMP_3264 int string string string

text \<open>Lines 10--22 of the header, which override the macros its includer defined.\<close>

fun sc_expand :: "unistd_cfg \<Rightarrow> sc_entry \<Rightarrow> int \<times> string" where
  "sc_expand c (SYSCALL n call) = (n, call)"
| "sc_expand c (SC_3264 n c32 c64) = (n, if BITS_PER_LONG c = 32 \<or> SYSCALL_COMPAT c then c32 else c64)"
| "sc_expand c (SC_COMP n call cmp) = (n, if SYSCALL_COMPAT c then cmp else call)"
| "sc_expand c (SC_COMP_3264 n c32 c64 cmp) =
     (n, if SYSCALL_COMPAT c then cmp else if BITS_PER_LONG c = 32 \<or> SYSCALL_COMPAT c then c32 else c64)"

fun sc_nr :: "sc_entry \<Rightarrow> int" where
  "sc_nr (SYSCALL n call) = n"
| "sc_nr (SC_3264 n c32 c64) = n"
| "sc_nr (SC_COMP n call cmp) = n"
| "sc_nr (SC_COMP_3264 n c32 c64 cmp) = n"

section \<open>The table\<close>

text \<open>Lines 24--171.\<close>

definition unistd_1 :: "(guard \<times> sc_entry) list" where
  "unistd_1 = [
     (Always, SC_COMP 0 ''sys_io_setup'' ''compat_sys_io_setup''),
     (Always, SYSCALL 1 ''sys_io_destroy''),
     (Always, SC_COMP 2 ''sys_io_submit'' ''compat_sys_io_submit''),
     (Always, SYSCALL 3 ''sys_io_cancel''),
     (Want_Time32, SC_3264 4 ''sys_io_getevents_time32'' ''sys_io_getevents''),
     (Always, SYSCALL 5 ''sys_setxattr''),
     (Always, SYSCALL 6 ''sys_lsetxattr''),
     (Always, SYSCALL 7 ''sys_fsetxattr''),
     (Always, SYSCALL 8 ''sys_getxattr''),
     (Always, SYSCALL 9 ''sys_lgetxattr''),
     (Always, SYSCALL 10 ''sys_fgetxattr''),
     (Always, SYSCALL 11 ''sys_listxattr''),
     (Always, SYSCALL 12 ''sys_llistxattr''),
     (Always, SYSCALL 13 ''sys_flistxattr''),
     (Always, SYSCALL 14 ''sys_removexattr''),
     (Always, SYSCALL 15 ''sys_lremovexattr''),
     (Always, SYSCALL 16 ''sys_fremovexattr''),
     (Always, SYSCALL 17 ''sys_getcwd''),
     (Always, SC_COMP 18 ''sys_lookup_dcookie'' ''compat_sys_lookup_dcookie''),
     (Always, SYSCALL 19 ''sys_eventfd2''),
     (Always, SYSCALL 20 ''sys_epoll_create1''),
     (Always, SYSCALL 21 ''sys_epoll_ctl''),
     (Always, SC_COMP 22 ''sys_epoll_pwait'' ''compat_sys_epoll_pwait''),
     (Always, SYSCALL 23 ''sys_dup''),
     (Always, SYSCALL 24 ''sys_dup3''),
     (Always, SC_COMP_3264 25 ''sys_fcntl64'' ''sys_fcntl'' ''compat_sys_fcntl64''),
     (Always, SYSCALL 26 ''sys_inotify_init1''),
     (Always, SYSCALL 27 ''sys_inotify_add_watch''),
     (Always, SYSCALL 28 ''sys_inotify_rm_watch''),
     (Always, SC_COMP 29 ''sys_ioctl'' ''compat_sys_ioctl''),
     (Always, SYSCALL 30 ''sys_ioprio_set''),
     (Always, SYSCALL 31 ''sys_ioprio_get''),
     (Always, SYSCALL 32 ''sys_flock''),
     (Always, SYSCALL 33 ''sys_mknodat''),
     (Always, SYSCALL 34 ''sys_mkdirat''),
     (Always, SYSCALL 35 ''sys_unlinkat''),
     (Always, SYSCALL 36 ''sys_symlinkat''),
     (Always, SYSCALL 37 ''sys_linkat''),
     (Want_Renameat, SYSCALL 38 ''sys_renameat''),
     (Always, SYSCALL 39 ''sys_umount''),
     (Always, SYSCALL 40 ''sys_mount''),
     (Always, SYSCALL 41 ''sys_pivot_root''),
     (Always, SYSCALL 42 ''sys_ni_syscall''),
     (Always, SC_COMP_3264 43 ''sys_statfs64'' ''sys_statfs'' ''compat_sys_statfs64''),
     (Always, SC_COMP_3264 44 ''sys_fstatfs64'' ''sys_fstatfs'' ''compat_sys_fstatfs64''),
     (Always, SC_COMP_3264 45 ''sys_truncate64'' ''sys_truncate'' ''compat_sys_truncate64''),
     (Always, SC_COMP_3264 46 ''sys_ftruncate64'' ''sys_ftruncate'' ''compat_sys_ftruncate64''),
     (Always, SC_COMP 47 ''sys_fallocate'' ''compat_sys_fallocate''),
     (Always, SYSCALL 48 ''sys_faccessat''),
     (Always, SYSCALL 49 ''sys_chdir''),
     (Always, SYSCALL 50 ''sys_fchdir''),
     (Always, SYSCALL 51 ''sys_chroot''),
     (Always, SYSCALL 52 ''sys_fchmod''),
     (Always, SYSCALL 53 ''sys_fchmodat''),
     (Always, SYSCALL 54 ''sys_fchownat'')]"

text \<open>Lines 172--317.\<close>

definition unistd_2 :: "(guard \<times> sc_entry) list" where
  "unistd_2 = [
     (Always, SYSCALL 55 ''sys_fchown''),
     (Always, SYSCALL 56 ''sys_openat''),
     (Always, SYSCALL 57 ''sys_close''),
     (Always, SYSCALL 58 ''sys_vhangup''),
     (Always, SYSCALL 59 ''sys_pipe2''),
     (Always, SYSCALL 60 ''sys_quotactl''),
     (Always, SYSCALL 61 ''sys_getdents64''),
     (Always, SC_3264 62 ''sys_llseek'' ''sys_lseek''),
     (Always, SYSCALL 63 ''sys_read''),
     (Always, SYSCALL 64 ''sys_write''),
     (Always, SC_COMP 65 ''sys_readv'' ''sys_readv''),
     (Always, SC_COMP 66 ''sys_writev'' ''sys_writev''),
     (Always, SC_COMP 67 ''sys_pread64'' ''compat_sys_pread64''),
     (Always, SC_COMP 68 ''sys_pwrite64'' ''compat_sys_pwrite64''),
     (Always, SC_COMP 69 ''sys_preadv'' ''compat_sys_preadv''),
     (Always, SC_COMP 70 ''sys_pwritev'' ''compat_sys_pwritev''),
     (Always, SYSCALL 71 ''sys_sendfile64''),
     (Want_Time32, SC_COMP_3264 72 ''sys_pselect6_time32'' ''sys_pselect6'' ''compat_sys_pselect6_time32''),
     (Want_Time32, SC_COMP_3264 73 ''sys_ppoll_time32'' ''sys_ppoll'' ''compat_sys_ppoll_time32''),
     (Always, SC_COMP 74 ''sys_signalfd4'' ''compat_sys_signalfd4''),
     (Always, SYSCALL 75 ''sys_vmsplice''),
     (Always, SYSCALL 76 ''sys_splice''),
     (Always, SYSCALL 77 ''sys_tee''),
     (Always, SYSCALL 78 ''sys_readlinkat''),
     (Want_Stat, SC_3264 79 ''sys_fstatat64'' ''sys_newfstatat''),
     (Want_Stat, SC_3264 80 ''sys_fstat64'' ''sys_newfstat''),
     (Always, SYSCALL 81 ''sys_sync''),
     (Always, SYSCALL 82 ''sys_fsync''),
     (Always, SYSCALL 83 ''sys_fdatasync''),
     (Want_Sync_File_Range2, SC_COMP 84 ''sys_sync_file_range2'' ''compat_sys_sync_file_range2''),
     (No_Sync_File_Range2, SC_COMP 84 ''sys_sync_file_range'' ''compat_sys_sync_file_range''),
     (Always, SYSCALL 85 ''sys_timerfd_create''),
     (Want_Time32, SC_3264 86 ''sys_timerfd_settime32'' ''sys_timerfd_settime''),
     (Want_Time32, SC_3264 87 ''sys_timerfd_gettime32'' ''sys_timerfd_gettime''),
     (Want_Time32, SC_3264 88 ''sys_utimensat_time32'' ''sys_utimensat''),
     (Always, SYSCALL 89 ''sys_acct''),
     (Always, SYSCALL 90 ''sys_capget''),
     (Always, SYSCALL 91 ''sys_capset''),
     (Always, SYSCALL 92 ''sys_personality''),
     (Always, SYSCALL 93 ''sys_exit''),
     (Always, SYSCALL 94 ''sys_exit_group''),
     (Always, SC_COMP 95 ''sys_waitid'' ''compat_sys_waitid''),
     (Always, SYSCALL 96 ''sys_set_tid_address''),
     (Always, SYSCALL 97 ''sys_unshare''),
     (Want_Time32, SC_3264 98 ''sys_futex_time32'' ''sys_futex''),
     (Always, SC_COMP 99 ''sys_set_robust_list'' ''compat_sys_set_robust_list'')]"

text \<open>Lines 318--464.\<close>

definition unistd_3 :: "(guard \<times> sc_entry) list" where
  "unistd_3 = [
     (Always, SC_COMP 100 ''sys_get_robust_list'' ''compat_sys_get_robust_list''),
     (Want_Time32, SC_3264 101 ''sys_nanosleep_time32'' ''sys_nanosleep''),
     (Always, SC_COMP 102 ''sys_getitimer'' ''compat_sys_getitimer''),
     (Always, SC_COMP 103 ''sys_setitimer'' ''compat_sys_setitimer''),
     (Always, SC_COMP 104 ''sys_kexec_load'' ''compat_sys_kexec_load''),
     (Always, SYSCALL 105 ''sys_init_module''),
     (Always, SYSCALL 106 ''sys_delete_module''),
     (Always, SC_COMP 107 ''sys_timer_create'' ''compat_sys_timer_create''),
     (Want_Time32, SC_3264 108 ''sys_timer_gettime32'' ''sys_timer_gettime''),
     (Always, SYSCALL 109 ''sys_timer_getoverrun''),
     (Want_Time32, SC_3264 110 ''sys_timer_settime32'' ''sys_timer_settime''),
     (Always, SYSCALL 111 ''sys_timer_delete''),
     (Want_Time32, SC_3264 112 ''sys_clock_settime32'' ''sys_clock_settime''),
     (Want_Time32, SC_3264 113 ''sys_clock_gettime32'' ''sys_clock_gettime''),
     (Want_Time32, SC_3264 114 ''sys_clock_getres_time32'' ''sys_clock_getres''),
     (Want_Time32, SC_3264 115 ''sys_clock_nanosleep_time32'' ''sys_clock_nanosleep''),
     (Always, SYSCALL 116 ''sys_syslog''),
     (Always, SC_COMP 117 ''sys_ptrace'' ''compat_sys_ptrace''),
     (Always, SYSCALL 118 ''sys_sched_setparam''),
     (Always, SYSCALL 119 ''sys_sched_setscheduler''),
     (Always, SYSCALL 120 ''sys_sched_getscheduler''),
     (Always, SYSCALL 121 ''sys_sched_getparam''),
     (Always, SC_COMP 122 ''sys_sched_setaffinity'' ''compat_sys_sched_setaffinity''),
     (Always, SC_COMP 123 ''sys_sched_getaffinity'' ''compat_sys_sched_getaffinity''),
     (Always, SYSCALL 124 ''sys_sched_yield''),
     (Always, SYSCALL 125 ''sys_sched_get_priority_max''),
     (Always, SYSCALL 126 ''sys_sched_get_priority_min''),
     (Want_Time32, SC_3264 127 ''sys_sched_rr_get_interval_time32'' ''sys_sched_rr_get_interval''),
     (Always, SYSCALL 128 ''sys_restart_syscall''),
     (Always, SYSCALL 129 ''sys_kill''),
     (Always, SYSCALL 130 ''sys_tkill''),
     (Always, SYSCALL 131 ''sys_tgkill''),
     (Always, SC_COMP 132 ''sys_sigaltstack'' ''compat_sys_sigaltstack''),
     (Always, SC_COMP 133 ''sys_rt_sigsuspend'' ''compat_sys_rt_sigsuspend''),
     (Always, SC_COMP 134 ''sys_rt_sigaction'' ''compat_sys_rt_sigaction''),
     (Always, SC_COMP 135 ''sys_rt_sigprocmask'' ''compat_sys_rt_sigprocmask''),
     (Always, SC_COMP 136 ''sys_rt_sigpending'' ''compat_sys_rt_sigpending''),
     (Want_Time32, SC_COMP_3264 137 ''sys_rt_sigtimedwait_time32'' ''sys_rt_sigtimedwait'' ''compat_sys_rt_sigtimedwait_time32''),
     (Always, SC_COMP 138 ''sys_rt_sigqueueinfo'' ''compat_sys_rt_sigqueueinfo''),
     (Always, SC_COMP 139 ''sys_rt_sigreturn'' ''compat_sys_rt_sigreturn''),
     (Always, SYSCALL 140 ''sys_setpriority''),
     (Always, SYSCALL 141 ''sys_getpriority''),
     (Always, SYSCALL 142 ''sys_reboot''),
     (Always, SYSCALL 143 ''sys_setregid''),
     (Always, SYSCALL 144 ''sys_setgid''),
     (Always, SYSCALL 145 ''sys_setreuid''),
     (Always, SYSCALL 146 ''sys_setuid''),
     (Always, SYSCALL 147 ''sys_setresuid''),
     (Always, SYSCALL 148 ''sys_getresuid''),
     (Always, SYSCALL 149 ''sys_setresgid''),
     (Always, SYSCALL 150 ''sys_getresgid''),
     (Always, SYSCALL 151 ''sys_setfsuid''),
     (Always, SYSCALL 152 ''sys_setfsgid''),
     (Always, SC_COMP 153 ''sys_times'' ''compat_sys_times'')]"

text \<open>Lines 465--612.\<close>

definition unistd_4 :: "(guard \<times> sc_entry) list" where
  "unistd_4 = [
     (Always, SYSCALL 154 ''sys_setpgid''),
     (Always, SYSCALL 155 ''sys_getpgid''),
     (Always, SYSCALL 156 ''sys_getsid''),
     (Always, SYSCALL 157 ''sys_setsid''),
     (Always, SYSCALL 158 ''sys_getgroups''),
     (Always, SYSCALL 159 ''sys_setgroups''),
     (Always, SYSCALL 160 ''sys_newuname''),
     (Always, SYSCALL 161 ''sys_sethostname''),
     (Always, SYSCALL 162 ''sys_setdomainname''),
     (Want_Set_Get_Rlimit, SC_COMP 163 ''sys_getrlimit'' ''compat_sys_getrlimit''),
     (Want_Set_Get_Rlimit, SC_COMP 164 ''sys_setrlimit'' ''compat_sys_setrlimit''),
     (Always, SC_COMP 165 ''sys_getrusage'' ''compat_sys_getrusage''),
     (Always, SYSCALL 166 ''sys_umask''),
     (Always, SYSCALL 167 ''sys_prctl''),
     (Always, SYSCALL 168 ''sys_getcpu''),
     (Want_Time32, SC_COMP 169 ''sys_gettimeofday'' ''compat_sys_gettimeofday''),
     (Want_Time32, SC_COMP 170 ''sys_settimeofday'' ''compat_sys_settimeofday''),
     (Want_Time32, SC_3264 171 ''sys_adjtimex_time32'' ''sys_adjtimex''),
     (Always, SYSCALL 172 ''sys_getpid''),
     (Always, SYSCALL 173 ''sys_getppid''),
     (Always, SYSCALL 174 ''sys_getuid''),
     (Always, SYSCALL 175 ''sys_geteuid''),
     (Always, SYSCALL 176 ''sys_getgid''),
     (Always, SYSCALL 177 ''sys_getegid''),
     (Always, SYSCALL 178 ''sys_gettid''),
     (Always, SC_COMP 179 ''sys_sysinfo'' ''compat_sys_sysinfo''),
     (Always, SC_COMP 180 ''sys_mq_open'' ''compat_sys_mq_open''),
     (Always, SYSCALL 181 ''sys_mq_unlink''),
     (Want_Time32, SC_3264 182 ''sys_mq_timedsend_time32'' ''sys_mq_timedsend''),
     (Want_Time32, SC_3264 183 ''sys_mq_timedreceive_time32'' ''sys_mq_timedreceive''),
     (Always, SC_COMP 184 ''sys_mq_notify'' ''compat_sys_mq_notify''),
     (Always, SC_COMP 185 ''sys_mq_getsetattr'' ''compat_sys_mq_getsetattr''),
     (Always, SYSCALL 186 ''sys_msgget''),
     (Always, SC_COMP 187 ''sys_msgctl'' ''compat_sys_msgctl''),
     (Always, SC_COMP 188 ''sys_msgrcv'' ''compat_sys_msgrcv''),
     (Always, SC_COMP 189 ''sys_msgsnd'' ''compat_sys_msgsnd''),
     (Always, SYSCALL 190 ''sys_semget''),
     (Always, SC_COMP 191 ''sys_semctl'' ''compat_sys_semctl''),
     (Want_Time32, SC_3264 192 ''sys_semtimedop_time32'' ''sys_semtimedop''),
     (Always, SYSCALL 193 ''sys_semop''),
     (Always, SYSCALL 194 ''sys_shmget''),
     (Always, SC_COMP 195 ''sys_shmctl'' ''compat_sys_shmctl''),
     (Always, SC_COMP 196 ''sys_shmat'' ''compat_sys_shmat''),
     (Always, SYSCALL 197 ''sys_shmdt''),
     (Always, SYSCALL 198 ''sys_socket''),
     (Always, SYSCALL 199 ''sys_socketpair''),
     (Always, SYSCALL 200 ''sys_bind''),
     (Always, SYSCALL 201 ''sys_listen''),
     (Always, SYSCALL 202 ''sys_accept''),
     (Always, SYSCALL 203 ''sys_connect''),
     (Always, SYSCALL 204 ''sys_getsockname''),
     (Always, SYSCALL 205 ''sys_getpeername''),
     (Always, SYSCALL 206 ''sys_sendto''),
     (Always, SC_COMP 207 ''sys_recvfrom'' ''compat_sys_recvfrom''),
     (Always, SC_COMP 208 ''sys_setsockopt'' ''sys_setsockopt''),
     (Always, SC_COMP 209 ''sys_getsockopt'' ''sys_getsockopt''),
     (Always, SYSCALL 210 ''sys_shutdown''),
     (Always, SC_COMP 211 ''sys_sendmsg'' ''compat_sys_sendmsg''),
     (Always, SC_COMP 212 ''sys_recvmsg'' ''compat_sys_recvmsg''),
     (Always, SC_COMP 213 ''sys_readahead'' ''compat_sys_readahead'')]"

text \<open>Lines 615--760.\<close>

definition unistd_5 :: "(guard \<times> sc_entry) list" where
  "unistd_5 = [
     (Always, SYSCALL 214 ''sys_brk''),
     (Always, SYSCALL 215 ''sys_munmap''),
     (Always, SYSCALL 216 ''sys_mremap''),
     (Always, SYSCALL 217 ''sys_add_key''),
     (Always, SYSCALL 218 ''sys_request_key''),
     (Always, SC_COMP 219 ''sys_keyctl'' ''compat_sys_keyctl''),
     (Always, SYSCALL 220 ''sys_clone''),
     (Always, SC_COMP 221 ''sys_execve'' ''compat_sys_execve''),
     (Always, SC_3264 222 ''sys_mmap2'' ''sys_mmap''),
     (Always, SC_COMP 223 ''sys_fadvise64_64'' ''compat_sys_fadvise64_64''),
     (Mmu, SYSCALL 224 ''sys_swapon''),
     (Mmu, SYSCALL 225 ''sys_swapoff''),
     (Mmu, SYSCALL 226 ''sys_mprotect''),
     (Mmu, SYSCALL 227 ''sys_msync''),
     (Mmu, SYSCALL 228 ''sys_mlock''),
     (Mmu, SYSCALL 229 ''sys_munlock''),
     (Mmu, SYSCALL 230 ''sys_mlockall''),
     (Mmu, SYSCALL 231 ''sys_munlockall''),
     (Mmu, SYSCALL 232 ''sys_mincore''),
     (Mmu, SYSCALL 233 ''sys_madvise''),
     (Mmu, SYSCALL 234 ''sys_remap_file_pages''),
     (Mmu, SYSCALL 235 ''sys_mbind''),
     (Mmu, SYSCALL 236 ''sys_get_mempolicy''),
     (Mmu, SYSCALL 237 ''sys_set_mempolicy''),
     (Mmu, SYSCALL 238 ''sys_migrate_pages''),
     (Mmu, SYSCALL 239 ''sys_move_pages''),
     (Always, SC_COMP 240 ''sys_rt_tgsigqueueinfo'' ''compat_sys_rt_tgsigqueueinfo''),
     (Always, SYSCALL 241 ''sys_perf_event_open''),
     (Always, SYSCALL 242 ''sys_accept4''),
     (Want_Time32, SC_COMP_3264 243 ''sys_recvmmsg_time32'' ''sys_recvmmsg'' ''compat_sys_recvmmsg_time32''),
     (Want_Time32, SC_COMP 260 ''sys_wait4'' ''compat_sys_wait4''),
     (Always, SYSCALL 261 ''sys_prlimit64''),
     (Always, SYSCALL 262 ''sys_fanotify_init''),
     (Always, SYSCALL 263 ''sys_fanotify_mark''),
     (Always, SYSCALL 264 ''sys_name_to_handle_at''),
     (Always, SYSCALL 265 ''sys_open_by_handle_at''),
     (Want_Time32, SC_3264 266 ''sys_clock_adjtime32'' ''sys_clock_adjtime''),
     (Always, SYSCALL 267 ''sys_syncfs''),
     (Always, SYSCALL 268 ''sys_setns''),
     (Always, SC_COMP 269 ''sys_sendmmsg'' ''compat_sys_sendmmsg''),
     (Always, SYSCALL 270 ''sys_process_vm_readv''),
     (Always, SYSCALL 271 ''sys_process_vm_writev''),
     (Always, SYSCALL 272 ''sys_kcmp''),
     (Always, SYSCALL 273 ''sys_finit_module''),
     (Always, SYSCALL 274 ''sys_sched_setattr''),
     (Always, SYSCALL 275 ''sys_sched_getattr''),
     (Always, SYSCALL 276 ''sys_renameat2''),
     (Always, SYSCALL 277 ''sys_seccomp''),
     (Always, SYSCALL 278 ''sys_getrandom''),
     (Always, SYSCALL 279 ''sys_memfd_create''),
     (Always, SYSCALL 280 ''sys_bpf''),
     (Always, SC_COMP 281 ''sys_execveat'' ''compat_sys_execveat''),
     (Always, SYSCALL 282 ''sys_userfaultfd''),
     (Always, SYSCALL 283 ''sys_membarrier''),
     (Always, SYSCALL 284 ''sys_mlock2''),
     (Always, SYSCALL 285 ''sys_copy_file_range''),
     (Always, SC_COMP 286 ''sys_preadv2'' ''compat_sys_preadv2''),
     (Always, SC_COMP 287 ''sys_pwritev2'' ''compat_sys_pwritev2''),
     (Always, SYSCALL 288 ''sys_pkey_mprotect''),
     (Always, SYSCALL 289 ''sys_pkey_alloc''),
     (Always, SYSCALL 290 ''sys_pkey_free''),
     (Always, SYSCALL 291 ''sys_statx'')]"

text \<open>Lines 762--875.\<close>

definition unistd_6 :: "(guard \<times> sc_entry) list" where
  "unistd_6 = [
     (Want_Time32, SC_COMP_3264 292 ''sys_io_pgetevents_time32'' ''sys_io_pgetevents'' ''compat_sys_io_pgetevents''),
     (Always, SYSCALL 293 ''sys_rseq''),
     (Always, SYSCALL 294 ''sys_kexec_file_load''),
     (Compat_Or_32, SYSCALL 403 ''sys_clock_gettime''),
     (Compat_Or_32, SYSCALL 404 ''sys_clock_settime''),
     (Compat_Or_32, SYSCALL 405 ''sys_clock_adjtime''),
     (Compat_Or_32, SYSCALL 406 ''sys_clock_getres''),
     (Compat_Or_32, SYSCALL 407 ''sys_clock_nanosleep''),
     (Compat_Or_32, SYSCALL 408 ''sys_timer_gettime''),
     (Compat_Or_32, SYSCALL 409 ''sys_timer_settime''),
     (Compat_Or_32, SYSCALL 410 ''sys_timerfd_gettime''),
     (Compat_Or_32, SYSCALL 411 ''sys_timerfd_settime''),
     (Compat_Or_32, SYSCALL 412 ''sys_utimensat''),
     (Compat_Or_32, SC_COMP 413 ''sys_pselect6'' ''compat_sys_pselect6_time64''),
     (Compat_Or_32, SC_COMP 414 ''sys_ppoll'' ''compat_sys_ppoll_time64''),
     (Compat_Or_32, SC_COMP 416 ''sys_io_pgetevents'' ''compat_sys_io_pgetevents_time64''),
     (Compat_Or_32, SC_COMP 417 ''sys_recvmmsg'' ''compat_sys_recvmmsg_time64''),
     (Compat_Or_32, SYSCALL 418 ''sys_mq_timedsend''),
     (Compat_Or_32, SYSCALL 419 ''sys_mq_timedreceive''),
     (Compat_Or_32, SYSCALL 420 ''sys_semtimedop''),
     (Compat_Or_32, SC_COMP 421 ''sys_rt_sigtimedwait'' ''compat_sys_rt_sigtimedwait_time64''),
     (Compat_Or_32, SYSCALL 422 ''sys_futex''),
     (Compat_Or_32, SYSCALL 423 ''sys_sched_rr_get_interval''),
     (Always, SYSCALL 424 ''sys_pidfd_send_signal''),
     (Always, SYSCALL 425 ''sys_io_uring_setup''),
     (Always, SYSCALL 426 ''sys_io_uring_enter''),
     (Always, SYSCALL 427 ''sys_io_uring_register''),
     (Always, SYSCALL 428 ''sys_open_tree''),
     (Always, SYSCALL 429 ''sys_move_mount''),
     (Always, SYSCALL 430 ''sys_fsopen''),
     (Always, SYSCALL 431 ''sys_fsconfig''),
     (Always, SYSCALL 432 ''sys_fsmount''),
     (Always, SYSCALL 433 ''sys_fspick''),
     (Always, SYSCALL 434 ''sys_pidfd_open''),
     (Want_Clone3, SYSCALL 435 ''sys_clone3''),
     (Always, SYSCALL 436 ''sys_close_range''),
     (Always, SYSCALL 437 ''sys_openat2''),
     (Always, SYSCALL 438 ''sys_pidfd_getfd''),
     (Always, SYSCALL 439 ''sys_faccessat2''),
     (Always, SYSCALL 440 ''sys_process_madvise''),
     (Always, SC_COMP 441 ''sys_epoll_pwait2'' ''compat_sys_epoll_pwait2''),
     (Always, SYSCALL 442 ''sys_mount_setattr''),
     (Always, SYSCALL 443 ''sys_quotactl_fd''),
     (Always, SYSCALL 444 ''sys_landlock_create_ruleset''),
     (Always, SYSCALL 445 ''sys_landlock_add_rule''),
     (Always, SYSCALL 446 ''sys_landlock_restrict_self''),
     (Want_Memfd_Secret, SYSCALL 447 ''sys_memfd_secret''),
     (Always, SYSCALL 448 ''sys_process_mrelease''),
     (Always, SYSCALL 449 ''sys_futex_waitv''),
     (Always, SYSCALL 450 ''sys_set_mempolicy_home_node'')]"

definition unistd_table :: "(guard \<times> sc_entry) list" where
  "unistd_table = unistd_1 @ unistd_2 @ unistd_3 @ unistd_4 @ unistd_5 @ unistd_6"

definition NR_syscalls :: int where "NR_syscalls = 451"

text \<open>The \<open>case\<close> labels and strings \<open>syscall_name\<close> is compiled from.\<close>

definition syscall_cases :: "unistd_cfg \<Rightarrow> (int \<times> string) list" where
  "syscall_cases c = map (\<lambda>(g, e). sc_expand c e) (filter (\<lambda>(g, e). guard_holds c g) unistd_table)"

definition syscall_name :: "unistd_cfg \<Rightarrow> 32 word \<Rightarrow> string" where
  "syscall_name c nr = switch (syscall_cases c) ''unknown'' (sint nr)"

section \<open>The labels are distinct in every configuration\<close>

fun ascending :: "int list \<Rightarrow> bool" where
  "ascending (x # y # ys) = (x < y \<and> ascending (y # ys))"
| "ascending _ = True"

lemma ascending_sorted: "ascending xs \<Longrightarrow> sorted_wrt (<) xs"
  by (induction xs rule: ascending.induct) (auto intro: less_trans)

lemma ascending_distinct: "ascending xs \<Longrightarrow> distinct xs"
  using ascending_sorted strict_sorted_iff by auto

lemma sc_expand_nr: "fst (sc_expand c e) = sc_nr e"
  by (cases e) auto

lemmas unistd_defs =
  unistd_table_def unistd_1_def unistd_2_def unistd_3_def unistd_4_def unistd_5_def unistd_6_def

text \<open>Number 84 occurs twice, under opposite conditions; without either of them the numbers ascend.\<close>

lemma table_ascending:
  assumes "g \<in> {Want_Sync_File_Range2, No_Sync_File_Range2}"
  shows "ascending (map (sc_nr \<circ> snd) (filter (\<lambda>(h, e). h \<noteq> g) unistd_table))"
  using assms by (elim insertE emptyE; hypsubst; code_simp)

lemma syscall_labels:
  "map fst (syscall_cases c) = map (sc_nr \<circ> snd) (filter (\<lambda>(g, e). guard_holds c g) unistd_table)"
  by (simp add: syscall_cases_def comp_def case_prod_unfold sc_expand_nr)

lemma distinct_syscall_labels: "distinct (map fst (syscall_cases c))"
proof -
  define g where "g = (if ARCH_WANT_SYNC_FILE_RANGE2 c then No_Sync_File_Range2 else Want_Sync_File_Range2)"
  have "\<not> guard_holds c g" by (simp add: g_def)
  then have "filter (\<lambda>(h, e). guard_holds c h) unistd_table =
      filter (\<lambda>(h, e). guard_holds c h) (filter (\<lambda>(h, e). h \<noteq> g) unistd_table)"
    by (auto intro!: filter_cong simp del: filter_filter simp: filter_filter)
  moreover have "distinct (map (sc_nr \<circ> snd) (filter (\<lambda>(h, e). h \<noteq> g) unistd_table))"
    by (rule ascending_distinct, rule table_ascending) (simp add: g_def)
  ultimately show ?thesis
    unfolding syscall_labels by (metis distinct_map_filter)
qed

end
