(* ===== verification/Prelude.thy ===== *)
theory Prelude
  imports Main "HOL-Library.Word"
begin

text \<open>
  Shared vocabulary of the development: the C integer types at their widths,
  little-endian byte encodings (the only byte order the tools are built for:
  arm64 Android and x86_64 Linux), character arrays and their C-string view, and
  the few list lemmas every component uses.  The collections declared here are
  filled by the components: \<open>cstr_simps\<close> for C strings, \<open>le_simps\<close> for byte
  encodings, \<open>len_simps\<close> for the lengths of fixed-size arrays.
\<close>

named_theorems cstr_simps \<open>rewriting C-string views of character arrays\<close>
named_theorems le_simps \<open>little-endian encodings and their inverses\<close>
named_theorems len_simps \<open>lengths of fixed-size arrays\<close>

section \<open>Types\<close>

type_synonym u8 = "8 word"
type_synonym u16 = "16 word"
type_synonym u32 = "32 word"
type_synonym u64 = "64 word"
type_synonym i32 = "32 word" \<comment> \<open>C \<open>int\<close>: read with \<open>sint\<close>\<close>
type_synonym i64 = "64 word" \<comment> \<open>C \<open>long long\<close>: read with \<open>sint\<close>\<close>
type_synonym bytes = "u8 list"

abbreviation NUL :: char where
  "NUL \<equiv> CHR 0x00"

section \<open>C strings in character arrays\<close>

text \<open>The string a \<open>char\<close> array holds ends before its first NUL.\<close>

definition c_str :: "string \<Rightarrow> string" where
  "c_str buf = takeWhile (\<lambda>c. c \<noteq> NUL) buf"

text \<open>An array is a valid C string only if it holds a NUL: otherwise reading it runs off its end.\<close>

definition nul_terminated :: "string \<Rightarrow> bool" where
  "nul_terminated buf \<longleftrightarrow> NUL \<in> set buf"

lemma c_str_no_nul [simp]: "NUL \<notin> set (c_str buf)"
  by (auto simp: c_str_def dest: set_takeWhileD)

lemma c_str_id [cstr_simps]: "NUL \<notin> set s \<Longrightarrow> c_str s = s"
  unfolding c_str_def by (subst takeWhile_eq_all_conv) auto

lemma c_str_append_nul [cstr_simps]: "NUL \<notin> set s \<Longrightarrow> c_str (s @ NUL # r) = s"
  unfolding c_str_def by (subst takeWhile_append2) auto

lemma c_str_Cons_nul [simp]: "c_str (NUL # r) = []"
  by (simp add: c_str_def)

lemma c_str_Nil [simp]: "c_str [] = []"
  by (simp add: c_str_def)

lemma length_c_str_le: "length (c_str buf) \<le> length buf"
  by (simp add: c_str_def length_takeWhile_le)

lemma length_c_str_less:
  assumes "nul_terminated buf"
  shows "length (c_str buf) < length buf"
proof -
  from assms obtain p r where "buf = p @ NUL # r" and "NUL \<notin> set p"
    unfolding nul_terminated_def by (metis split_list_first)
  then show ?thesis by (simp add: c_str_append_nul)
qed

lemma c_str_take_nul:
  assumes "n < length buf" and "buf ! n = NUL" and "\<forall>i<n. buf ! i \<noteq> NUL"
  shows "c_str buf = take n buf"
  unfolding c_str_def using assms by (intro takeWhile_eq_take_P_nth) auto

lemma nul_terminated_nth: "i < length buf \<Longrightarrow> buf ! i = NUL \<Longrightarrow> nul_terminated buf"
  unfolding nul_terminated_def using nth_mem by metis

lemma nul_in_take: "length s < n \<Longrightarrow> NUL \<in> set (take n (s @ NUL # r))"
  by (cases "n - length s") auto

section \<open>Overwriting the front of an array\<close>

text \<open>\<open>overwrite xs ys\<close> is \<open>memcpy (xs, ys, length ys)\<close> into the array \<open>xs\<close>.\<close>

definition overwrite :: "'a list \<Rightarrow> 'a list \<Rightarrow> 'a list" where
  "overwrite xs ys = ys @ drop (length ys) xs"

lemma length_overwrite [len_simps]: "length ys \<le> length xs \<Longrightarrow> length (overwrite xs ys) = length xs"
  by (simp add: overwrite_def)

lemma take_overwrite: "take (length ys) (overwrite xs ys) = ys"
  by (simp add: overwrite_def)

lemma overwrite_all [simp]: "length xs = length ys \<Longrightarrow> overwrite xs ys = ys"
  by (simp add: overwrite_def)

section \<open>Characters as bytes\<close>

definition byte_of_char :: "char \<Rightarrow> u8" where
  "byte_of_char c = of_nat (of_char c)"

definition char_of_byte :: "u8 \<Rightarrow> char" where
  "char_of_byte b = char_of (unat b)"

lemma char_of_byte_of_char [le_simps]: "char_of_byte (byte_of_char c) = c"
proof -
  have "(of_char c :: nat) mod 256 = of_char c" by (rule of_char_mod_256)
  then show ?thesis by (simp add: char_of_byte_def byte_of_char_def unat_of_nat)
qed

lemma map_char_of_byte_of_char [le_simps]: "map char_of_byte (map byte_of_char s) = s"
  by (simp add: comp_def le_simps)

section \<open>Little-endian integers\<close>

lemma unat_less_256: "unat (b :: u8) < 256"
  using unsigned_less [of b] by simp

primrec le_nat :: "bytes \<Rightarrow> nat" where
  "le_nat [] = 0"
| "le_nat (b # bs) = unat b + 256 * le_nat bs"

primrec le_bytes :: "nat \<Rightarrow> nat \<Rightarrow> bytes" where
  "le_bytes 0 n = []"
| "le_bytes (Suc k) n = of_nat n # le_bytes k (n div 256)"

lemma length_le_bytes [simp]: "length (le_bytes k n) = k"
  by (induction k arbitrary: n) auto

lemma le_nat_bytes: "le_nat (le_bytes k n) = n mod 256 ^ k"
proof (induction k arbitrary: n)
  case 0
  then show ?case by simp
next
  case (Suc k)
  then show ?case by (simp add: unat_of_nat mod_mult2_eq)
qed

lemma le_bytes_numeral: "le_bytes (numeral k) n = of_nat n # le_bytes (pred_numeral k) (n div 256)"
  by (subst numeral_eq_Suc) (rule le_bytes.simps(2))

lemma le_nat_less: "le_nat bs < 256 ^ length bs"
proof (induction bs)
  case Nil
  then show ?case by simp
next
  case (Cons b bs)
  have "unat b < 256" by (rule unat_less_256)
  with Cons show ?case by simp
qed

lemma le_bytes_nat: "le_bytes (length bs) (le_nat bs) = bs"
proof (induction bs)
  case Nil
  then show ?case by simp
next
  case (Cons b bs)
  have "unat b < 256" by (rule unat_less_256)
  moreover have "(256 :: u8) * x = 0" for x
    by (subgoal_tac "(256 :: u8) = 0", simp only: mult_zero_left, simp)
  ultimately show ?case using Cons by simp
qed

text \<open>Words of a given width, stored in memory.\<close>

definition le_word :: "bytes \<Rightarrow> 'a::len word" where
  "le_word bs = of_nat (le_nat bs)"

definition le_store :: "nat \<Rightarrow> 'a::len word \<Rightarrow> bytes" where
  "le_store k w = le_bytes k (unat w)"

lemma length_le_store [simp]: "length (le_store k w) = k"
  by (simp add: le_store_def)

lemma le_word_store:
  assumes "LENGTH('a) \<le> 8 * k"
  shows "le_word (le_store k (w :: 'a::len word)) = w"
proof -
  have "unat w < 2 ^ LENGTH('a)" by (rule unsigned_less)
  also have "\<dots> \<le> 2 ^ (8 * k)" using assms by (simp add: power_increasing)
  also have "\<dots> = 256 ^ k" by (simp add: power_mult)
  finally show ?thesis by (simp add: le_word_def le_store_def le_nat_bytes)
qed

lemma le_word_store_u16 [le_simps]: "le_word (le_store 2 w) = (w :: u16)"
  by (simp add: le_word_store)

lemma le_word_store_u32 [le_simps]: "le_word (le_store 4 w) = (w :: u32)"
  by (simp add: le_word_store)

lemma le_word_store_u64 [le_simps]: "le_word (le_store 8 w) = (w :: u64)"
  by (simp add: le_word_store)

section \<open>Slices of memory\<close>

definition chunk :: "nat \<Rightarrow> nat \<Rightarrow> 'a list \<Rightarrow> 'a list" where
  "chunk off n xs = take n (drop off xs)"

lemma length_chunk [simp]: "length (chunk off n xs) = min n (length xs - off)"
  by (simp add: chunk_def)

lemma chunk_append_left: "off + n \<le> length xs \<Longrightarrow> chunk off n (xs @ ys) = chunk off n xs"
  by (simp add: chunk_def)

lemma chunk_append_right: "length xs \<le> off \<Longrightarrow> chunk off n (xs @ ys) = chunk (off - length xs) n ys"
  by (simp add: chunk_def)

lemma chunk_0 [simp]: "length xs = n \<Longrightarrow> chunk 0 n xs = xs"
  by (simp add: chunk_def)

end
