(* ===== verification/C_Lib.thy ===== *)
theory C_Lib
  imports Prelude
begin

text \<open>
  The parts of the C library the tools call on strings and numbers: the
  \<open>printf\<close> conversions that occur in their format strings, \<open>snprintf\<close> into a
  bounded buffer, \<open>strtol\<close> in base 10 with 64-bit \<open>long\<close>, \<open>strncmp\<close> and
  \<open>strcspn\<close>.  A C string is a list of characters without NUL.
\<close>

section \<open>Printing numbers\<close>

definition digit_char :: "nat \<Rightarrow> char" where
  "digit_char d = (if d < 10 then char_of (48 + d) else char_of (87 + d))"

definition digit_val :: "char \<Rightarrow> nat" where
  "digit_val c = (if of_char c < (58 :: nat) then of_char c - 48 else of_char c - 87)"

function digits :: "nat \<Rightarrow> nat \<Rightarrow> string" where
  "digits b n =
     (if b < 2 then [] else if n < b then [digit_char n]
      else digits b (n div b) @ [digit_char (n mod b)])"
  by pat_completeness auto
termination
  by (relation "measure snd") auto

declare digits.simps [simp del]

definition digits_val :: "nat \<Rightarrow> string \<Rightarrow> nat" where
  "digits_val b ds = foldl (\<lambda>v c. v * b + digit_val c) 0 ds"

text \<open>\<open>%llu\<close>/\<open>%u\<close>, \<open>%lld\<close>/\<open>%d\<close>, \<open>%#llx\<close>, \<open>%#llo\<close> and \<open>%llx\<close>.\<close>

definition fmt_u :: "'a::len word \<Rightarrow> string" where
  "fmt_u w = digits 10 (unat w)"

definition fmt_int :: "int \<Rightarrow> string" where
  "fmt_int i = (if i < 0 then CHR ''-'' # digits 10 (nat (- i)) else digits 10 (nat i))"

definition fmt_d :: "'a::len word \<Rightarrow> string" where
  "fmt_d w = fmt_int (sint w)"

definition fmt_x :: "'a::len word \<Rightarrow> string" where
  "fmt_x w = digits 16 (unat w)"

definition fmt_alt_x :: "'a::len word \<Rightarrow> string" where
  "fmt_alt_x w = (if w = 0 then ''0'' else ''0x'' @ digits 16 (unat w))"

definition fmt_alt_o :: "'a::len word \<Rightarrow> string" where
  "fmt_alt_o w = (if w = 0 then ''0'' else ''0'' @ digits 8 (unat w))"

text \<open>
  \<open>snprintf (buf, sz, \<dots>)\<close> with \<open>sz > 0\<close> leaves in \<open>buf\<close> the first \<open>sz - 1\<close>
  characters of the formatted text; its result is the untruncated length.
\<close>

definition snprintf :: "nat \<Rightarrow> string \<Rightarrow> string" where
  "snprintf sz s = take (sz - 1) s"

section \<open>Reading numbers and comparing strings\<close>

definition isspace :: "char \<Rightarrow> bool" where
  "isspace c \<longleftrightarrow> c = CHR '' '' \<or> (9 \<le> (of_char c :: nat) \<and> (of_char c :: nat) \<le> 13)"

definition isdigit :: "char \<Rightarrow> bool" where
  "isdigit c \<longleftrightarrow> 48 \<le> (of_char c :: nat) \<and> (of_char c :: nat) \<le> 57"

definition LONG_MAX :: int where "LONG_MAX = 2 ^ 63 - 1"
definition LONG_MIN :: int where "LONG_MIN = - (2 ^ 63)"

record strtol_result =
  st_val :: int    \<comment> \<open>the value returned\<close>
  st_end :: nat    \<comment> \<open>\<open>end - s\<close>: characters consumed\<close>
  st_range :: bool \<comment> \<open>\<open>errno\<close> was set to \<open>ERANGE\<close>\<close>

fun strtol_sign :: "string \<Rightarrow> bool \<times> string" where
  "strtol_sign [] = (False, [])"
| "strtol_sign (c # r) =
     (if c = CHR ''-'' then (True, r) else if c = CHR ''+'' then (False, r) else (False, c # r))"

definition strtol :: "string \<Rightarrow> strtol_result" where
  "strtol s =
     (let (neg, s2) = strtol_sign (dropWhile isspace s);
          ds = takeWhile isdigit s2;
          v = (if neg then - int (digits_val 10 ds) else int (digits_val 10 ds));
          n = length s - length (dropWhile isdigit s2)
      in if ds = [] then \<lparr>st_val = 0, st_end = 0, st_range = False\<rparr>
         else if LONG_MAX < v then \<lparr>st_val = LONG_MAX, st_end = n, st_range = True\<rparr>
         else if v < LONG_MIN then \<lparr>st_val = LONG_MIN, st_end = n, st_range = True\<rparr>
         else \<lparr>st_val = v, st_end = n, st_range = False\<rparr>)"

text \<open>\<open>s[i]\<close> of a C string: its terminator is at \<open>s[strlen (s)]\<close>, and nothing may be read behind it.\<close>

definition c_at :: "string \<Rightarrow> nat \<Rightarrow> char option" where
  "c_at s i = (if i < length s then Some (s ! i) else if i = length s then Some NUL else None)"

text \<open>\<open>strncmp (s, t, n) == 0\<close>: the comparison stops at \<open>n\<close> characters or at a terminator.\<close>

definition strncmp_eq :: "string \<Rightarrow> string \<Rightarrow> nat \<Rightarrow> bool" where
  "strncmp_eq s t n \<longleftrightarrow> take n (s @ [NUL]) = take n (t @ [NUL])"

definition strcspn :: "string \<Rightarrow> char \<Rightarrow> nat" where
  "strcspn s c = length (takeWhile (\<lambda>x. x \<noteq> c) s)"

section \<open>Lemmas on printed numbers\<close>

lemma of_char_of_small: "n < 256 \<Longrightarrow> (of_char (char_of n :: char) :: nat) = n"
  by simp

lemma digit_val_char: "d < 36 \<Longrightarrow> digit_val (digit_char d) = d"
  by (simp add: digit_val_def digit_char_def)

lemma digit_char_not_nul: "d < 36 \<Longrightarrow> digit_char d \<noteq> NUL"
proof
  assume "d < 36" and "digit_char d = NUL"
  then have "(of_char (digit_char d) :: nat) = 0" by simp
  with \<open>d < 36\<close> show False by (simp add: digit_char_def split: if_splits)
qed

lemma digits_nonempty [simp]: "2 \<le> b \<Longrightarrow> digits b n \<noteq> []"
  by (subst digits.simps) simp

lemma digits_set:
  assumes "2 \<le> b"
  shows "set (digits b n) \<subseteq> digit_char ` {..<b}"
proof (induction b n rule: digits.induct)
  case (1 b n)
  show ?case
  proof (cases "b < 2 \<or> n < b")
    case True
    then show ?thesis by (subst digits.simps) auto
  next
    case False
    with 1 have "set (digits b (n div b)) \<subseteq> digit_char ` {..<b}" by simp
    with False show ?thesis by (subst digits.simps) auto
  qed
qed

lemma digits_no_nul [simp]:
  assumes "b \<le> 36" shows "NUL \<notin> set (digits b n)"
proof (cases "2 \<le> b")
  case True
  show ?thesis
  proof
    assume "NUL \<in> set (digits b n)"
    then obtain d where "d < b" and "digit_char d = NUL"
      using digits_set [OF True, of n] by (metis imageE lessThan_iff subsetD)
    then show False using assms digit_char_not_nul [of d] by simp
  qed
next
  case False
  then show ?thesis by (subst digits.simps) simp
qed

lemma digits_val_snoc: "digits_val b (ds @ [c]) = digits_val b ds * b + digit_val c"
  by (simp add: digits_val_def)

lemma digits_val_digits:
  assumes "2 \<le> b" and "b \<le> 36"
  shows "digits_val b (digits b n) = n"
  using assms
proof (induction b n rule: digits.induct)
  case (1 b n)
  show ?case
  proof (cases "n < b")
    case True
    with 1(2,3) show ?thesis
      by (subst digits.simps) (simp add: digits_val_def digit_val_char)
  next
    case False
    with 1 have "digits_val b (digits b (n div b)) = n div b" by simp
    moreover have "n mod b < 36"
      using 1(2,3) mod_less_divisor [of b n] by linarith
    ultimately show ?thesis using False 1(2,3)
      by (subst digits.simps) (simp add: digits_val_snoc digit_val_char)
  qed
qed

lemma digits_inj: "2 \<le> b \<Longrightarrow> b \<le> 36 \<Longrightarrow> digits b m = digits b n \<Longrightarrow> m = n"
  by (metis digits_val_digits)

lemma length_digits_le:
  assumes "2 \<le> b" and "n < b ^ k" and "0 < k"
  shows "length (digits b n) \<le> k"
  using assms
proof (induction b n arbitrary: k rule: digits.induct)
  case (1 b n)
  show ?case
  proof (cases "n < b")
    case True
    with 1(2,4) show ?thesis by (subst digits.simps) simp
  next
    case False
    then have "k \<noteq> 1" and "k \<noteq> 0" using 1(3,4) by auto
    then obtain j where k: "k = Suc j" and "0 < j" by (cases k) auto
    have "n div b < b ^ j"
      using 1(2,3) k by (simp add: less_mult_imp_div_less mult.commute)
    with 1(1) 1(2) False \<open>0 < j\<close> have "length (digits b (n div b)) \<le> j" by simp
    with False 1(2) k show ?thesis by (subst digits.simps) simp
  qed
qed

lemma fmt_no_nul [simp]:
  "NUL \<notin> set (fmt_u w)" "NUL \<notin> set (fmt_int i)" "NUL \<notin> set (fmt_d w)" "NUL \<notin> set (fmt_x w)"
  "NUL \<notin> set (fmt_alt_x w)" "NUL \<notin> set (fmt_alt_o w)"
  by (auto simp: fmt_u_def fmt_int_def fmt_d_def fmt_x_def fmt_alt_x_def fmt_alt_o_def)

lemma fmt_u_inj: "fmt_u v = fmt_u (w :: 'a::len word) \<Longrightarrow> v = w"
  unfolding fmt_u_def by (drule digits_inj [rotated 2]) (auto simp: word_unat_eq_iff)

lemma fmt_alt_x_inj: "fmt_alt_x v = fmt_alt_x (w :: 'a::len word) \<Longrightarrow> v = w"
  unfolding fmt_alt_x_def
  by (auto split: if_splits dest!: digits_inj [rotated 2] simp: word_unat_eq_iff)

lemma length_snprintf: "0 < sz \<Longrightarrow> length (snprintf sz s) < sz"
  by (simp add: snprintf_def)

lemma snprintf_no_nul [simp]: "NUL \<notin> set s \<Longrightarrow> NUL \<notin> set (snprintf sz s)"
  by (auto simp: snprintf_def dest: in_set_takeD)

lemma snprintf_fits: "length s < sz \<Longrightarrow> snprintf sz s = s"
  by (simp add: snprintf_def)

section \<open>Lemmas on scanned numbers and compared strings\<close>

lemma isdigit_digit_char: "d < 10 \<Longrightarrow> isdigit (digit_char d)"
  by (simp add: isdigit_def digit_char_def)

lemma isdigit_digits: "c \<in> set (digits 10 n) \<Longrightarrow> isdigit c"
  using digits_set [of 10 n] isdigit_digit_char by (auto dest!: subsetD)

lemma isdigit_not_space_sign:
  "isdigit c \<Longrightarrow> \<not> isspace c" "isdigit c \<Longrightarrow> c \<noteq> CHR ''-''" "isdigit c \<Longrightarrow> c \<noteq> CHR ''+''"
  by (auto simp: isdigit_def isspace_def)

lemma strncmp_eq_prefix:
  assumes "NUL \<notin> set s" and "NUL \<notin> set t"
  shows "strncmp_eq s t (length s) \<longleftrightarrow> take (length s) t = s"
proof (cases "length s \<le> length t")
  case True
  then show ?thesis by (auto simp: strncmp_eq_def)
next
  case False
  have "take (length s) (t @ [NUL]) \<noteq> s"
    using False assms(1) by (auto simp: not_le take_all_iff)
  with False show ?thesis by (auto simp: strncmp_eq_def)
qed

end
