(* ===== verification/Strace_Names.thy ===== *)
theory Strace_Names
  imports Unistd C_Lib
begin

text \<open>
  The name tables of \<open>libbpfstrace.c\<close>: \<open>errno_name\<close> over the error numbers of the
  kernel headers, \<open>futex_op_name\<close>, and \<open>syscall_name\<close> of \<open>Unistd\<close> with the prefix
  \<open>handle_event\<close> strips.  Each interprets the locale \<open>switch_table\<close>.
\<close>

section \<open>Error numbers\<close>

text \<open>\<open>uapi/asm-generic/errno-base.h\<close> and \<open>errno.h\<close>.\<close>

definition errno_base_h :: "(string \<times> i32) list" where
  "errno_base_h = [
     (''EPERM'', 1), (''ENOENT'', 2), (''ESRCH'', 3), (''EINTR'', 4), (''EIO'', 5), (''ENXIO'', 6),
     (''E2BIG'', 7), (''ENOEXEC'', 8), (''EBADF'', 9), (''ECHILD'', 10), (''EAGAIN'', 11),
     (''ENOMEM'', 12), (''EACCES'', 13), (''EFAULT'', 14), (''ENOTBLK'', 15), (''EBUSY'', 16),
     (''EEXIST'', 17), (''EXDEV'', 18), (''ENODEV'', 19), (''ENOTDIR'', 20), (''EISDIR'', 21),
     (''EINVAL'', 22), (''ENFILE'', 23), (''EMFILE'', 24), (''ENOTTY'', 25), (''ETXTBSY'', 26),
     (''EFBIG'', 27), (''ENOSPC'', 28), (''ESPIPE'', 29), (''EROFS'', 30), (''EMLINK'', 31),
     (''EPIPE'', 32), (''EDOM'', 33), (''ERANGE'', 34)]"

definition errno_h :: "(string \<times> i32) list" where
  "errno_h = [
     (''EDEADLK'', 35), (''ENAMETOOLONG'', 36), (''ENOLCK'', 37), (''ENOSYS'', 38), (''ENOTEMPTY'', 39),
     (''ELOOP'', 40), (''EWOULDBLOCK'', 11), (''ENOMSG'', 42), (''EIDRM'', 43), (''ECHRNG'', 44),
     (''EL2NSYNC'', 45), (''EL3HLT'', 46), (''EL3RST'', 47), (''ELNRNG'', 48), (''EUNATCH'', 49),
     (''ENOCSI'', 50), (''EL2HLT'', 51), (''EBADE'', 52), (''EBADR'', 53), (''EXFULL'', 54),
     (''ENOANO'', 55), (''EBADRQC'', 56), (''EBADSLT'', 57), (''EDEADLOCK'', 35), (''EBFONT'', 59),
     (''ENOSTR'', 60), (''ENODATA'', 61), (''ETIME'', 62), (''ENOSR'', 63), (''ENONET'', 64),
     (''ENOPKG'', 65), (''EREMOTE'', 66), (''ENOLINK'', 67), (''EADV'', 68), (''ESRMNT'', 69),
     (''ECOMM'', 70), (''EPROTO'', 71), (''EMULTIHOP'', 72), (''EDOTDOT'', 73), (''EBADMSG'', 74),
     (''EOVERFLOW'', 75), (''ENOTUNIQ'', 76), (''EBADFD'', 77), (''EREMCHG'', 78), (''ELIBACC'', 79),
     (''ELIBBAD'', 80), (''ELIBSCN'', 81), (''ELIBMAX'', 82), (''ELIBEXEC'', 83), (''EILSEQ'', 84),
     (''ERESTART'', 85), (''ESTRPIPE'', 86), (''EUSERS'', 87), (''ENOTSOCK'', 88), (''EDESTADDRREQ'', 89),
     (''EMSGSIZE'', 90), (''EPROTOTYPE'', 91), (''ENOPROTOOPT'', 92), (''EPROTONOSUPPORT'', 93),
     (''ESOCKTNOSUPPORT'', 94), (''EOPNOTSUPP'', 95), (''EPFNOSUPPORT'', 96), (''EAFNOSUPPORT'', 97),
     (''EADDRINUSE'', 98), (''EADDRNOTAVAIL'', 99), (''ENETDOWN'', 100), (''ENETUNREACH'', 101),
     (''ENETRESET'', 102), (''ECONNABORTED'', 103), (''ECONNRESET'', 104), (''ENOBUFS'', 105),
     (''EISCONN'', 106), (''ENOTCONN'', 107), (''ESHUTDOWN'', 108), (''ETOOMANYREFS'', 109),
     (''ETIMEDOUT'', 110), (''ECONNREFUSED'', 111), (''EHOSTDOWN'', 112), (''EHOSTUNREACH'', 113),
     (''EALREADY'', 114), (''EINPROGRESS'', 115), (''ESTALE'', 116), (''EUCLEAN'', 117),
     (''ENOTNAM'', 118), (''ENAVAIL'', 119), (''EISNAM'', 120), (''EREMOTEIO'', 121), (''EDQUOT'', 122),
     (''ENOMEDIUM'', 123), (''EMEDIUMTYPE'', 124), (''ECANCELED'', 125), (''ENOKEY'', 126),
     (''EKEYEXPIRED'', 127), (''EKEYREVOKED'', 128), (''EKEYREJECTED'', 129), (''EOWNERDEAD'', 130),
     (''ENOTRECOVERABLE'', 131), (''ERFKILL'', 132), (''EHWPOISON'', 133)]"

definition errno_val :: "string \<Rightarrow> i32" where
  "errno_val n = (case map_of (errno_base_h @ errno_h) n of None \<Rightarrow> 0 | Some v \<Rightarrow> v)"

text \<open>The arms of the switch in source order: the constant after \<open>case\<close> and the text after \<open>return\<close>.\<close>

definition errno_arms :: "(string \<times> string) list" where
  "errno_arms = [
     (''EPERM'', ''EPERM''), (''ENOENT'', ''ENOENT''), (''ESRCH'', ''ESRCH''), (''EINTR'', ''EINTR''),
     (''EIO'', ''EIO''), (''ENXIO'', ''ENXIO''), (''E2BIG'', ''E2BIG''), (''ENOEXEC'', ''ENOEXEC''),
     (''EBADF'', ''EBADF''), (''ECHILD'', ''ECHILD''), (''EAGAIN'', ''EAGAIN''), (''ENOMEM'', ''ENOMEM''),
     (''EACCES'', ''EACCES''), (''EFAULT'', ''EFAULT''), (''EBUSY'', ''EBUSY''), (''EEXIST'', ''EEXIST''),
     (''ENODEV'', ''ENODEV''), (''ENOTDIR'', ''ENOTDIR''), (''EISDIR'', ''EISDIR''), (''EINVAL'', ''EINVAL''),
     (''ENFILE'', ''ENFILE''), (''EMFILE'', ''EMFILE''), (''ENOTTY'', ''ENOTTY''), (''ETXTBSY'', ''ETXTBSY''),
     (''EFBIG'', ''EFBIG''), (''ENOSPC'', ''ENOSPC''), (''ESPIPE'', ''ESPIPE''), (''EROFS'', ''EROFS''),
     (''EMLINK'', ''EMLINK''), (''EPIPE'', ''EPIPE''), (''EDOM'', ''EDOM''), (''ERANGE'', ''ERANGE''),
     (''ENOSYS'', ''ENOSYS''), (''ECONNREFUSED'', ''ECONNREFUSED''), (''ETIMEDOUT'', ''ETIMEDOUT'')]"

definition errno_cases :: "(i32 \<times> string) list" where
  "errno_cases = map (\<lambda>(label, text). (errno_val label, text)) errno_arms"

definition errno_name :: "i32 \<Rightarrow> string" where
  "errno_name err = switch errno_cases ''ERR'' err"

section \<open>Futex operations\<close>

definition futex_ops :: "(u64 \<times> string) list" where
  "futex_ops = [
     (0, ''FUTEX_WAIT''),
     (1, ''FUTEX_WAKE''),
     (2, ''FUTEX_FD''),
     (3, ''FUTEX_REQUEUE''),
     (4, ''FUTEX_CMP_REQUEUE''),
     (5, ''FUTEX_WAKE_OP''),
     (6, ''FUTEX_LOCK_PI''),
     (7, ''FUTEX_UNLOCK_PI''),
     (8, ''FUTEX_TRYLOCK_PI''),
     (9, ''FUTEX_WAIT_BITSET''),
     (10, ''FUTEX_WAKE_BITSET''),
     (11, ''FUTEX_WAIT_REQUEUE_PI''),
     (12, ''FUTEX_CMP_REQUEUE_PI''),
     (13, ''FUTEX_LOCK_PI2'')]"

definition futex_op_name :: "u64 \<Rightarrow> string" where
  "futex_op_name p = switch futex_ops ''FUTEX_UNKNOWN'' (and p 0x7f)"

text \<open>\<open>uapi/linux/futex.h\<close>.\<close>

definition futex_h :: "(string \<times> u64) list" where
  "futex_h = [
     (''FUTEX_WAIT'', 0), (''FUTEX_WAKE'', 1), (''FUTEX_FD'', 2), (''FUTEX_REQUEUE'', 3), (''FUTEX_CMP_REQUEUE'', 4),
     (''FUTEX_WAKE_OP'', 5), (''FUTEX_LOCK_PI'', 6), (''FUTEX_UNLOCK_PI'', 7), (''FUTEX_TRYLOCK_PI'', 8),
     (''FUTEX_WAIT_BITSET'', 9), (''FUTEX_WAKE_BITSET'', 10), (''FUTEX_WAIT_REQUEUE_PI'', 11),
     (''FUTEX_CMP_REQUEUE_PI'', 12), (''FUTEX_LOCK_PI2'', 13)]"

definition FUTEX_PRIVATE_FLAG :: u64 where "FUTEX_PRIVATE_FLAG = 128"
definition FUTEX_CLOCK_REALTIME :: u64 where "FUTEX_CLOCK_REALTIME = 256"
definition FUTEX_CMD_MASK :: u64 where "FUTEX_CMD_MASK = not (or FUTEX_PRIVATE_FLAG FUTEX_CLOCK_REALTIME)"

lemmas futex_flag_defs = FUTEX_PRIVATE_FLAG_def FUTEX_CLOCK_REALTIME_def FUTEX_CMD_MASK_def

section \<open>System call names\<close>

text \<open>\<open>if (strncmp (name, "sys_", 4) == 0) name += 4;\<close> in \<open>handle_event\<close>.\<close>

definition strip_sys :: "string \<Rightarrow> string" where
  "strip_sys name = (if strncmp_eq name ''sys_'' 4 then drop 4 name else name)"

section \<open>Lemmas\<close>

fun sc_names :: "sc_entry \<Rightarrow> string list" where
  "sc_names (SYSCALL n call) = [call]"
| "sc_names (SC_3264 n c32 c64) = [c32, c64]"
| "sc_names (SC_COMP n call cmp) = [call, cmp]"
| "sc_names (SC_COMP_3264 n c32 c64 cmp) = [c32, c64, cmp]"

lemma sc_expand_names: "snd (sc_expand c e) \<in> set (sc_names e)"
  by (cases e) auto

text \<open>No entry is called \<open>unknown\<close>, none is longer than 40 characters, and none contains NUL.\<close>

lemma table_names:
  "list_all (\<lambda>(g, e). list_all (\<lambda>n. n \<noteq> ''unknown'' \<and> length n \<le> 40 \<and> list_all (\<lambda>ch. ch \<noteq> NUL) n) (sc_names e))
     unistd_table"
  by code_simp

lemma syscall_cases_names:
  assumes "(nr, n) \<in> set (syscall_cases c)"
  shows "n \<noteq> ''unknown'' \<and> length n \<le> 40 \<and> NUL \<notin> set n"
proof -
  from assms obtain g e where "(g, e) \<in> set unistd_table" and "(nr, n) = sc_expand c e"
    by (auto simp: syscall_cases_def)
  moreover from this have "n \<in> set (sc_names e)" by (metis sc_expand_names snd_conv)
  ultimately show ?thesis using table_names unfolding list_all_iff by fast
qed

lemma errno_labels_distinct: "distinct (map fst errno_cases)"
  by code_simp

lemma errno_texts_props:
  "list_all (\<lambda>n. n \<noteq> ''ERR'' \<and> length n \<le> 12 \<and> list_all (\<lambda>ch. ch \<noteq> NUL) n) (map snd errno_arms)"
  by code_simp

lemma errno_cases_texts: "snd ` set errno_cases = set (map snd errno_arms)"
  by (force simp: errno_cases_def)

lemma futex_names_props:
  "list_all (\<lambda>(v, n). n \<noteq> ''FUTEX_UNKNOWN'' \<and> length n \<le> 21 \<and> list_all (\<lambda>ch. ch \<noteq> NUL) n) futex_ops"
  by code_simp

interpretation syscall_names: switch_table "syscall_cases c" "''unknown''" for c
proof
  show "distinct (map fst (syscall_cases c))" by (rule distinct_syscall_labels)
  show "''unknown'' \<notin> snd ` set (syscall_cases c)" using syscall_cases_names by fastforce
qed

interpretation errno_switch: switch_table errno_cases "''ERR''"
proof
  show "distinct (map fst errno_cases)" by (rule errno_labels_distinct)
  show "''ERR'' \<notin> snd ` set errno_cases" using errno_texts_props by (auto simp: errno_cases_texts list_all_iff)
qed

interpretation futex_switch: switch_table futex_ops "''FUTEX_UNKNOWN''"
  by unfold_locales (use futex_names_props in \<open>auto simp: futex_ops_def\<close>)

lemma syscall_name_bounds: "length (syscall_name c nr) \<le> 40 \<and> NUL \<notin> set (syscall_name c nr)"
proof (cases "syscall_name c nr = ''unknown''")
  case False
  then have "(sint nr, syscall_name c nr) \<in> set (syscall_cases c)"
    using syscall_names.switch_result [of "syscall_name c nr" c "sint nr"] by (simp add: syscall_name_def)
  then show ?thesis using syscall_cases_names by blast
qed simp

lemma strip_sys_bounds: "length (strip_sys n) \<le> length n" "NUL \<notin> set n \<Longrightarrow> NUL \<notin> set (strip_sys n)"
  by (auto simp: strip_sys_def dest: in_set_dropD)

lemma errno_name_bounds: "length (errno_name e) \<le> 12 \<and> NUL \<notin> set (errno_name e)"
proof (cases "errno_name e = ''ERR''")
  case False
  then have "errno_name e \<in> snd ` set errno_cases"
    using errno_switch.switch_result [of "errno_name e" e] by (force simp: errno_name_def)
  then have "errno_name e \<in> set (map snd errno_arms)" by (simp only: errno_cases_texts)
  with errno_texts_props show ?thesis unfolding list_all_iff by blast
qed simp

lemma futex_op_name_bounds: "length (futex_op_name p) \<le> 21 \<and> NUL \<notin> set (futex_op_name p)"
proof (cases "futex_op_name p = ''FUTEX_UNKNOWN''")
  case False
  then have "(and p 0x7f, futex_op_name p) \<in> set futex_ops"
    using futex_switch.switch_result [of "futex_op_name p" "and p 0x7f"] by (simp add: futex_op_name_def)
  then show ?thesis using futex_names_props by (auto simp: list_all_iff)
qed simp

section \<open>Properties\<close>

text \<open>
  (C25) \<open>errno_name\<close>.  A name other than \<open>ERR\<close> is returned exactly for a number to which the kernel headers give that
  name: each of the errors 1 to 34 of \<open>errno-base.h\<close> except \<open>ENOTBLK\<close> and \<open>EXDEV\<close> is printed under its own name, of
  \<open>errno.h\<close> only \<open>ENOSYS\<close>, \<open>ECONNREFUSED\<close> and \<open>ETIMEDOUT\<close> are, and every other number, also a negative one,
  gives \<open>ERR\<close>.
\<close>

theorem errno_name_correct:
  "(errno_name err = n \<and> n \<noteq> ''ERR'') \<longleftrightarrow>
     ((n, err) \<in> set errno_base_h \<and> n \<notin> {''ENOTBLK'', ''EXDEV''} \<or>
      (n, err) \<in> set errno_h \<and> n \<in> {''ENOSYS'', ''ECONNREFUSED'', ''ETIMEDOUT''})"
proof -
  let ?base = "filter (\<lambda>(n, v). n \<notin> {''ENOTBLK'', ''EXDEV''}) errno_base_h"
  let ?more = "filter (\<lambda>(n, v). n \<in> {''ENOSYS'', ''ECONNREFUSED'', ''ETIMEDOUT''}) errno_h"
  have "list_all (\<lambda>c. prod.swap c \<in> set (?base @ ?more)) errno_cases" by code_simp
  moreover have "list_all (\<lambda>c. prod.swap c \<in> set errno_cases) (?base @ ?more)" by code_simp
  ultimately have "(err, n) \<in> set errno_cases \<longleftrightarrow> (n, err) \<in> set (?base @ ?more)"
    unfolding list_all_iff by (metis swap_simp)
  moreover have "(errno_name err = n \<and> n \<noteq> ''ERR'') \<longleftrightarrow> (err, n) \<in> set errno_cases"
    unfolding errno_name_def using errno_switch.switch_result [of n err] errno_switch.default_fresh by force
  ultimately show ?thesis by simp
qed

text \<open>
  (C14) \<open>futex_op_name\<close>.  For an operation whose bits above the flag \<open>FUTEX_CLOCK_REALTIME\<close> are clear, the name printed is
  the one that \<open>linux/futex.h\<close> gives to its command, the operation under \<open>FUTEX_CMD_MASK\<close>, whether or not the flags
  \<open>FUTEX_PRIVATE_FLAG\<close> and \<open>FUTEX_CLOCK_REALTIME\<close> are set; a command the header does not know is printed as
  \<open>FUTEX_UNKNOWN\<close>.  Bits above the flags, which belong to the command, are ignored: an operation that has some is printed
  as if it had none.
\<close>

theorem futex_op_name_correct:
  "(and op (not 0x1ff) = 0 \<longrightarrow>
     (\<forall>n. (futex_op_name op = n \<and> n \<noteq> ''FUTEX_UNKNOWN'') \<longleftrightarrow> (n, and op FUTEX_CMD_MASK) \<in> set futex_h)) \<and>
   futex_op_name op = futex_op_name (and op 0x1ff)"
proof (intro conjI impI allI)
  fix n
  assume high: "and op (not 0x1ff) = 0"
  have mask: "FUTEX_CMD_MASK = or 0x7f (not 0x1ff)" by (simp add: futex_flag_defs)
  have "and op FUTEX_CMD_MASK = or (and op 0x7f) (and op (not 0x1ff))"
    unfolding mask by (rule bit_eqI) (simp only: bit_and_iff bit_or_iff conj_disj_distribL)
  with high have cmd: "and op FUTEX_CMD_MASK = and op 0x7f" by simp
  have ops: "futex_ops = map prod.swap futex_h" by code_simp
  have "(n, v) \<in> set futex_h \<longleftrightarrow> (v, n) \<in> set futex_ops" for v unfolding ops by simp
  then show "(futex_op_name op = n \<and> n \<noteq> ''FUTEX_UNKNOWN'') \<longleftrightarrow> (n, and op FUTEX_CMD_MASK) \<in> set futex_h"
    unfolding futex_op_name_def cmd using futex_switch.switch_result [of n] futex_switch.default_fresh by force
next
  show "futex_op_name op = futex_op_name (and op 0x1ff)" by (simp add: futex_op_name_def and.assoc)
qed

theorem futex_op_name_correct_witness:
  "futex_op_name (or 9 (or FUTEX_PRIVATE_FLAG FUTEX_CLOCK_REALTIME)) = ''FUTEX_WAIT_BITSET''"
  using futex_op_name_correct [of "or 9 (or FUTEX_PRIVATE_FLAG FUTEX_CLOCK_REALTIME)", THEN conjunct1, rule_format,
      of "''FUTEX_WAIT_BITSET''"]
  by (simp add: futex_flag_defs futex_h_def)

end
