(* ===== verification/C_Layout.thy ===== *)
theory C_Layout
  imports Prelude
begin

text \<open>
  How C lays a \<open>struct\<close> out in memory, and how fields are written to and read
  from such memory.  A layout is the list of the fields in source order, each with
  its size and alignment; padding is inserted before a field up to its alignment
  and after the last one up to the largest alignment.  The locale \<open>event_codec\<close>
  is the contract between the BPF side, which fills a reserved record field by
  field, and the user side, which reads it through a pointer to the same struct.
\<close>

type_synonym layout = "(string \<times> nat \<times> nat) list" \<comment> \<open>name, size, alignment\<close>

definition align_up :: "nat \<Rightarrow> nat \<Rightarrow> nat" where
  "align_up off al = (off + al - 1) div al * al"

fun place :: "nat \<Rightarrow> layout \<Rightarrow> (string \<times> nat \<times> nat) list" where
  "place off [] = []"
| "place off ((nm, sz, al) # fs) = (nm, align_up off al, sz) # place (align_up off al + sz) fs"

fun layout_end :: "nat \<Rightarrow> layout \<Rightarrow> nat" where
  "layout_end off [] = off"
| "layout_end off ((nm, sz, al) # fs) = layout_end (align_up off al + sz) fs"

definition layout_align :: "layout \<Rightarrow> nat" where
  "layout_align ly = fold max (map (\<lambda>(nm, sz, al). al) ly) 1"

definition size_of :: "layout \<Rightarrow> nat" where
  "size_of ly = align_up (layout_end 0 ly) (layout_align ly)"

definition offset_of :: "layout \<Rightarrow> string \<Rightarrow> nat" where
  "offset_of ly nm = (case map_of (place 0 ly) nm of None \<Rightarrow> 0 | Some (off, sz) \<Rightarrow> off)"

section \<open>Reading and writing fields\<close>

definition poke :: "nat \<Rightarrow> 'a list \<Rightarrow> 'a list \<Rightarrow> 'a list" where
  "poke off xs mem = take off mem @ xs @ drop (off + length xs) mem"

lemma length_poke [len_simps]: "off + length xs \<le> length mem \<Longrightarrow> length (poke off xs mem) = length mem"
  by (simp add: poke_def)

lemma chunk_poke_same:
  "off + length xs \<le> length mem \<Longrightarrow> length xs = n \<Longrightarrow> chunk off n (poke off xs mem) = xs"
  by (simp add: chunk_def poke_def)

lemma chunk_poke_before:
  "off + n \<le> off' \<Longrightarrow> off' \<le> length mem \<Longrightarrow> chunk off n (poke off' xs mem) = chunk off n mem"
  by (simp add: chunk_def poke_def min_def take_drop)

text \<open>
  A sequence of field stores, in source order.  The fields of a struct are disjoint and
  increasing, so each keeps the bytes written to it.
\<close>

definition store_fields :: "(nat \<times> 'a list) list \<Rightarrow> 'a list \<Rightarrow> 'a list" where
  "store_fields fs mem = fold (\<lambda>(off, xs). poke off xs) fs mem"

fun fields_ok :: "nat \<Rightarrow> (nat \<times> 'a list) list \<Rightarrow> nat \<Rightarrow> bool" where
  "fields_ok lo [] hi = (lo \<le> hi)"
| "fields_ok lo ((off, xs) # fs) hi = (lo \<le> off \<and> fields_ok (off + length xs) fs hi)"

lemma fields_ok_le: "fields_ok lo fs hi \<Longrightarrow> lo \<le> hi"
  by (induction lo fs hi rule: fields_ok.induct) auto

lemma fields_ok_off: "fields_ok lo fs hi \<Longrightarrow> (off, xs) \<in> set fs \<Longrightarrow> lo \<le> off"
  by (induction lo fs hi rule: fields_ok.induct) fastforce+

lemma store_fields_frame:
  assumes "fields_ok lo fs (length mem)" and "off + n \<le> lo"
  shows "chunk off n (store_fields fs mem) = chunk off n mem \<and> length (store_fields fs mem) = length mem"
  using assms
proof (induction fs arbitrary: lo mem)
  case Nil
  then show ?case by (simp add: store_fields_def)
next
  case (Cons f fs)
  obtain o' xs where f: "f = (o', xs)" by (cases f)
  with Cons.prems have ok: "lo \<le> o'" "fields_ok (o' + length xs) fs (length mem)" by auto
  then have len: "length (poke o' xs mem) = length mem" by (simp add: length_poke fields_ok_le)
  have "chunk off n (poke o' xs mem) = chunk off n mem"
    using ok Cons.prems(2) fields_ok_le [OF ok(2)] by (intro chunk_poke_before) auto
  moreover have "off + n \<le> o' + length xs" using ok Cons.prems(2) by simp
  ultimately show ?case
    using Cons.IH [of "o' + length xs" "poke o' xs mem"] ok len f by (simp add: store_fields_def)
qed

lemma length_store_fields: "fields_ok lo fs (length mem) \<Longrightarrow> length (store_fields fs mem) = length mem"
  using store_fields_frame [of lo fs mem 0 0] by simp

lemma load_field:
  assumes "fields_ok lo fs (length mem)" and "(off, xs) \<in> set fs"
  shows "chunk off (length xs) (store_fields fs mem) = xs"
  using assms
proof (induction fs arbitrary: lo mem)
  case Nil
  then show ?case by simp
next
  case (Cons f fs)
  obtain o' ys where f: "f = (o', ys)" by (cases f)
  with Cons.prems have ok: "fields_ok (o' + length ys) fs (length mem)" by auto
  then have len: "length (poke o' ys mem) = length mem" by (simp add: length_poke fields_ok_le)
  show ?case
  proof (cases "(off, xs) = f")
    case True
    then show ?thesis
      using store_fields_frame [of "o' + length ys" fs "poke o' ys mem" o' "length ys"] ok len f
        fields_ok_le [OF ok] by (simp add: store_fields_def chunk_poke_same)
  next
    case False
    then have "(off, xs) \<in> set fs" using Cons.prems(2) by auto
    then have "chunk off (length xs) (store_fields fs (poke o' ys mem)) = xs"
      using Cons.IH [of "o' + length ys" "poke o' ys mem"] ok len by simp
    then show ?thesis using f by (simp add: store_fields_def)
  qed
qed

lemma load_field_n:
  "fields_ok lo fs (length mem) \<Longrightarrow> (off, xs) \<in> set fs \<Longrightarrow> length xs = n \<Longrightarrow>
   chunk off n (store_fields fs mem) = xs"
  using load_field by blast

text \<open>Arrays of 64-bit words.\<close>

definition store_u64s :: "u64 list \<Rightarrow> bytes" where
  "store_u64s ws = concat (map (le_store 8) ws)"

fun load_u64s :: "nat \<Rightarrow> bytes \<Rightarrow> u64 list" where
  "load_u64s 0 bs = []"
| "load_u64s (Suc n) bs = le_word (take 8 bs) # load_u64s n (drop 8 bs)"

lemma length_store_u64s [len_simps]: "length (store_u64s ws) = 8 * length ws"
  by (induction ws) (auto simp: store_u64s_def)

lemma load_store_u64s [le_simps]: "length ws = n \<Longrightarrow> load_u64s n (store_u64s ws) = ws"
proof (induction ws arbitrary: n)
  case Nil
  then show ?case by (simp add: store_u64s_def)
next
  case (Cons w ws)
  then show ?case by (cases n) (auto simp: store_u64s_def le_simps)
qed

lemma length_load_u64s [len_simps]: "length (load_u64s n bs) = n"
  by (induction n arbitrary: bs) auto

section \<open>The contract of an event record\<close>

locale event_codec =
  fixes size :: nat
    and wf :: "'e \<Rightarrow> bool"
    and enc :: "'e \<Rightarrow> bytes \<Rightarrow> bytes" \<comment> \<open>fill the reserved memory\<close>
    and dec :: "bytes \<Rightarrow> 'e" \<comment> \<open>read through a struct pointer\<close>
  assumes enc_length: "wf e \<Longrightarrow> length mem = size \<Longrightarrow> length (enc e mem) = size"
    and dec_enc: "wf e \<Longrightarrow> length mem = size \<Longrightarrow> dec (enc e mem @ rest) = e"
begin

text \<open>Stale bytes of the reserved memory never reach the reader.\<close>

lemma dec_enc_garbage:
  assumes "wf e" and "length mem = size" and "length mem' = size"
  shows "dec (enc e mem) = dec (enc e mem')"
  using dec_enc [OF assms(1,2), of "[]"] dec_enc [OF assms(1,3), of "[]"] by simp

lemma enc_inj:
  assumes "wf e" and "wf e'" and "length mem = size" and "enc e mem = enc e' mem"
  shows "e = e'"
proof -
  have "dec (enc e mem @ []) = dec (enc e' mem @ [])" using assms(4) by simp
  then show ?thesis using dec_enc [OF assms(1,3)] dec_enc [OF assms(2,3)] by metis
qed

lemma dec_enc_batch:
  assumes "\<forall>e\<in>set es. wf e" and "length mem = size"
  shows "map (\<lambda>e. dec (enc e mem)) es = es"
  using assms dec_enc [where rest = "[]"] by (simp add: map_idI)

end

end
