(* ===== verification/Strace_Event.thy ===== *)
theory Strace_Event
  imports C_Layout
begin

text \<open>
  \<open>libbpfstrace.h\<close> and the \<open>enter_state\<close> of \<open>libbpfstrace.bpf.c\<close>: the record the
  BPF programs hand to user space, the state kept between \<open>sys_enter\<close> and
  \<open>sys_exit\<close>, their C layouts, and the way an event is written into ring-buffer
  memory and read back.  \<open>char\<close> arrays are lists of characters, \<open>unsigned char\<close>
  arrays lists of bytes; their fixed lengths are the well-formedness predicates.
\<close>

definition TASK_COMM_LEN :: nat where "TASK_COMM_LEN = 16"
definition SYSCALL_STR_LEN :: nat where "SYSCALL_STR_LEN = 256"

record syscall_event =
  ev_tgid :: i32
  ev_pid :: i32
  ev_syscall_id :: i32
  ev_ret :: i64
  ev_args :: "u64 list"
  ev_comm :: string
  ev_str :: string
  ev_str_len :: u32
  ev_sa_family :: u16
  ev_sa_port :: u16
  ev_sa_addr4 :: u32
  ev_sa_addr6 :: bytes
  ev_sa_scope_id :: u32
  ev_sa_valid :: u8

record enter_state =
  es_syscall_id :: i32
  es_args :: "u64 list"
  es_comm :: string
  es_str :: string
  es_str_len :: u32
  es_sa_family :: u16
  es_sa_port :: u16
  es_sa_addr4 :: u32
  es_sa_addr6 :: bytes
  es_sa_scope_id :: u32
  es_sa_valid :: u8

text \<open>\<open>struct enter_state s = {};\<close>\<close>

definition enter_state_zero :: enter_state where
  "enter_state_zero =
     \<lparr>es_syscall_id = 0, es_args = replicate 6 0, es_comm = replicate TASK_COMM_LEN NUL,
      es_str = replicate SYSCALL_STR_LEN NUL, es_str_len = 0, es_sa_family = 0, es_sa_port = 0,
      es_sa_addr4 = 0, es_sa_addr6 = replicate 16 0, es_sa_scope_id = 0, es_sa_valid = 0\<rparr>"

definition wf_event :: "syscall_event \<Rightarrow> bool" where
  "wf_event e \<longleftrightarrow> length (ev_args e) = 6 \<and> length (ev_comm e) = TASK_COMM_LEN \<and>
     length (ev_str e) = SYSCALL_STR_LEN \<and> length (ev_sa_addr6 e) = 16"

definition wf_enter :: "enter_state \<Rightarrow> bool" where
  "wf_enter s \<longleftrightarrow> length (es_args s) = 6 \<and> length (es_comm s) = TASK_COMM_LEN \<and>
     length (es_str s) = SYSCALL_STR_LEN \<and> length (es_sa_addr6 s) = 16"

section \<open>Layouts\<close>

definition syscall_event_layout :: layout where
  "syscall_event_layout =
     [(''tgid'', 4, 4), (''pid'', 4, 4), (''syscall_id'', 4, 4), (''ret'', 8, 8), (''args'', 48, 8),
      (''comm'', 16, 1), (''str'', 256, 1), (''str_len'', 4, 4), (''sa_family'', 2, 2),
      (''sa_port'', 2, 2), (''sa_addr4'', 4, 4), (''sa_addr6'', 16, 1), (''sa_scope_id'', 4, 4),
      (''sa_valid'', 1, 1)]"

definition enter_state_layout :: layout where
  "enter_state_layout =
     [(''syscall_id'', 4, 4), (''args'', 48, 8), (''comm'', 16, 1), (''str'', 256, 1),
      (''str_len'', 4, 4), (''sa_family'', 2, 2), (''sa_port'', 2, 2), (''sa_addr4'', 4, 4),
      (''sa_addr6'', 16, 1), (''sa_scope_id'', 4, 4), (''sa_valid'', 1, 1)]"

text \<open>Field stores into the memory \<open>bpf_ringbuf_reserve\<close> returned; padding keeps its old bytes.\<close>

abbreviation ev_off :: "string \<Rightarrow> nat" where
  "ev_off \<equiv> offset_of syscall_event_layout"

definition event_fields :: "syscall_event \<Rightarrow> (nat \<times> bytes) list" where
  "event_fields e =
     [(ev_off ''tgid'', le_store 4 (ev_tgid e)),
      (ev_off ''pid'', le_store 4 (ev_pid e)),
      (ev_off ''syscall_id'', le_store 4 (ev_syscall_id e)),
      (ev_off ''ret'', le_store 8 (ev_ret e)),
      (ev_off ''args'', store_u64s (ev_args e)),
      (ev_off ''comm'', map byte_of_char (ev_comm e)),
      (ev_off ''str'', map byte_of_char (ev_str e)),
      (ev_off ''str_len'', le_store 4 (ev_str_len e)),
      (ev_off ''sa_family'', le_store 2 (ev_sa_family e)),
      (ev_off ''sa_port'', le_store 2 (ev_sa_port e)),
      (ev_off ''sa_addr4'', le_store 4 (ev_sa_addr4 e)),
      (ev_off ''sa_addr6'', ev_sa_addr6 e),
      (ev_off ''sa_scope_id'', le_store 4 (ev_sa_scope_id e)),
      (ev_off ''sa_valid'', [ev_sa_valid e])]"

definition store_event :: "syscall_event \<Rightarrow> bytes \<Rightarrow> bytes" where
  "store_event e mem = store_fields (event_fields e) mem"

text \<open>\<open>const struct syscall_event *e = data;\<close> and the reads of its fields.\<close>

definition load_event :: "bytes \<Rightarrow> syscall_event" where
  "load_event mem =
     \<lparr>ev_tgid = le_word (chunk (ev_off ''tgid'') 4 mem),
      ev_pid = le_word (chunk (ev_off ''pid'') 4 mem),
      ev_syscall_id = le_word (chunk (ev_off ''syscall_id'') 4 mem),
      ev_ret = le_word (chunk (ev_off ''ret'') 8 mem),
      ev_args = load_u64s 6 (chunk (ev_off ''args'') 48 mem),
      ev_comm = map char_of_byte (chunk (ev_off ''comm'') 16 mem),
      ev_str = map char_of_byte (chunk (ev_off ''str'') 256 mem),
      ev_str_len = le_word (chunk (ev_off ''str_len'') 4 mem),
      ev_sa_family = le_word (chunk (ev_off ''sa_family'') 2 mem),
      ev_sa_port = le_word (chunk (ev_off ''sa_port'') 2 mem),
      ev_sa_addr4 = le_word (chunk (ev_off ''sa_addr4'') 4 mem),
      ev_sa_addr6 = chunk (ev_off ''sa_addr6'') 16 mem,
      ev_sa_scope_id = le_word (chunk (ev_off ''sa_scope_id'') 4 mem),
      ev_sa_valid = le_word (chunk (ev_off ''sa_valid'') 1 mem)\<rparr>"

section \<open>Offsets, sizes and the round trip\<close>

lemma event_offsets [simp]:
  "ev_off ''tgid'' = 0" "ev_off ''pid'' = 4" "ev_off ''syscall_id'' = 8" "ev_off ''ret'' = 16"
  "ev_off ''args'' = 24" "ev_off ''comm'' = 72" "ev_off ''str'' = 88" "ev_off ''str_len'' = 344"
  "ev_off ''sa_family'' = 348" "ev_off ''sa_port'' = 350" "ev_off ''sa_addr4'' = 352"
  "ev_off ''sa_addr6'' = 356" "ev_off ''sa_scope_id'' = 372" "ev_off ''sa_valid'' = 376"
  by (simp_all add: offset_of_def syscall_event_layout_def align_up_def)

lemma sizeof_event [simp]: "size_of syscall_event_layout = 384"
  by (simp add: size_of_def layout_align_def syscall_event_layout_def align_up_def)

lemma sizeof_enter_state [simp]: "size_of enter_state_layout = 368"
  by (simp add: size_of_def layout_align_def enter_state_layout_def align_up_def)

lemma le_word_u8 [le_simps]: "le_word [b] = (b :: u8)"
  by (simp add: le_word_def)

lemmas wf_event_lengths =
  wf_event_def TASK_COMM_LEN_def SYSCALL_STR_LEN_def

lemma event_fields_ok: "wf_event e \<Longrightarrow> length mem = 384 \<Longrightarrow> fields_ok 0 (event_fields e) (length mem)"
  by (simp add: event_fields_def wf_event_lengths len_simps)

lemma length_store_event:
  "wf_event e \<Longrightarrow> length mem = 384 \<Longrightarrow> length (store_event e mem) = 384"
  using length_store_fields [OF event_fields_ok] by (simp add: store_event_def)

lemma load_event_append:
  "length mem = 384 \<Longrightarrow> load_event (mem @ rest) = load_event mem"
  by (simp add: load_event_def chunk_append_left)

lemma load_event_fields:
  assumes "wf_event e" and "length mem = 384" and "(off, xs) \<in> set (event_fields e)" and "length xs = n"
  shows "chunk off n (store_event e mem) = xs"
  using load_field_n [OF event_fields_ok [OF assms(1,2)] assms(3,4)] by (simp add: store_event_def)

lemma chunk_store_event:
  assumes "wf_event e" and "length mem = 384"
  defines "m \<equiv> store_event e mem"
  shows "chunk 0 4 m = le_store 4 (ev_tgid e)" "chunk 4 4 m = le_store 4 (ev_pid e)"
    "chunk 8 4 m = le_store 4 (ev_syscall_id e)" "chunk 16 8 m = le_store 8 (ev_ret e)"
    "chunk 24 48 m = store_u64s (ev_args e)" "chunk 72 16 m = map byte_of_char (ev_comm e)"
    "chunk 88 256 m = map byte_of_char (ev_str e)" "chunk 344 4 m = le_store 4 (ev_str_len e)"
    "chunk 348 2 m = le_store 2 (ev_sa_family e)" "chunk 350 2 m = le_store 2 (ev_sa_port e)"
    "chunk 352 4 m = le_store 4 (ev_sa_addr4 e)" "chunk 356 16 m = ev_sa_addr6 e"
    "chunk 372 4 m = le_store 4 (ev_sa_scope_id e)" "chunk 376 1 m = [ev_sa_valid e]"
  unfolding m_def
  by (rule load_event_fields [OF assms(1,2)];
      use assms(1) in \<open>simp add: event_fields_def wf_event_lengths len_simps\<close>)+

lemma load_store_event:
  assumes "wf_event e" and "length mem = 384"
  shows "load_event (store_event e mem) = e"
  unfolding load_event_def event_offsets chunk_store_event [OF assms]
  using assms(1) by (simp add: wf_event_def le_simps del: map_map)

interpretation strace_codec: event_codec "size_of syscall_event_layout" wf_event store_event load_event
proof
  fix e and mem :: bytes
  assume "wf_event e" and "length mem = size_of syscall_event_layout"
  then show "length (store_event e mem) = size_of syscall_event_layout"
    by (simp add: length_store_event)
next
  fix e and mem rest :: bytes
  assume "wf_event e" and "length mem = size_of syscall_event_layout"
  then show "load_event (store_event e mem @ rest) = e"
    by (simp add: load_event_append length_store_event load_store_event)
qed

lemma wf_enter_zero [simp]: "wf_enter enter_state_zero"
  by (simp add: wf_enter_def enter_state_zero_def)

section \<open>Properties\<close>

text \<open>
  Event round trip.  Whatever the reserved ring-buffer memory held and whatever follows it, user space reads
  back exactly the event the BPF program stored; the record has 384 bytes on both sides, the memory keeps its size,
  and the snapshot kept on the BPF stack stays below the 512 bytes the kernel allows.
\<close>

theorem event_roundtrip:
  assumes "wf_event e" and "length mem = size_of syscall_event_layout"
  shows "load_event (store_event e mem @ rest) = e \<and> length (store_event e mem) = 384 \<and>
    size_of enter_state_layout \<le> 512"
  using strace_codec.dec_enc [OF assms] strace_codec.enc_length [OF assms] by simp

theorem event_roundtrip_witness:
  "let e = \<lparr>ev_tgid = -1, ev_pid = 7, ev_syscall_id = 56, ev_ret = -2, ev_args = [1, 2, 3, 4, 5, 6],
            ev_comm = replicate 16 (CHR ''a''), ev_str = replicate 256 (CHR ''b''), ev_str_len = 256, ev_sa_family = 2,
            ev_sa_port = 0x5000, ev_sa_addr4 = 0x0100007f, ev_sa_addr6 = replicate 16 255, ev_sa_scope_id = 1, ev_sa_valid = 1\<rparr>
   in load_event (store_event e (replicate 384 0xcc)) = e"
  unfolding Let_def
  by (rule event_roundtrip [where rest = "[]", THEN conjunct1, unfolded append_Nil2])
    (simp_all add: wf_event_def TASK_COMM_LEN_def SYSCALL_STR_LEN_def)

end
