(* ===== verification/Bpf_Env.thy ===== *)
theory Bpf_Env
  imports Prelude "HOL-Library.AList"
begin

text \<open>
  What a BPF program calls but this repository does not contain: the kernel's
  helpers.  They are parameters of the model.  \<open>map_ops\<close> are the operations of a
  BPF map, \<open>kenv\<close> what the other helpers answer during one run of a program.  The
  locales \<open>bpf_map\<close> and \<open>bpf_helpers\<close> state what their documentation
  (\<open>bpf_helper_defs.h\<close>) promises, and nothing else is used of them.  At the end
  a hash map with \<open>max_entries\<close> slots and a kernel over a given memory show that
  the contracts can be met.
\<close>

section \<open>Maps\<close>

text \<open>
  \<open>map_lookup_elem\<close> stands for the value behind the pointer the helper returns,
  \<open>map_store\<close> for a write through that pointer.
\<close>

record ('m, 'k, 'v) map_ops =
  map_lookup_elem :: "'m \<Rightarrow> 'k \<Rightarrow> 'v option"
  map_update_elem :: "'m \<Rightarrow> 'k \<Rightarrow> 'v \<Rightarrow> u64 \<Rightarrow> int \<times> 'm"
  map_delete_elem :: "'m \<Rightarrow> 'k \<Rightarrow> int \<times> 'm"
  map_store :: "'m \<Rightarrow> 'k \<Rightarrow> 'v \<Rightarrow> 'm"

text \<open>Flags of \<open>bpf_map_update_elem\<close> (\<open>linux/bpf.h\<close>).\<close>

definition BPF_ANY :: u64 where "BPF_ANY = 0"
definition BPF_NOEXIST :: u64 where "BPF_NOEXIST = 1"
definition BPF_EXIST :: u64 where "BPF_EXIST = 2"

text \<open>
  Deleting fails in a hash map only for a key that is not there, and then as well the key is not in the map afterwards.
\<close>

locale bpf_map =
  fixes ops :: "('m, 'k, 'v) map_ops"
  assumes update_ok: "map_update_elem ops m k v fl = (0, m') \<Longrightarrow>
      map_lookup_elem ops m' = (map_lookup_elem ops m)(k \<mapsto> v)"
    and update_fail: "map_update_elem ops m k v fl = (r, m') \<Longrightarrow> r \<noteq> 0 \<Longrightarrow>
      map_lookup_elem ops m' = map_lookup_elem ops m"
    and update_noexist: "map_lookup_elem ops m k = Some w \<Longrightarrow>
      fst (map_update_elem ops m k v BPF_NOEXIST) \<noteq> 0"
    and delete: "map_lookup_elem ops (snd (map_delete_elem ops m k)) = (map_lookup_elem ops m)(k := None)"
    and store: "map_lookup_elem ops m k = Some w \<Longrightarrow>
      map_lookup_elem ops (map_store ops m k v) = (map_lookup_elem ops m)(k \<mapsto> v)"
begin

lemma lookup_after_update:
  "map_lookup_elem ops (snd (map_update_elem ops m k v fl)) =
     (if fst (map_update_elem ops m k v fl) = 0 then (map_lookup_elem ops m)(k \<mapsto> v)
      else map_lookup_elem ops m)"
  using update_ok [of m k v fl] update_fail [of m k v fl]
  by (cases "map_update_elem ops m k v fl") auto

text \<open>Insert a fresh key, work on it, delete it: the map is as before.\<close>

lemma scratch_entry:
  assumes "map_update_elem ops m k v BPF_NOEXIST = (0, m1)"
  shows "map_lookup_elem ops (snd (map_delete_elem ops (map_store ops m1 k w) k)) = map_lookup_elem ops m"
proof -
  have none: "map_lookup_elem ops m k = None"
    using update_noexist [of m k _ v] assms by (cases "map_lookup_elem ops m k") auto
  have "map_lookup_elem ops m1 = (map_lookup_elem ops m)(k \<mapsto> v)" using update_ok [OF assms] .
  then have "map_lookup_elem ops (map_store ops m1 k w) = (map_lookup_elem ops m)(k \<mapsto> w)"
    using store [of m1 k v w] by simp
  then show ?thesis using none by (simp add: delete fun_upd_idem)
qed

end

section \<open>Other helpers\<close>

text \<open>
  Each buffer helper takes the size asked for, the old contents of the buffer and an
  address, and gives its result and the new contents.  \<open>k_stack n\<close> is what an
  uninitialised stack object of \<open>n\<close> bytes holds.
\<close>

record kenv =
  k_pid_tgid :: u64
  k_uid_gid :: u64
  k_comm :: "nat \<Rightarrow> string \<Rightarrow> int \<times> string"
  k_read_user :: "nat \<Rightarrow> bytes \<Rightarrow> u64 \<Rightarrow> int \<times> bytes"
  k_read_kernel :: "nat \<Rightarrow> bytes \<Rightarrow> u64 \<Rightarrow> int \<times> bytes"
  k_read_user_str :: "nat \<Rightarrow> string \<Rightarrow> u64 \<Rightarrow> int \<times> string"
  k_stack :: "nat \<Rightarrow> bytes"

definition mem_bytes :: "(u64 \<Rightarrow> u8) \<Rightarrow> u64 \<Rightarrow> nat \<Rightarrow> bytes" where
  "mem_bytes mem p n = map (\<lambda>i. mem (p + of_nat i)) [0..<n]"

definition mem_chars :: "(u64 \<Rightarrow> u8) \<Rightarrow> u64 \<Rightarrow> nat \<Rightarrow> string" where
  "mem_chars mem p n = map char_of_byte (mem_bytes mem p n)"

lemma length_mem_bytes [simp]: "length (mem_bytes mem p n) = n"
  by (simp add: mem_bytes_def)

lemma length_mem_chars [simp]: "length (mem_chars mem p n) = n"
  by (simp add: mem_chars_def)

lemma c_str_prefix:
  assumes "NUL \<notin> set (mem_chars mem p k)" and "k \<le> n"
    and "k < n \<Longrightarrow> char_of_byte (mem (p + of_nat k)) = NUL"
  shows "c_str (mem_chars mem p n) = mem_chars mem p k"
proof (cases "k = n")
  case True
  with assms(1) show ?thesis by (simp add: c_str_id)
next
  case False
  with assms(2) have "k < n" by simp
  then have "[0..<n] = [0..<k] @ k # [Suc k..<n]"
    using upt_add_eq_append [of 0 k "n - k"] by (simp add: upt_conv_Cons)
  then have "mem_chars mem p n = mem_chars mem p k @ NUL # map (\<lambda>i. char_of_byte (mem (p + of_nat i))) [Suc k..<n]"
    using assms(3) [OF \<open>k < n\<close>] by (simp add: mem_chars_def mem_bytes_def)
  with assms(1) show ?thesis by (simp add: c_str_append_nul)
qed

locale bpf_helpers =
  fixes env :: kenv
    and umem kmem :: "u64 \<Rightarrow> u8" \<comment> \<open>user and kernel memory\<close>
  assumes stack_length: "length (k_stack env n) = n"
    and comm_length: "n \<le> length sb \<Longrightarrow> length (snd (k_comm env n sb)) = length sb"
    and comm_ok: "0 < n \<Longrightarrow> n \<le> length sb \<Longrightarrow> nul_terminated (take n (snd (k_comm env n sb)))"
    and user_length: "n \<le> length buf \<Longrightarrow> length (snd (k_read_user env n buf p)) = length buf"
    and user_ok: "n \<le> length buf \<Longrightarrow> fst (k_read_user env n buf p) = 0 \<Longrightarrow>
      snd (k_read_user env n buf p) = overwrite buf (mem_bytes umem p n)"
    and user_result: "fst (k_read_user env n buf p) \<le> 0"
    and kernel_length: "n \<le> length buf \<Longrightarrow> length (snd (k_read_kernel env n buf p)) = length buf"
    and kernel_ok: "n \<le> length buf \<Longrightarrow> fst (k_read_kernel env n buf p) = 0 \<Longrightarrow>
      snd (k_read_kernel env n buf p) = overwrite buf (mem_bytes kmem p n)"
    and kernel_result: "fst (k_read_kernel env n buf p) \<le> 0"
    and str_length: "n \<le> length sb \<Longrightarrow> length (snd (k_read_user_str env n sb p)) = length sb"
    and str_result: "n \<le> length sb \<Longrightarrow> k_read_user_str env n sb p = (r, sb') \<Longrightarrow> 0 \<le> r \<Longrightarrow>
      0 < r \<and> nat r \<le> n \<and> sb' = overwrite sb (mem_chars umem p (nat r - 1) @ [NUL]) \<and>
      NUL \<notin> set (mem_chars umem p (nat r - 1)) \<and>
      (nat r < n \<longrightarrow> char_of_byte (umem (p + of_nat (nat r - 1))) = NUL)"
begin

text \<open>A string that was read is terminated inside its buffer, and its text is the user's text.\<close>

lemma str_text:
  assumes "n \<le> length buf" and "k_read_user_str env n buf p = (r, buf')" and "0 \<le> r"
  shows "c_str buf' = mem_chars umem p (nat r - 1)" and "nul_terminated (take n buf')"
    and "nul_terminated buf'"
proof -
  let ?s = "mem_chars umem p (nat r - 1)"
  from str_result [OF assms] have r: "0 < r" "nat r \<le> n" and b: "buf' = overwrite buf (?s @ [NUL])"
    and s: "NUL \<notin> set ?s" by simp_all
  from b have b2: "buf' = ?s @ NUL # drop (length (?s @ [NUL])) buf"
    by (simp only: overwrite_def append.assoc append.simps)
  show "c_str buf' = ?s" unfolding b2 using s by (rule c_str_append_nul)
  have "NUL \<in> set (take n buf')"
    unfolding b2 using r by (intro nul_in_take) auto
  then show "nul_terminated (take n buf')" by (simp add: nul_terminated_def)
  then show "nul_terminated buf'"
    unfolding nul_terminated_def by (rule in_set_takeD)
qed

lemma read_user_str_text:
  assumes "0 < n" and "n \<le> length sb" and "0 \<le> fst (k_read_user_str env n sb p)"
  shows "c_str (snd (k_read_user_str env n sb p)) = c_str (mem_chars umem p (n - 1))"
    and "nat (fst (k_read_user_str env n sb p)) = length (c_str (mem_chars umem p (n - 1))) + 1"
proof -
  obtain r sb' where rd: "k_read_user_str env n sb p = (r, sb')" by (cases "k_read_user_str env n sb p")
  with assms(3) have r: "0 \<le> r" by simp
  have same: "c_str (mem_chars umem p (n - 1)) = mem_chars umem p (nat r - 1)"
    using str_result [OF assms(2) rd r] by (intro c_str_prefix) auto
  show "c_str (snd (k_read_user_str env n sb p)) = c_str (mem_chars umem p (n - 1))"
    using str_text(1) [OF assms(2) rd r] same rd by simp
  show "nat (fst (k_read_user_str env n sb p)) = length (c_str (mem_chars umem p (n - 1))) + 1"
    using str_result [OF assms(2) rd r] same rd by simp
qed

lemma str_not_zero: "n \<le> length buf \<Longrightarrow> fst (k_read_user_str env n buf p) \<noteq> 0"
  using str_result [of n buf p] by (cases "k_read_user_str env n buf p") force

end

section \<open>Instances\<close>

text \<open>A hash map that holds at most \<open>n\<close> entries.\<close>

definition hash_ops :: "nat \<Rightarrow> (('k \<times> 'v) list, 'k, 'v) map_ops" where
  "hash_ops n = \<lparr>
     map_lookup_elem = map_of,
     map_update_elem = (\<lambda>m k v fl.
       if fl = BPF_NOEXIST \<and> map_of m k \<noteq> None then (-17, m)
       else if fl = BPF_EXIST \<and> map_of m k = None then (-2, m)
       else if map_of m k = None \<and> n \<le> length m then (-7, m)
       else (0, AList.update k v m)),
     map_delete_elem = (\<lambda>m k. if map_of m k = None then (-2, m) else (0, AList.delete k m)),
     map_store = (\<lambda>m k v. AList.update k v m)\<rparr>"

interpretation hash_map: bpf_map "hash_ops n"
proof
  show "map_lookup_elem (hash_ops n) m' = (map_lookup_elem (hash_ops n) m)(k \<mapsto> v)"
    if "map_update_elem (hash_ops n) m k v fl = (0, m')" for m m' :: "('a \<times> 'b) list" and k v fl
    using that by (auto simp: hash_ops_def AList.update_conv' split: if_splits)
  show "map_lookup_elem (hash_ops n) m' = map_lookup_elem (hash_ops n) m"
    if "map_update_elem (hash_ops n) m k v fl = (r, m')" and "r \<noteq> 0"
    for m m' :: "('a \<times> 'b) list" and k v fl r
    using that by (auto simp: hash_ops_def split: if_splits)
qed (auto simp: hash_ops_def AList.update_conv' AList.delete_conv' fun_eq_iff)

text \<open>
  A kernel over given memories in which the addresses \<open>ok\<close> can be read; a failing
  read leaves the buffer as it was.
\<close>

definition ref_kenv :: "(u64 \<Rightarrow> bool) \<Rightarrow> u64 \<Rightarrow> u64 \<Rightarrow> string \<Rightarrow> (u64 \<Rightarrow> u8) \<Rightarrow> (u64 \<Rightarrow> u8) \<Rightarrow> kenv" where
  "ref_kenv ok pt uid comm umem kmem = \<lparr>
     k_pid_tgid = pt,
     k_uid_gid = uid,
     k_comm = (\<lambda>n buf. (0, overwrite buf (take (n - 1) (c_str comm) @ (if n = 0 then [] else [NUL])))),
     k_read_user = (\<lambda>n buf p. if \<not> ok p then (-14, buf) else (0, overwrite buf (mem_bytes umem p n))),
     k_read_kernel = (\<lambda>n buf p. if \<not> ok p then (-14, buf) else (0, overwrite buf (mem_bytes kmem p n))),
     k_read_user_str = (\<lambda>n buf p.
       if \<not> ok p \<or> n = 0 then (-14, buf)
       else let s = c_str (mem_chars umem p (n - 1))
            in (int (length s) + 1, overwrite buf (s @ [NUL]))),
     k_stack = (\<lambda>n. replicate n 0)\<rparr>"

lemma c_str_mem_chars_prefix:
  "c_str (mem_chars mem p n) = mem_chars mem p (length (c_str (mem_chars mem p n)))"
proof -
  let ?k = "length (c_str (mem_chars mem p n))"
  have k: "?k \<le> n" using length_c_str_le [of "mem_chars mem p n"] by simp
  have "c_str (mem_chars mem p n) = take ?k (mem_chars mem p n)"
    unfolding c_str_def by (metis takeWhile_eq_take)
  also have "\<dots> = mem_chars mem p ?k"
    using k by (simp add: mem_chars_def mem_bytes_def take_map)
  finally show ?thesis .
qed

lemma nth_length_c_str:
  assumes "length (c_str s) < length s" shows "s ! length (c_str s) = NUL"
  using nth_length_takeWhile [of "\<lambda>c. c \<noteq> NUL" s] assms by (simp add: c_str_def)

lemma ref_str_result:
  assumes "n \<le> length buf" and "k_read_user_str (ref_kenv ok pt uid comm umem kmem) n buf p = (r, buf')"
    and "0 \<le> r"
  shows "0 < r \<and> nat r \<le> n \<and> buf' = overwrite buf (mem_chars umem p (nat r - 1) @ [NUL]) \<and>
      NUL \<notin> set (mem_chars umem p (nat r - 1)) \<and>
      (nat r < n \<longrightarrow> char_of_byte (umem (p + of_nat (nat r - 1))) = NUL)"
proof -
  let ?s = "c_str (mem_chars umem p (n - 1))"
  have n: "0 < n" and r: "r = int (length ?s) + 1" and b: "buf' = overwrite buf (?s @ [NUL])"
    using assms(2,3) by (auto simp: ref_kenv_def Let_def split: if_splits)
  have "mem_chars umem p (n - 1) ! length ?s = NUL" if "length ?s < n - 1"
    using nth_length_c_str [of "mem_chars umem p (n - 1)"] that by simp
  moreover have "length ?s \<le> n - 1" using length_c_str_le [of "mem_chars umem p (n - 1)"] by simp
  moreover have "mem_chars umem p (nat r - 1) = ?s"
  proof -
    have "nat r - 1 = length ?s" using r by simp
    then show ?thesis using c_str_mem_chars_prefix [of umem p "n - 1"] by simp
  qed
  ultimately show ?thesis
    using n r b c_str_no_nul [of "mem_chars umem p (n - 1)"]
    by (auto simp: mem_chars_def mem_bytes_def)
qed

interpretation ref_kenv: bpf_helpers "ref_kenv ok pt uid comm umem kmem" umem kmem
proof
  show "nul_terminated (take n (snd (k_comm (ref_kenv ok pt uid comm umem kmem) n buf)))"
    if "0 < n" and "n \<le> length buf" for n and buf :: string
    using that nul_in_take [of "take (n - 1) (c_str comm)" n]
    by (auto simp: ref_kenv_def overwrite_def nul_terminated_def min_def)
  show "length (snd (k_read_user_str (ref_kenv ok pt uid comm umem kmem) n sb p)) = length sb"
    if "n \<le> length sb" for n p and sb :: string
  proof -
    have "length (c_str (mem_chars umem p (n - 1))) \<le> n - 1"
      using length_c_str_le [of "mem_chars umem p (n - 1)"] by simp
    then show ?thesis using that by (auto simp: ref_kenv_def Let_def overwrite_def)
  qed
  show "0 < r \<and> nat r \<le> n \<and> sb' = overwrite sb (mem_chars umem p (nat r - 1) @ [NUL]) \<and>
      NUL \<notin> set (mem_chars umem p (nat r - 1)) \<and>
      (nat r < n \<longrightarrow> char_of_byte (umem (p + of_nat (nat r - 1))) = NUL)"
    if "n \<le> length sb" and "k_read_user_str (ref_kenv ok pt uid comm umem kmem) n sb p = (r, sb')"
      and "0 \<le> r" for n p r and sb sb' :: string
    using that by (rule ref_str_result)
qed (auto simp: ref_kenv_def overwrite_def min_def)

end
