(* ===== verification/Core_Read.thy ===== *)
theory Core_Read
  imports Bpf_Env
begin

unbundle bit_operations_syntax

text \<open>
  \<open>bpf_core_read.h\<close>: the relocation queries, bitfield extraction, and the
  variadic macros that follow a chain of pointers with one probe read per arrow.
  A field accessor is its (relocated) byte offset; what the relocations of a field
  evaluate to is the record \<open>field_info\<close>, a parameter filled in by libbpf.
\<close>

section \<open>Relocation kinds\<close>

datatype bpf_field_info_kind =
  BPF_FIELD_BYTE_OFFSET | BPF_FIELD_BYTE_SIZE | BPF_FIELD_EXISTS
| BPF_FIELD_SIGNED | BPF_FIELD_LSHIFT_U64 | BPF_FIELD_RSHIFT_U64

fun field_info_kind_value :: "bpf_field_info_kind \<Rightarrow> u32" where
  "field_info_kind_value BPF_FIELD_BYTE_OFFSET = 0"
| "field_info_kind_value BPF_FIELD_BYTE_SIZE = 1"
| "field_info_kind_value BPF_FIELD_EXISTS = 2"
| "field_info_kind_value BPF_FIELD_SIGNED = 3"
| "field_info_kind_value BPF_FIELD_LSHIFT_U64 = 4"
| "field_info_kind_value BPF_FIELD_RSHIFT_U64 = 5"

text \<open>\<open>__builtin_preserve_field_info\<close>: what libbpf resolved for one field.\<close>

type_synonym field_info = "bpf_field_info_kind \<Rightarrow> u32"

definition CORE_RELO :: "field_info \<Rightarrow> bpf_field_info_kind \<Rightarrow> nat" where
  "CORE_RELO fi k = unat (fi k)"

definition bpf_core_field_exists :: "field_info \<Rightarrow> u32" where
  "bpf_core_field_exists fi = fi BPF_FIELD_EXISTS"

definition bpf_core_field_size :: "field_info \<Rightarrow> u32" where
  "bpf_core_field_size fi = fi BPF_FIELD_BYTE_SIZE"

definition bpf_core_field_offset :: "field_info \<Rightarrow> u32" where
  "bpf_core_field_offset fi = fi BPF_FIELD_BYTE_OFFSET"

text \<open>Types and enumerators: the compiler's other built-ins, resolved by libbpf for one type or one enumerator.\<close>

datatype bpf_type_id_kind = BPF_TYPE_ID_LOCAL | BPF_TYPE_ID_TARGET
datatype bpf_type_info_kind = BPF_TYPE_EXISTS | BPF_TYPE_SIZE | BPF_TYPE_MATCHES
datatype bpf_enum_value_kind = BPF_ENUMVAL_EXISTS | BPF_ENUMVAL_VALUE

type_synonym type_id = "bpf_type_id_kind \<Rightarrow> u32"
type_synonym type_info = "bpf_type_info_kind \<Rightarrow> u32"
type_synonym enum_info = "bpf_enum_value_kind \<Rightarrow> u64"

definition bpf_core_type_id_local :: "type_id \<Rightarrow> u32" where "bpf_core_type_id_local t = t BPF_TYPE_ID_LOCAL"
definition bpf_core_type_id_kernel :: "type_id \<Rightarrow> u32" where "bpf_core_type_id_kernel t = t BPF_TYPE_ID_TARGET"
definition bpf_core_type_exists :: "type_info \<Rightarrow> u32" where "bpf_core_type_exists t = t BPF_TYPE_EXISTS"
definition bpf_core_type_matches :: "type_info \<Rightarrow> u32" where "bpf_core_type_matches t = t BPF_TYPE_MATCHES"
definition bpf_core_type_size :: "type_info \<Rightarrow> u32" where "bpf_core_type_size t = t BPF_TYPE_SIZE"
definition bpf_core_enum_value_exists :: "enum_info \<Rightarrow> u64" where "bpf_core_enum_value_exists e = e BPF_ENUMVAL_EXISTS"
definition bpf_core_enum_value :: "enum_info \<Rightarrow> u64" where "bpf_core_enum_value e = e BPF_ENUMVAL_VALUE"

section \<open>Bitfields\<close>

definition bitfield_shift :: "field_info \<Rightarrow> u64 \<Rightarrow> u64" where
  "bitfield_shift fi v =
     (let v = push_bit (CORE_RELO fi BPF_FIELD_LSHIFT_U64) v
      in if CORE_RELO fi BPF_FIELD_SIGNED \<noteq> 0
         then signed_drop_bit (CORE_RELO fi BPF_FIELD_RSHIFT_U64) v
         else drop_bit (CORE_RELO fi BPF_FIELD_RSHIFT_U64) v)"

definition CORE_BITFIELD_PROBE_READ :: "kenv \<Rightarrow> field_info \<Rightarrow> u64 \<Rightarrow> u64 \<Rightarrow> u64" where
  "CORE_BITFIELD_PROBE_READ env fi v s =
     le_word (snd (k_read_kernel env (CORE_RELO fi BPF_FIELD_BYTE_SIZE) (le_store 8 v)
       (s + ucast (fi BPF_FIELD_BYTE_OFFSET))))"

definition BPF_CORE_READ_BITFIELD_PROBED :: "kenv \<Rightarrow> field_info \<Rightarrow> u64 \<Rightarrow> u64" where
  "BPF_CORE_READ_BITFIELD_PROBED env fi s = bitfield_shift fi (CORE_BITFIELD_PROBE_READ env fi 0 s)"

text \<open>The direct variant; for another byte size \<open>val\<close> stays uninitialised.\<close>

definition BPF_CORE_READ_BITFIELD :: "kenv \<Rightarrow> (u64 \<Rightarrow> u8) \<Rightarrow> field_info \<Rightarrow> u64 \<Rightarrow> u64" where
  "BPF_CORE_READ_BITFIELD env kmem fi s =
     (let p = s + ucast (fi BPF_FIELD_BYTE_OFFSET);
          sz = CORE_RELO fi BPF_FIELD_BYTE_SIZE;
          val = (if sz = 1 then le_word (mem_bytes kmem p 1)
                 else if sz = 2 then le_word (mem_bytes kmem p 2)
                 else if sz = 4 then le_word (mem_bytes kmem p 4)
                 else if sz = 8 then le_word (mem_bytes kmem p 8)
                 else le_word (k_stack env 8))
      in bitfield_shift fi val)"

section \<open>Pointer chains\<close>

type_synonym 'b reader = "'b \<Rightarrow> u64 \<Rightarrow> int \<times> 'b" \<comment> \<open>old buffer, address\<close>

text \<open>\<open>___read\<close>, \<open>___rd_first\<close>, \<open>___rd_last\<close>: results of the reads are ignored, as in the macros.\<close>

definition rd_first :: "bytes reader \<Rightarrow> bytes \<Rightarrow> u64 \<Rightarrow> u64 \<Rightarrow> u64" where
  "rd_first fn undef src a = le_word (snd (fn undef (src + a)))"

definition rd_last :: "bytes reader \<Rightarrow> u64 \<Rightarrow> u64 \<Rightarrow> u64" where
  "rd_last fn t a = le_word (snd (fn (le_store 8 t) (t + a)))"

text \<open>\<open>___read_ptrs\<close>: \<open>___rd_p1\<close> reads the first accessor, \<open>___rd_p(n+1)\<close> one more.\<close>

fun read_ptrs :: "bytes reader \<Rightarrow> bytes \<Rightarrow> u64 \<Rightarrow> u64 list \<Rightarrow> u64" where
  "read_ptrs fn undef src [] = src"
| "read_ptrs fn undef src (a # as) = foldl (rd_last fn) (rd_first fn undef src a) as"

text \<open>\<open>___core_read\<close>: \<open>___core_read0\<close> for one accessor, \<open>___core_readN\<close> for more.\<close>

fun core_read :: "'b reader \<Rightarrow> bytes reader \<Rightarrow> bytes \<Rightarrow> 'b \<Rightarrow> u64 \<Rightarrow> u64 \<Rightarrow> u64 list \<Rightarrow> int \<times> 'b" where
  "core_read fn fn_ptr undef dst src a [] = fn dst (src + a)"
| "core_read fn fn_ptr undef dst src a (b # as) =
     fn dst (read_ptrs fn_ptr undef src (butlast (a # b # as)) + last (b # as))"

text \<open>\<open>bpf_core_read\<close> and its relatives name the helper; accessors are already relocated.\<close>

definition bpf_core_read :: "kenv \<Rightarrow> nat \<Rightarrow> bytes reader" where
  "bpf_core_read env sz dst src = k_read_kernel env sz dst src"

definition bpf_core_read_user :: "kenv \<Rightarrow> nat \<Rightarrow> bytes reader" where
  "bpf_core_read_user env sz dst src = k_read_user env sz dst src"

definition bpf_core_read_user_str :: "kenv \<Rightarrow> nat \<Rightarrow> string reader" where
  "bpf_core_read_user_str env sz dst src = k_read_user_str env sz dst src"

definition BPF_CORE_READ_INTO :: "kenv \<Rightarrow> bytes \<Rightarrow> u64 \<Rightarrow> u64 \<Rightarrow> u64 list \<Rightarrow> int \<times> bytes" where
  "BPF_CORE_READ_INTO env dst src a as =
     core_read (bpf_core_read env (length dst)) (bpf_core_read env 8) (k_stack env 8) dst src a as"

definition BPF_CORE_READ_USER_INTO :: "kenv \<Rightarrow> bytes \<Rightarrow> u64 \<Rightarrow> u64 \<Rightarrow> u64 list \<Rightarrow> int \<times> bytes" where
  "BPF_CORE_READ_USER_INTO env dst src a as =
     core_read (bpf_core_read_user env (length dst)) (bpf_core_read_user env 8) (k_stack env 8) dst src a as"

definition BPF_CORE_READ_USER_STR_INTO :: "kenv \<Rightarrow> string \<Rightarrow> u64 \<Rightarrow> u64 \<Rightarrow> u64 list \<Rightarrow> int \<times> string" where
  "BPF_CORE_READ_USER_STR_INTO env dst src a as =
     core_read (bpf_core_read_user_str env (length dst)) (bpf_core_read_user env 8) (k_stack env 8) dst src a as"

definition BPF_CORE_READ :: "kenv \<Rightarrow> nat \<Rightarrow> u64 \<Rightarrow> u64 \<Rightarrow> u64 list \<Rightarrow> bytes" where
  "BPF_CORE_READ env sz src a as = snd (BPF_CORE_READ_INTO env (k_stack env sz) src a as)"

definition BPF_CORE_READ_USER :: "kenv \<Rightarrow> nat \<Rightarrow> u64 \<Rightarrow> u64 \<Rightarrow> u64 list \<Rightarrow> bytes" where
  "BPF_CORE_READ_USER env sz src a as = snd (BPF_CORE_READ_USER_INTO env (k_stack env sz) src a as)"

text \<open>
  Strings of kernel memory, and the variants without relocation, which name the probe helpers directly.  The helpers no
  tool uses (\<open>bpf_probe_read_kernel_str\<close>, \<open>bpf_probe_read\<close>, \<open>bpf_probe_read_str\<close>) are arguments here.
\<close>

definition bpf_core_read_str :: "(nat \<Rightarrow> string reader) \<Rightarrow> nat \<Rightarrow> string reader" where
  "bpf_core_read_str kernel_str sz dst src = kernel_str sz dst src"

definition BPF_CORE_READ_STR_INTO ::
    "(nat \<Rightarrow> string reader) \<Rightarrow> kenv \<Rightarrow> string \<Rightarrow> u64 \<Rightarrow> u64 \<Rightarrow> u64 list \<Rightarrow> int \<times> string" where
  "BPF_CORE_READ_STR_INTO kernel_str env dst src a as =
     core_read (bpf_core_read_str kernel_str (length dst)) (bpf_core_read env 8) (k_stack env 8) dst src a as"

definition BPF_PROBE_READ_INTO ::
    "(nat \<Rightarrow> bytes reader) \<Rightarrow> kenv \<Rightarrow> bytes \<Rightarrow> u64 \<Rightarrow> u64 \<Rightarrow> u64 list \<Rightarrow> int \<times> bytes" where
  "BPF_PROBE_READ_INTO probe_read env dst src a as =
     core_read (probe_read (length dst)) (probe_read 8) (k_stack env 8) dst src a as"

definition BPF_PROBE_READ_USER_INTO :: "kenv \<Rightarrow> bytes \<Rightarrow> u64 \<Rightarrow> u64 \<Rightarrow> u64 list \<Rightarrow> int \<times> bytes" where
  "BPF_PROBE_READ_USER_INTO env dst src a as =
     core_read (k_read_user env (length dst)) (k_read_user env 8) (k_stack env 8) dst src a as"

definition BPF_PROBE_READ_STR_INTO ::
    "(nat \<Rightarrow> string reader) \<Rightarrow> (nat \<Rightarrow> bytes reader) \<Rightarrow> kenv \<Rightarrow> string \<Rightarrow> u64 \<Rightarrow> u64 \<Rightarrow> u64 list \<Rightarrow> int \<times> string" where
  "BPF_PROBE_READ_STR_INTO probe_read_str probe_read env dst src a as =
     core_read (probe_read_str (length dst)) (probe_read 8) (k_stack env 8) dst src a as"

definition BPF_PROBE_READ_USER_STR_INTO :: "kenv \<Rightarrow> string \<Rightarrow> u64 \<Rightarrow> u64 \<Rightarrow> u64 list \<Rightarrow> int \<times> string" where
  "BPF_PROBE_READ_USER_STR_INTO env dst src a as =
     core_read (k_read_user_str env (length dst)) (k_read_user env 8) (k_stack env 8) dst src a as"

definition BPF_PROBE_READ :: "(nat \<Rightarrow> bytes reader) \<Rightarrow> kenv \<Rightarrow> nat \<Rightarrow> u64 \<Rightarrow> u64 \<Rightarrow> u64 list \<Rightarrow> bytes" where
  "BPF_PROBE_READ probe_read env sz src a as = snd (BPF_PROBE_READ_INTO probe_read env (k_stack env sz) src a as)"

definition BPF_PROBE_READ_USER :: "kenv \<Rightarrow> nat \<Rightarrow> u64 \<Rightarrow> u64 \<Rightarrow> u64 list \<Rightarrow> bytes" where
  "BPF_PROBE_READ_USER env sz src a as = snd (BPF_PROBE_READ_USER_INTO env (k_stack env sz) src a as)"

section \<open>Bitfield extraction selects the described bits\<close>

text \<open>
  A field of \<open>n\<close> bits whose lowest bit is bit \<open>b\<close> of the loaded word has
  \<open>LSHIFT_U64 = 64 - b - n\<close> and \<open>RSHIFT_U64 = 64 - n\<close>.
\<close>

definition describes_bits :: "field_info \<Rightarrow> nat \<Rightarrow> nat \<Rightarrow> bool" where
  "describes_bits fi b n \<longleftrightarrow> 0 < n \<and> b + n \<le> 64 \<and>
     CORE_RELO fi BPF_FIELD_LSHIFT_U64 = 64 - b - n \<and> CORE_RELO fi BPF_FIELD_RSHIFT_U64 = 64 - n"

lemma bitfield_unsigned:
  assumes "describes_bits fi b n" and "CORE_RELO fi BPF_FIELD_SIGNED = 0"
  shows "bitfield_shift fi v = take_bit n (drop_bit b v)"
proof (rule bit_eqI)
  fix i
  assume "possible_bit TYPE(u64) i"
  then have "i < 64" by simp
  with assms show "bit (bitfield_shift fi v) i = bit (take_bit n (drop_bit b v)) i"
    by (auto simp: describes_bits_def bitfield_shift_def Let_def bit_simps ac_simps)
qed

lemma bitfield_signed:
  assumes "describes_bits fi b n" and "CORE_RELO fi BPF_FIELD_SIGNED \<noteq> 0"
  shows "bitfield_shift fi v = signed_take_bit (n - 1) (drop_bit b v)"
proof (rule bit_eqI)
  fix i
  assume "possible_bit TYPE(u64) i"
  then have i: "i < 64" by simp
  have n: "0 < n" "b + n \<le> 64" using assms(1) by (auto simp: describes_bits_def)
  show "bit (bitfield_shift fi v) i = bit (signed_take_bit (n - 1) (drop_bit b v)) i"
  proof (cases "i < n")
    case True
    with n have "64 - n + i - (64 - b - n) = b + i" and "min i (n - 1) = i" by linarith+
    with True assms n i show ?thesis
      by (auto simp: describes_bits_def bitfield_shift_def Let_def bit_signed_drop_bit_iff
          bit_signed_take_bit_iff bit_push_bit_iff bit_drop_bit_eq ac_simps)
  next
    case False
    with assms n i show ?thesis
      by (auto simp: describes_bits_def bitfield_shift_def Let_def bit_signed_drop_bit_iff
          bit_signed_take_bit_iff bit_push_bit_iff bit_drop_bit_eq min_def ac_simps)
  qed
qed

section \<open>A successful chain is the chain of loads\<close>

text \<open>The reference: \<open>s->a->b->\<dots>\<close> as plain loads from memory.\<close>

definition deref :: "(u64 \<Rightarrow> u8) \<Rightarrow> u64 \<Rightarrow> u64 \<Rightarrow> u64" where
  "deref mem p a = le_word (mem_bytes mem (p + a) 8)"

definition chase :: "(u64 \<Rightarrow> u8) \<Rightarrow> u64 \<Rightarrow> u64 list \<Rightarrow> u64" where
  "chase mem p as = foldl (deref mem) p as"

text \<open>No probe read of kernel memory, or of user memory, faults.\<close>

definition kernel_readable :: "kenv \<Rightarrow> bool" where
  "kernel_readable env \<longleftrightarrow> (\<forall>n buf p. fst (k_read_kernel env n buf p) = 0)"

definition all_user_readable :: "kenv \<Rightarrow> bool" where
  "all_user_readable env \<longleftrightarrow> (\<forall>n buf p. fst (k_read_user env n buf p) = 0)"

text \<open>A reader that fills its buffer from memory \<open>mem\<close>; the chain then is a chain of loads from \<open>mem\<close>.\<close>

definition reads_from :: "(u64 \<Rightarrow> u8) \<Rightarrow> (nat \<Rightarrow> bytes reader) \<Rightarrow> bool" where
  "reads_from mem rd \<longleftrightarrow> (\<forall>n buf p. n = length buf \<longrightarrow> snd (rd n buf p) = mem_bytes mem p n)"

lemma reads_fromD: "reads_from mem rd \<Longrightarrow> length buf = n \<Longrightarrow> snd (rd n buf p) = mem_bytes mem p n"
  unfolding reads_from_def by blast

lemma read_ptrs_chase:
  assumes "reads_from mem rd" and "length undef = 8" and "as \<noteq> []"
  shows "read_ptrs (rd 8) undef src as = chase mem src as"
proof -
  have "rd_last (rd 8) t a = deref mem t a" for t a
    using assms(1) by (simp add: rd_last_def reads_fromD deref_def)
  then have "rd_last (rd 8) = deref mem" by (simp add: fun_eq_iff)
  moreover have "rd_first (rd 8) undef s a = deref mem s a" for s a
    using assms(1,2) by (simp add: rd_first_def reads_fromD deref_def)
  ultimately show ?thesis using assms(3) by (cases as) (simp_all add: chase_def)
qed

text \<open>The last read is of any kind, of bytes or of a string.\<close>

lemma core_read_chase:
  assumes "reads_from mem rd" and "length undef = 8"
  shows "core_read fn (rd 8) undef dst src a as = fn dst (chase mem src (butlast (a # as)) + last (a # as))"
  using read_ptrs_chase [OF assms, of "butlast (a # as)" src] by (cases as) (simp_all add: chase_def)

context bpf_helpers
begin

lemma kernel_reads: "kernel_readable env \<Longrightarrow> reads_from kmem (k_read_kernel env)"
  by (simp add: reads_from_def kernel_readable_def kernel_ok)

lemma user_reads: "all_user_readable env \<Longrightarrow> reads_from umem (k_read_user env)"
  by (simp add: reads_from_def all_user_readable_def user_ok)

end

section \<open>Both bitfield readers\<close>

lemma le_nat_zeros: "le_nat (xs @ replicate k 0) = le_nat xs"
  by (induction xs) (auto, induction k, auto)

lemma le_word_zeros: "le_word (xs @ replicate k 0) = le_word xs"
  by (simp add: le_word_def le_nat_zeros)

lemma le_store_zero: "le_store k (0 :: u64) = replicate k 0"
  by (induction k) (auto simp: le_store_def)

context bpf_helpers
begin

lemma probed_value:
  assumes "CORE_RELO fi BPF_FIELD_BYTE_SIZE \<le> 8"
    and "fst (k_read_kernel env (CORE_RELO fi BPF_FIELD_BYTE_SIZE) (le_store 8 (0 :: u64)) (s + ucast (fi BPF_FIELD_BYTE_OFFSET))) = 0"
  shows "CORE_BITFIELD_PROBE_READ env fi 0 s =
    le_word (mem_bytes kmem (s + ucast (fi BPF_FIELD_BYTE_OFFSET)) (CORE_RELO fi BPF_FIELD_BYTE_SIZE))"
  using assms kernel_ok [OF _ assms(2)]
  by (simp add: CORE_BITFIELD_PROBE_READ_def overwrite_def le_store_zero le_word_zeros)

end

section \<open>Properties\<close>

text \<open>
  Bitfields.  For a field of \<open>n\<close> bits at bit \<open>b\<close> of a 1, 2, 4 or 8 byte unit, the probing and the direct macro
  give the same value, and it is exactly these bits of memory, zero- or sign-extended as the relocation says.
\<close>

theorem bitfield_readers_agree:
  assumes "bpf_helpers env umem kmem" and "describes_bits fi b n"
    and "CORE_RELO fi BPF_FIELD_BYTE_SIZE \<in> {1, 2, 4, 8}"
    and "fst (k_read_kernel env (CORE_RELO fi BPF_FIELD_BYTE_SIZE) (le_store 8 (0 :: u64)) (s + ucast (fi BPF_FIELD_BYTE_OFFSET))) = 0"
  defines "w \<equiv> le_word (mem_bytes kmem (s + ucast (fi BPF_FIELD_BYTE_OFFSET)) (CORE_RELO fi BPF_FIELD_BYTE_SIZE))"
  shows "BPF_CORE_READ_BITFIELD_PROBED env fi s = BPF_CORE_READ_BITFIELD env kmem fi s \<and>
    BPF_CORE_READ_BITFIELD env kmem fi s =
      (if CORE_RELO fi BPF_FIELD_SIGNED \<noteq> 0 then signed_take_bit (n - 1) (drop_bit b w) else take_bit n (drop_bit b w))"
proof -
  have "CORE_RELO fi BPF_FIELD_BYTE_SIZE \<le> 8" using assms(3) by auto
  with bpf_helpers.probed_value [OF assms(1) _ assms(4)]
  have "BPF_CORE_READ_BITFIELD_PROBED env fi s = bitfield_shift fi w"
    by (simp add: BPF_CORE_READ_BITFIELD_PROBED_def w_def)
  moreover have "BPF_CORE_READ_BITFIELD env kmem fi s = bitfield_shift fi w"
    using assms(3) by (auto simp: BPF_CORE_READ_BITFIELD_def w_def)
  ultimately show ?thesis
    using bitfield_unsigned [OF assms(2), of w] bitfield_signed [OF assms(2), of w] by simp
qed

theorem bitfield_readers_agree_witness:
  "let fi = (\<lambda>k. case k of BPF_FIELD_BYTE_OFFSET \<Rightarrow> 4 | BPF_FIELD_BYTE_SIZE \<Rightarrow> 1 | BPF_FIELD_EXISTS \<Rightarrow> 1
       | BPF_FIELD_SIGNED \<Rightarrow> 0 | BPF_FIELD_LSHIFT_U64 \<Rightarrow> 58 | BPF_FIELD_RSHIFT_U64 \<Rightarrow> 61)
   in BPF_CORE_READ_BITFIELD (ref_kenv (\<lambda>_. True) 0 0 [] (\<lambda>_. 0) (\<lambda>_. 0x2f)) (\<lambda>_. 0x2f) fi 0 = 5"
proof -
  let ?fi = "\<lambda>k. case k of BPF_FIELD_BYTE_OFFSET \<Rightarrow> 4 | BPF_FIELD_BYTE_SIZE \<Rightarrow> 1 | BPF_FIELD_EXISTS \<Rightarrow> 1
       | BPF_FIELD_SIGNED \<Rightarrow> 0 | BPF_FIELD_LSHIFT_U64 \<Rightarrow> 58 | BPF_FIELD_RSHIFT_U64 \<Rightarrow> 61"
  have "describes_bits ?fi 3 3" by (simp add: describes_bits_def CORE_RELO_def)
  from bitfield_readers_agree [OF ref_kenv.bpf_helpers_axioms this, of "\<lambda>_. True" 0 0 "[]" "\<lambda>_. 0" "\<lambda>_. 0x2f" 0]
  show ?thesis
    by (simp add: CORE_RELO_def ref_kenv_def mem_bytes_def le_word_def drop_bit_eq_div take_bit_eq_mod)
qed

text \<open>
  (C30) Pointer chains.  When no probe read faults, \<open>BPF_CORE_READ (s, a, b, \<dots>)\<close> returns the bytes of the last field in
  kernel memory after following every earlier field as a pointer, and \<open>BPF_PROBE_READ\<close> does so for any helper that reads
  kernel memory; their variants for user memory do the same there.  The variants for strings call their helper at the
  address of the last field.
\<close>

theorem core_read_follows_chain:
  assumes "bpf_helpers env umem kmem"
  shows "(kernel_readable env \<longrightarrow>
      BPF_CORE_READ env n src a as = mem_bytes kmem (chase kmem src (butlast (a # as)) + last (a # as)) n \<and>
      BPF_CORE_READ_STR_INTO kstr env dst src a as = kstr (length dst) dst (chase kmem src (butlast (a # as)) + last (a # as))) \<and>
    (reads_from kmem rd \<longrightarrow>
      BPF_PROBE_READ rd env n src a as = mem_bytes kmem (chase kmem src (butlast (a # as)) + last (a # as)) n \<and>
      BPF_PROBE_READ_STR_INTO kstr rd env dst src a as = kstr (length dst) dst (chase kmem src (butlast (a # as)) + last (a # as))) \<and>
    (all_user_readable env \<longrightarrow>
      BPF_CORE_READ_USER env n src a as = mem_bytes umem (chase umem src (butlast (a # as)) + last (a # as)) n \<and>
      BPF_PROBE_READ_USER env n src a as = BPF_CORE_READ_USER env n src a as \<and>
      BPF_CORE_READ_USER_STR_INTO env dst src a as =
        k_read_user_str env (length dst) dst (chase umem src (butlast (a # as)) + last (a # as)) \<and>
      BPF_PROBE_READ_USER_STR_INTO env dst src a as = BPF_CORE_READ_USER_STR_INTO env dst src a as)"
proof -
  note len = bpf_helpers.stack_length [OF assms]
  have core: "bpf_core_read env = k_read_kernel env" "bpf_core_read_user env = k_read_user env"
      "bpf_core_read_str kstr = kstr" "bpf_core_read_user_str env = k_read_user_str env"
    by (simp_all add: fun_eq_iff bpf_core_read_def bpf_core_read_user_def bpf_core_read_str_def bpf_core_read_user_str_def)
  note into = BPF_CORE_READ_def BPF_CORE_READ_INTO_def BPF_CORE_READ_STR_INTO_def BPF_CORE_READ_USER_def
    BPF_CORE_READ_USER_INTO_def BPF_CORE_READ_USER_STR_INTO_def BPF_PROBE_READ_def BPF_PROBE_READ_INTO_def
    BPF_PROBE_READ_STR_INTO_def BPF_PROBE_READ_USER_def BPF_PROBE_READ_USER_INTO_def BPF_PROBE_READ_USER_STR_INTO_def core len
  note k = bpf_helpers.kernel_reads [OF assms] and u = bpf_helpers.user_reads [OF assms]
  show ?thesis
    by (intro conjI impI)
       (simp_all add: into core_read_chase [OF k len] core_read_chase [OF u len] core_read_chase [OF _ len]
          reads_fromD [OF k] reads_fromD [OF u] reads_fromD del: butlast.simps last.simps)
qed

theorem core_read_follows_chain_witness:
  "BPF_CORE_READ (ref_kenv (\<lambda>_. True) 0 0 [] (\<lambda>_. 0) (\<lambda>a. if a = 16 then 64 else if a < 24 then 0 else ucast a)) 2 8 8 [6] = [70, 71]"
proof -
  let ?mem = "\<lambda>a :: u64. if a = 16 then 64 else (if a < 24 then 0 else ucast a) :: u8"
  let ?env = "ref_kenv (\<lambda>_. True) 0 0 [] (\<lambda>_. 0) ?mem"
  have "kernel_readable ?env" by (simp add: kernel_readable_def ref_kenv_def)
  then have "BPF_CORE_READ ?env 2 8 8 [6] = mem_bytes ?mem (chase ?mem 8 (butlast [8, 6]) + last [8, 6]) 2"
    using core_read_follows_chain [OF ref_kenv.bpf_helpers_axioms, of "\<lambda>_. True" 0 0 "[]" "\<lambda>_. 0" ?mem 2 8 8 "[6]"] by blast
  then show ?thesis by (simp add: chase_def deref_def mem_bytes_def le_word_def upt_conv_Cons)
qed

end
