(* ===== verification/Tracing.thy ===== *)
theory Tracing
  imports Core_Read C_Lib
begin

text \<open>
  \<open>bpf_tracing.h\<close>: selection of the target architecture, the register that holds
  each argument on it, and the wrappers \<open>BPF_KPROBE\<close>, \<open>BPF_KRETPROBE\<close> and
  \<open>BPF_KSYSCALL\<close> that hand those registers to a handler.  A register is named by the
  member of \<open>struct pt_regs\<close> the macro expands to; reading a member the struct does not
  have does not compile, which is \<open>None\<close>.
\<close>

section \<open>Target selection\<close>

datatype bpf_target = X86 | S390 | Arm | Arm64 | Mips | Powerpc | Sparc | Riscv | Arc

record compiler =
  cc_defined :: "string list" \<comment> \<open>macros defined on the command line or by the compiler\<close>
  cc_riscv_xlen :: nat

definition target_arch_macros :: "(string \<times> bpf_target) list" where
  "target_arch_macros =
     [(''__TARGET_ARCH_x86'', X86), (''__TARGET_ARCH_s390'', S390), (''__TARGET_ARCH_arm'', Arm),
      (''__TARGET_ARCH_arm64'', Arm64), (''__TARGET_ARCH_mips'', Mips),
      (''__TARGET_ARCH_powerpc'', Powerpc), (''__TARGET_ARCH_sparc'', Sparc),
      (''__TARGET_ARCH_riscv'', Riscv), (''__TARGET_ARCH_arc'', Arc)]"

definition compiler_macros :: "nat \<Rightarrow> (string \<times> bpf_target) list" where
  "compiler_macros xlen =
     [(''__x86_64__'', X86), (''__s390__'', S390), (''__arm__'', Arm), (''__aarch64__'', Arm64),
      (''__mips__'', Mips), (''__powerpc__'', Powerpc), (''__sparc__'', Sparc)] @
     (if xlen = 64 then [(''__riscv'', Riscv)] else []) @ [(''__arc__'', Arc)]"

definition first_defined :: "string list \<Rightarrow> (string \<times> bpf_target) list \<Rightarrow> bpf_target option" where
  "first_defined ds tbl = map_option snd (List.find (\<lambda>(m, t). m \<in> set ds) tbl)"

definition select_target :: "compiler \<Rightarrow> bpf_target option" where
  "select_target cc =
     (case first_defined (cc_defined cc) target_arch_macros of
        Some t \<Rightarrow> Some t
      | None \<Rightarrow> first_defined (cc_defined cc) (compiler_macros (cc_riscv_xlen cc)))"

section \<open>Argument registers\<close>

record reg_map =
  PT_PARM1_REG :: string
  PT_PARM2_REG :: string
  PT_PARM3_REG :: string
  PT_PARM4_REG :: string
  PT_PARM5_REG :: string
  PT_RET_REG :: string
  PT_FP_REG :: string
  PT_RC_REG :: string
  PT_SP_REG :: string
  PT_IP_REG :: string
  pt_parm1_syscall :: "string option" \<comment> \<open>override of \<open>PT_REGS_PARM1_(CORE_)SYSCALL\<close>\<close>
  pt_parm4_syscall :: "string option"
  pt_syscall_regs_ctx :: bool \<comment> \<open>\<open>PT_REGS_SYSCALL_REGS (ctx)\<close> is \<open>ctx\<close> itself\<close>

definition x86_vmlinux_regs :: reg_map where
  "x86_vmlinux_regs =
     \<lparr>PT_PARM1_REG = ''di'', PT_PARM2_REG = ''si'', PT_PARM3_REG = ''dx'', PT_PARM4_REG = ''cx'',
      PT_PARM5_REG = ''r8'', PT_RET_REG = ''sp'', PT_FP_REG = ''bp'', PT_RC_REG = ''ax'',
      PT_SP_REG = ''sp'', PT_IP_REG = ''ip'', pt_parm1_syscall = None,
      pt_parm4_syscall = Some ''r10'', pt_syscall_regs_ctx = False\<rparr>"

definition x86_i386_regs :: reg_map where
  "x86_i386_regs =
     \<lparr>PT_PARM1_REG = ''eax'', PT_PARM2_REG = ''edx'', PT_PARM3_REG = ''ecx'',
      PT_PARM4_REG = ''__unsupported__'', PT_PARM5_REG = ''__unsupported__'', PT_RET_REG = ''esp'',
      PT_FP_REG = ''ebp'', PT_RC_REG = ''eax'', PT_SP_REG = ''esp'', PT_IP_REG = ''eip'',
      pt_parm1_syscall = None, pt_parm4_syscall = None, pt_syscall_regs_ctx = False\<rparr>"

definition x86_64_regs :: reg_map where
  "x86_64_regs =
     \<lparr>PT_PARM1_REG = ''rdi'', PT_PARM2_REG = ''rsi'', PT_PARM3_REG = ''rdx'', PT_PARM4_REG = ''rcx'',
      PT_PARM5_REG = ''r8'', PT_RET_REG = ''rsp'', PT_FP_REG = ''rbp'', PT_RC_REG = ''rax'',
      PT_SP_REG = ''rsp'', PT_IP_REG = ''rip'', pt_parm1_syscall = None,
      pt_parm4_syscall = Some ''r10'', pt_syscall_regs_ctx = False\<rparr>"

definition s390_regs :: reg_map where
  "s390_regs =
     \<lparr>PT_PARM1_REG = ''gprs[2]'', PT_PARM2_REG = ''gprs[3]'', PT_PARM3_REG = ''gprs[4]'',
      PT_PARM4_REG = ''gprs[5]'', PT_PARM5_REG = ''gprs[6]'', PT_RET_REG = ''grps[14]'',
      PT_FP_REG = ''gprs[11]'', PT_RC_REG = ''gprs[2]'', PT_SP_REG = ''gprs[15]'',
      PT_IP_REG = ''psw.addr'', pt_parm1_syscall = Some ''orig_gpr2'', pt_parm4_syscall = None,
      pt_syscall_regs_ctx = False\<rparr>"

definition arm_regs :: reg_map where
  "arm_regs =
     \<lparr>PT_PARM1_REG = ''uregs[0]'', PT_PARM2_REG = ''uregs[1]'', PT_PARM3_REG = ''uregs[2]'',
      PT_PARM4_REG = ''uregs[3]'', PT_PARM5_REG = ''uregs[4]'', PT_RET_REG = ''uregs[14]'',
      PT_FP_REG = ''uregs[11]'', PT_RC_REG = ''uregs[0]'', PT_SP_REG = ''uregs[13]'',
      PT_IP_REG = ''uregs[12]'', pt_parm1_syscall = None, pt_parm4_syscall = None,
      pt_syscall_regs_ctx = False\<rparr>"

definition arm64_regs :: reg_map where
  "arm64_regs =
     \<lparr>PT_PARM1_REG = ''regs[0]'', PT_PARM2_REG = ''regs[1]'', PT_PARM3_REG = ''regs[2]'',
      PT_PARM4_REG = ''regs[3]'', PT_PARM5_REG = ''regs[4]'', PT_RET_REG = ''regs[30]'',
      PT_FP_REG = ''regs[29]'', PT_RC_REG = ''regs[0]'', PT_SP_REG = ''sp'', PT_IP_REG = ''pc'',
      pt_parm1_syscall = Some ''orig_x0'', pt_parm4_syscall = None, pt_syscall_regs_ctx = False\<rparr>"

definition mips_regs :: reg_map where
  "mips_regs =
     \<lparr>PT_PARM1_REG = ''regs[4]'', PT_PARM2_REG = ''regs[5]'', PT_PARM3_REG = ''regs[6]'',
      PT_PARM4_REG = ''regs[7]'', PT_PARM5_REG = ''regs[8]'', PT_RET_REG = ''regs[31]'',
      PT_FP_REG = ''regs[30]'', PT_RC_REG = ''regs[2]'', PT_SP_REG = ''regs[29]'',
      PT_IP_REG = ''cp0_epc'', pt_parm1_syscall = None, pt_parm4_syscall = None,
      pt_syscall_regs_ctx = False\<rparr>"

definition powerpc_regs :: reg_map where
  "powerpc_regs =
     \<lparr>PT_PARM1_REG = ''gpr[3]'', PT_PARM2_REG = ''gpr[4]'', PT_PARM3_REG = ''gpr[5]'',
      PT_PARM4_REG = ''gpr[6]'', PT_PARM5_REG = ''gpr[7]'', PT_RET_REG = ''regs[31]'',
      PT_FP_REG = ''__unsupported__'', PT_RC_REG = ''gpr[3]'', PT_SP_REG = ''sp'',
      PT_IP_REG = ''nip'', pt_parm1_syscall = None, pt_parm4_syscall = None,
      pt_syscall_regs_ctx = True\<rparr>"

definition sparc_regs :: "bool \<Rightarrow> reg_map" where
  "sparc_regs arch64 =
     \<lparr>PT_PARM1_REG = ''u_regs[UREG_I0]'', PT_PARM2_REG = ''u_regs[UREG_I1]'',
      PT_PARM3_REG = ''u_regs[UREG_I2]'', PT_PARM4_REG = ''u_regs[UREG_I3]'',
      PT_PARM5_REG = ''u_regs[UREG_I4]'', PT_RET_REG = ''u_regs[UREG_I7]'',
      PT_FP_REG = ''__unsupported__'', PT_RC_REG = ''u_regs[UREG_I0]'',
      PT_SP_REG = ''u_regs[UREG_FP]'', PT_IP_REG = (if arch64 then ''tpc'' else ''pc''),
      pt_parm1_syscall = None, pt_parm4_syscall = None, pt_syscall_regs_ctx = False\<rparr>"

definition riscv_regs :: reg_map where
  "riscv_regs =
     \<lparr>PT_PARM1_REG = ''a0'', PT_PARM2_REG = ''a1'', PT_PARM3_REG = ''a2'', PT_PARM4_REG = ''a3'',
      PT_PARM5_REG = ''a4'', PT_RET_REG = ''ra'', PT_FP_REG = ''s0'', PT_RC_REG = ''a0'',
      PT_SP_REG = ''sp'', PT_IP_REG = ''pc'', pt_parm1_syscall = None, pt_parm4_syscall = None,
      pt_syscall_regs_ctx = True\<rparr>"

definition arc_regs :: reg_map where
  "arc_regs =
     \<lparr>PT_PARM1_REG = ''scratch.r0'', PT_PARM2_REG = ''scratch.r1'', PT_PARM3_REG = ''scratch.r2'',
      PT_PARM4_REG = ''scratch.r3'', PT_PARM5_REG = ''scratch.r4'', PT_RET_REG = ''scratch.blink'',
      PT_FP_REG = ''__unsupported__'', PT_RC_REG = ''scratch.r0'', PT_SP_REG = ''scratch.sp'',
      PT_IP_REG = ''scratch.ret'', pt_parm1_syscall = None, pt_parm4_syscall = None,
      pt_syscall_regs_ctx = True\<rparr>"

text \<open>Which table a target uses; x86 and sparc look at further macros.\<close>

fun target_regs :: "compiler \<Rightarrow> bpf_target \<Rightarrow> reg_map" where
  "target_regs cc X86 =
     (if ''__KERNEL__'' \<in> set (cc_defined cc) \<or> ''__VMLINUX_H__'' \<in> set (cc_defined cc)
      then x86_vmlinux_regs
      else if ''__i386__'' \<in> set (cc_defined cc) then x86_i386_regs else x86_64_regs)"
| "target_regs cc S390 = s390_regs"
| "target_regs cc Arm = arm_regs"
| "target_regs cc Arm64 = arm64_regs"
| "target_regs cc Mips = mips_regs"
| "target_regs cc Powerpc = powerpc_regs"
| "target_regs cc Sparc = sparc_regs (''__arch64__'' \<in> set (cc_defined cc))"
| "target_regs cc Riscv = riscv_regs"
| "target_regs cc Arc = arc_regs"

section \<open>Reading arguments\<close>

type_synonym pt_regs = "string \<Rightarrow> u64 option" \<comment> \<open>member values; \<open>None\<close>: no such member\<close>

definition PT_REGS_PARMS :: "reg_map \<Rightarrow> string list" where
  "PT_REGS_PARMS m = [PT_PARM1_REG m, PT_PARM2_REG m, PT_PARM3_REG m, PT_PARM4_REG m, PT_PARM5_REG m]"

definition PT_REGS_PARMS_SYSCALL :: "reg_map \<Rightarrow> string list" where
  "PT_REGS_PARMS_SYSCALL m =
     [case pt_parm1_syscall m of None \<Rightarrow> PT_PARM1_REG m | Some r \<Rightarrow> r,
      PT_PARM2_REG m, PT_PARM3_REG m,
      case pt_parm4_syscall m of None \<Rightarrow> PT_PARM4_REG m | Some r \<Rightarrow> r,
      PT_PARM5_REG m]"

text \<open>\<open>___bpf_kprobe_args\<open>n\<close>\<close> exists for \<open>n \<le> 5\<close> only; the \<open>n\<close>-th argument is \<open>PT_REGS_PARM\<open>n\<close>\<close>.\<close>

fun read_members :: "pt_regs \<Rightarrow> string list \<Rightarrow> u64 list option" where
  "read_members regs [] = Some []"
| "read_members regs (r # rs) =
     (case regs r of None \<Rightarrow> None | Some v \<Rightarrow> map_option ((#) v) (read_members regs rs))"

definition bpf_kprobe_args :: "reg_map \<Rightarrow> nat \<Rightarrow> pt_regs \<Rightarrow> u64 list option" where
  "bpf_kprobe_args m n ctx = (if n \<le> 5 then read_members ctx (take n (PT_REGS_PARMS m)) else None)"

definition bpf_kretprobe_args :: "reg_map \<Rightarrow> nat \<Rightarrow> pt_regs \<Rightarrow> u64 list option" where
  "bpf_kretprobe_args m n ctx = (if n \<le> 1 then read_members ctx (take n [PT_RC_REG m]) else None)"

definition BPF_KPROBE :: "reg_map \<Rightarrow> nat \<Rightarrow> (pt_regs \<Rightarrow> u64 list \<Rightarrow> 'r) \<Rightarrow> pt_regs \<Rightarrow> 'r option" where
  "BPF_KPROBE m n body ctx = map_option (body ctx) (bpf_kprobe_args m n ctx)"

definition BPF_KRETPROBE :: "reg_map \<Rightarrow> nat \<Rightarrow> (pt_regs \<Rightarrow> u64 list \<Rightarrow> 'r) \<Rightarrow> pt_regs \<Rightarrow> 'r option" where
  "BPF_KRETPROBE m n body ctx = map_option (body ctx) (bpf_kretprobe_args m n ctx)"

text \<open>The registers that are no parameters, by the member the macro names.\<close>

definition PT_REGS_RET :: "reg_map \<Rightarrow> pt_regs \<Rightarrow> u64 option" where
  "PT_REGS_RET m ctx = ctx (PT_RET_REG m)"

definition PT_REGS_FP :: "reg_map \<Rightarrow> pt_regs \<Rightarrow> u64 option" where
  "PT_REGS_FP m ctx = ctx (PT_FP_REG m)"

definition PT_REGS_RC :: "reg_map \<Rightarrow> pt_regs \<Rightarrow> u64 option" where
  "PT_REGS_RC m ctx = ctx (PT_RC_REG m)"

definition PT_REGS_SP :: "reg_map \<Rightarrow> pt_regs \<Rightarrow> u64 option" where
  "PT_REGS_SP m ctx = ctx (PT_SP_REG m)"

definition PT_REGS_IP :: "reg_map \<Rightarrow> pt_regs \<Rightarrow> u64 option" where
  "PT_REGS_IP m ctx = ctx (PT_IP_REG m)"

text \<open>
  The return address at function entry and exit.  \<open>ip\<close> is the old value of the (64-bit) variable; powerpc and sparc take
  a register, the others read kernel memory, and the result of that read is ignored.
\<close>

definition BPF_KPROBE_READ_RET_IP :: "bpf_target \<Rightarrow> reg_map \<Rightarrow> kenv \<Rightarrow> pt_regs \<Rightarrow> u64 \<Rightarrow> u64 option" where
  "BPF_KPROBE_READ_RET_IP t m env ctx ip =
     (case t of
        Powerpc \<Rightarrow> ctx ''link''
      | Sparc \<Rightarrow> PT_REGS_RET m ctx
      | _ \<Rightarrow> map_option (\<lambda>p. le_word (snd (k_read_kernel env 8 (le_store 8 ip) p))) (PT_REGS_RET m ctx))"

definition BPF_KRETPROBE_READ_RET_IP :: "bpf_target \<Rightarrow> reg_map \<Rightarrow> kenv \<Rightarrow> pt_regs \<Rightarrow> u64 \<Rightarrow> u64 option" where
  "BPF_KRETPROBE_READ_RET_IP t m env ctx ip =
     (case t of
        Powerpc \<Rightarrow> BPF_KPROBE_READ_RET_IP t m env ctx ip
      | Sparc \<Rightarrow> BPF_KPROBE_READ_RET_IP t m env ctx ip
      | _ \<Rightarrow> map_option (\<lambda>p. le_word (snd (k_read_kernel env 8 (le_store 8 ip) (p + 8)))) (PT_REGS_FP m ctx))"

text \<open>
  \<open>BPF_KSYSCALL\<close>: with a syscall wrapper the first argument points to the user's
  registers, which are then read by CO-RE (\<open>core p\<close> gives the members of the
  \<open>pt_regs\<close> at address \<open>p\<close>); without one they are the probe's own registers.
\<close>

definition BPF_KSYSCALL ::
  "reg_map \<Rightarrow> bool \<Rightarrow> (u64 \<Rightarrow> pt_regs) \<Rightarrow> nat \<Rightarrow> (pt_regs \<Rightarrow> u64 list \<Rightarrow> 'r) \<Rightarrow> pt_regs \<Rightarrow> 'r option" where
  "BPF_KSYSCALL m has_wrapper core n body ctx =
     (if 5 < n then None
      else if has_wrapper then
        (case ctx (PT_PARM1_REG m) of None \<Rightarrow> None
         | Some p \<Rightarrow> map_option (body ctx) (read_members (core p) (take n (PT_REGS_PARMS_SYSCALL m))))
      else map_option (body ctx) (read_members ctx (take n (PT_REGS_PARMS_SYSCALL m))))"

text \<open>\<open>___bpf_ctx_cast\<open>n\<close>\<close> and \<open>BPF_PROG\<close>: argument \<open>i\<close> is \<open>ctx[i]\<close>, up to twelve of them.\<close>

definition bpf_ctx_cast :: "nat \<Rightarrow> u64 list \<Rightarrow> u64 list option" where
  "bpf_ctx_cast n ctx = (if n \<le> 12 \<and> n \<le> length ctx then Some (take n ctx) else None)"

definition BPF_PROG :: "nat \<Rightarrow> (u64 list \<Rightarrow> u64 list \<Rightarrow> 'r) \<Rightarrow> u64 list \<Rightarrow> 'r option" where
  "BPF_PROG n body ctx = map_option (body ctx) (bpf_ctx_cast n ctx)"

section \<open>CO-RE reads of arm64 registers\<close>

text \<open>\<open>struct user_pt_regs\<close>: \<open>regs[31]\<close>, \<open>sp\<close>, \<open>pc\<close>, \<open>pstate\<close>, all 64 bits wide.\<close>

definition regs_member :: "nat \<Rightarrow> string" where
  "regs_member i = ''regs['' @ digits 10 i @ '']''"

definition user_pt_regs_members :: "string list" where
  "user_pt_regs_members =
     map regs_member [0..<31] @ [''sp'', ''pc'', ''pstate'']"

fun index_of :: "'a \<Rightarrow> 'a list \<Rightarrow> nat option" where
  "index_of x [] = None"
| "index_of x (y # ys) = (if x = y then Some 0 else map_option Suc (index_of x ys))"

definition arm64_member_off :: "string \<Rightarrow> u64 option" where
  "arm64_member_off r = map_option (\<lambda>i. of_nat (8 * i)) (index_of r user_pt_regs_members)"

text \<open>\<open>PT_REGS_PARM\<open>n\<close>_CORE (x)\<close> = \<open>BPF_CORE_READ (__PT_REGS_CAST (x), __PT_PARM\<open>n\<close>_REG)\<close>.\<close>

definition PT_REGS_CORE :: "kenv \<Rightarrow> string \<Rightarrow> u64 \<Rightarrow> u64 option" where
  "PT_REGS_CORE env r x = map_option (\<lambda>off. le_word (BPF_CORE_READ env 8 x off [])) (arm64_member_off r)"

section \<open>Lemmas\<close>

lemma read_members_Some:
  "read_members regs rs = Some vs \<longleftrightarrow> map regs rs = map Some vs"
  by (induction rs arbitrary: vs) (auto split: option.splits)

lemma read_members_cong:
  "(\<And>r. r \<in> set rs \<Longrightarrow> regs r = regs' r) \<Longrightarrow> read_members regs rs = read_members regs' rs"
  by (induction rs) (auto split: option.splits)

lemma find_pair_Some: "List.find P xs = Some x \<Longrightarrow> x \<in> set xs \<and> P x"
  by (auto simp: find_Some_iff)

text \<open>What a handler needs of an architecture: no two arguments share a register.\<close>

locale arg_registers =
  fixes m :: reg_map
  assumes parms_distinct: "distinct (PT_REGS_PARMS m)"
    and syscall_distinct: "distinct (PT_REGS_PARMS_SYSCALL m)"
begin

lemma kprobe_args_set:
  assumes "bpf_kprobe_args m n ctx = Some vs" and "i < n" and "n \<le> 5"
  shows "bpf_kprobe_args m n (ctx(PT_REGS_PARMS m ! i \<mapsto> v)) = Some (vs[i := v])"
proof -
  let ?rs = "take n (PT_REGS_PARMS m)"
  from assms(1,3) have vs: "map ctx ?rs = map Some vs" by (simp add: bpf_kprobe_args_def read_members_Some)
  have "length (PT_REGS_PARMS m) = 5" by (simp add: PT_REGS_PARMS_def)
  with arg_cong [OF vs, of length] assms(3) have len: "length vs = n" by simp
  have "map (ctx(PT_REGS_PARMS m ! i \<mapsto> v)) ?rs = map Some (vs[i := v])"
  proof (rule nth_equalityI)
    show "length (map (ctx(PT_REGS_PARMS m ! i \<mapsto> v)) ?rs) = length (map Some (vs[i := v]))"
      using len assms(3) by (simp add: PT_REGS_PARMS_def)
    fix j
    assume "j < length (map (ctx(PT_REGS_PARMS m ! i \<mapsto> v)) ?rs)"
    then have j: "j < n" "j < length (PT_REGS_PARMS m)" by auto
    have "i < length (PT_REGS_PARMS m)" using assms(2,3) by (simp add: PT_REGS_PARMS_def)
    with j have "PT_REGS_PARMS m ! j = PT_REGS_PARMS m ! i \<longleftrightarrow> j = i"
      using parms_distinct by (simp add: nth_eq_iff_index_eq)
    moreover have "ctx (PT_REGS_PARMS m ! j) = Some (vs ! j)"
      using arg_cong [OF vs, of "\<lambda>xs. xs ! j"] j len by simp
    ultimately show "map (ctx(PT_REGS_PARMS m ! i \<mapsto> v)) ?rs ! j = map Some (vs[i := v]) ! j"
      using j len by (auto simp: nth_list_update)
  qed
  then show ?thesis using assms(3) by (simp add: bpf_kprobe_args_def read_members_Some)
qed

end

interpretation arm64_args: arg_registers arm64_regs
  by unfold_locales (simp_all add: PT_REGS_PARMS_def PT_REGS_PARMS_SYSCALL_def arm64_regs_def)

interpretation x86_args: arg_registers x86_vmlinux_regs
  by unfold_locales (simp_all add: PT_REGS_PARMS_def PT_REGS_PARMS_SYSCALL_def x86_vmlinux_regs_def)

interpretation riscv_args: arg_registers riscv_regs
  by unfold_locales (simp_all add: PT_REGS_PARMS_def PT_REGS_PARMS_SYSCALL_def riscv_regs_def)

lemma index_of_map:
  assumes "inj f" and "k \<le> i" and "i < n"
  shows "index_of (f i) (map f [k..<n] @ ys) = Some (i - k)"
  using assms
proof (induction "i - k" arbitrary: k)
  case 0
  then show ?case by (simp add: upt_conv_Cons)
next
  case (Suc d)
  then have "k < i" by simp
  with Suc have "index_of (f i) (map f [Suc k..<n] @ ys) = Some (i - Suc k)" by simp
  moreover have "f i \<noteq> f k" using \<open>k < i\<close> \<open>inj f\<close> by (auto dest: injD)
  ultimately show ?case using \<open>k < i\<close> Suc.prems by (simp add: upt_conv_Cons Suc_diff_Suc)
qed

lemma inj_regs_member: "inj regs_member"
  by (rule injI) (auto simp: regs_member_def dest: digits_inj [rotated 2])

lemma arm64_member_off_regs: "i < 31 \<Longrightarrow> arm64_member_off (regs_member i) = Some (of_nat (8 * i))"
  using index_of_map [OF inj_regs_member, of 0 i 31]
  by (simp add: arm64_member_off_def user_pt_regs_members_def)

lemma regs_member_literals:
  "''regs[0]'' = regs_member 0" "''regs[1]'' = regs_member 1" "''regs[2]'' = regs_member 2"
  "''regs[3]'' = regs_member 3" "''regs[4]'' = regs_member 4" "''regs[5]'' = regs_member 5"
  by (simp_all add: regs_member_def digits.simps digit_char_def char_of_def bit_simps)

lemma arm64_parm_offsets:
  "arm64_member_off ''regs[0]'' = Some 0" "arm64_member_off ''regs[1]'' = Some 8"
  "arm64_member_off ''regs[2]'' = Some 16" "arm64_member_off ''regs[3]'' = Some 24"
  "arm64_member_off ''regs[4]'' = Some 32" "arm64_member_off ''regs[5]'' = Some 40"
  by (simp_all only: regs_member_literals) (simp_all add: arm64_member_off_regs)

lemma arm64_parms: "PT_REGS_PARMS arm64_regs = map regs_member [0, 1, 2, 3, 4]"
  by (simp add: PT_REGS_PARMS_def arm64_regs_def regs_member_literals)

lemma arm64_parm_nth: "i < 5 \<Longrightarrow> PT_REGS_PARMS arm64_regs ! i = regs_member i"
  unfolding arm64_parms by (cases i; simp add: less_Suc_eq numeral_eq_Suc; auto)

lemma take_5_upt: "n \<le> 5 \<Longrightarrow> take n (PT_REGS_PARMS arm64_regs) = map regs_member [0..<n]"
  by (rule nth_equalityI) (simp_all add: arm64_parm_nth, simp add: PT_REGS_PARMS_def)

section \<open>Properties\<close>

text \<open>
  \<open>BPF_KPROBE\<close> on arm64.  A handler with \<open>n \<le> 5\<close> parameters is called with the registers \<open>x0\<close> to \<open>x(n-1)\<close> in
  order, and changing one of them changes exactly that argument; a handler with more parameters does not compile.
\<close>

theorem kprobe_args_arm64:
  assumes "\<forall>i < 31. ctx (regs_member i) = Some (x i)"
  shows "BPF_KPROBE arm64_regs n body ctx = (if n \<le> 5 then Some (body ctx (map x [0..<n])) else None) \<and>
    (i < n \<and> n \<le> 5 \<longrightarrow>
       bpf_kprobe_args arm64_regs n (ctx(regs_member i \<mapsto> v)) = Some ((map x [0..<n])[i := v]))"
proof -
  have args: "bpf_kprobe_args arm64_regs n ctx = Some (map x [0..<n])" if "n \<le> 5"
    using that assms by (simp add: bpf_kprobe_args_def take_5_upt read_members_Some)
  then have "i < n \<and> n \<le> 5 \<longrightarrow>
       bpf_kprobe_args arm64_regs n (ctx(regs_member i \<mapsto> v)) = Some ((map x [0..<n])[i := v])"
    using arm64_args.kprobe_args_set [of n ctx "map x [0..<n]" i v] arm64_parm_nth [of i] by auto
  with args show ?thesis by (simp add: BPF_KPROBE_def bpf_kprobe_args_def)
qed

theorem kprobe_args_arm64_witness:
  "BPF_KPROBE arm64_regs 2 (\<lambda>ctx as. as) (\<lambda>r. Some 7) = Some [7, 7]"
  using kprobe_args_arm64 [of "\<lambda>r. Some 7" "\<lambda>_. 7" 2 "\<lambda>ctx as. as" 0 0] by (simp add: upt_conv_Cons)

text \<open>
  Target selection.  An explicit \<open>-D__TARGET_ARCH_arm64\<close> and no other explicit target selects the arm64 register
  table, whatever machine the compiler itself runs on.
\<close>

theorem explicit_target_wins:
  assumes "set (cc_defined cc) \<inter> set (map fst target_arch_macros) = {''__TARGET_ARCH_arm64''}"
  shows "select_target cc = Some Arm64 \<and> target_regs cc Arm64 = arm64_regs"
proof -
  have arm: "''__TARGET_ARCH_arm64'' \<in> set (cc_defined cc)" using assms by blast
  have others: "m \<notin> set (cc_defined cc)" if "m \<in> set (map fst target_arch_macros)" "m \<noteq> ''__TARGET_ARCH_arm64''" for m
    using that assms by blast
  have "first_defined (cc_defined cc) target_arch_macros = Some Arm64"
    using arm others [of "''__TARGET_ARCH_x86''"] others [of "''__TARGET_ARCH_s390''"] others [of "''__TARGET_ARCH_arm''"]
    by (simp add: first_defined_def target_arch_macros_def)
  then show ?thesis by (simp add: select_target_def)
qed

theorem explicit_target_wins_witness:
  "select_target \<lparr>cc_defined = [''__x86_64__'', ''__TARGET_ARCH_arm64''], cc_riscv_xlen = 0\<rparr> = Some Arm64"
  using explicit_target_wins [of "\<lparr>cc_defined = [''__x86_64__'', ''__TARGET_ARCH_arm64''], cc_riscv_xlen = 0\<rparr>"]
  by (simp add: target_arch_macros_def)

end
