(* ===== verification/Strace_Bpf.thy ===== *)
theory Strace_Bpf
  imports Strace_Event Tracing
begin

text \<open>
  \<open>libbpfstrace.bpf.c\<close>: the two raw-tracepoint programs of the tracer.
  \<open>handle_sys_enter\<close> snapshots a system call of the traced process into the
  \<open>inflight\<close> map under its thread, \<open>handle_sys_exit\<close> turns the snapshot and the
  return value into an event in the ring buffer and drops the snapshot.  The map
  operations and the helpers are the parameters of \<open>Bpf_Env\<close>; a run is any
  interleaving of the two programs over any threads.
\<close>

section \<open>Constants\<close>

definition NR_OPENAT :: i32 where "NR_OPENAT = 56"
definition NR_READ :: i32 where "NR_READ = 63"
definition NR_WRITE :: i32 where "NR_WRITE = 64"
definition NR_IOCTL :: i32 where "NR_IOCTL = 29"
definition NR_EPOLL_PWAIT :: i32 where "NR_EPOLL_PWAIT = 22"
definition NR_FUTEX :: i32 where "NR_FUTEX = 98"
definition NR_CONNECT :: i32 where "NR_CONNECT = 203"
definition NR_BIND :: i32 where "NR_BIND = 200"
definition NR_SENDTO :: i32 where "NR_SENDTO = 206"
definition NR_RECVFROM :: i32 where "NR_RECVFROM = 207"
definition NR_EXECVE :: i32 where "NR_EXECVE = 221"
definition NR_OPENAT2 :: i32 where "NR_OPENAT2 = 437"

definition AF_INET_VAL :: u16 where "AF_INET_VAL = 2"
definition AF_INET6_VAL :: u16 where "AF_INET6_VAL = 10"

lemmas nr_defs =
  NR_OPENAT_def NR_READ_def NR_WRITE_def NR_IOCTL_def NR_EPOLL_PWAIT_def NR_FUTEX_def
  NR_CONNECT_def NR_BIND_def NR_SENDTO_def NR_RECVFROM_def NR_EXECVE_def NR_OPENAT2_def

text \<open>\<open>struct sockaddr_in\<close> and \<open>struct sockaddr_in6\<close> of \<open>vmlinux.h\<close>.\<close>

definition sockaddr_in_layout :: layout where
  "sockaddr_in_layout = [(''sin_family'', 2, 2), (''sin_port'', 2, 2), (''sin_addr'', 4, 4), (''__pad'', 8, 1)]"

definition sockaddr_in6_layout :: layout where
  "sockaddr_in6_layout =
     [(''sin6_family'', 2, 2), (''sin6_port'', 2, 2), (''sin6_flowinfo'', 4, 4),
      (''sin6_addr'', 16, 4), (''sin6_scope_id'', 4, 4)]"

section \<open>Capturing arguments\<close>

definition maybe_capture_string :: "kenv \<Rightarrow> enter_state \<Rightarrow> enter_state" where
  "maybe_capture_string env s =
     (let p = (if es_syscall_id s = NR_OPENAT \<or> es_syscall_id s = NR_OPENAT2 then es_args s ! 1
               else if es_syscall_id s = NR_EXECVE then es_args s ! 0 else 0)
      in if p = 0 then s
         else let (n, buf) = k_read_user_str env SYSCALL_STR_LEN (es_str s) p;
                  s' = s\<lparr>es_str := buf\<rparr>
              in if 0 < n then s'\<lparr>es_str_len := of_int n\<rparr> else s')"

definition capture_in4 :: "kenv \<Rightarrow> u64 \<Rightarrow> enter_state \<Rightarrow> enter_state" where
  "capture_in4 env uaddr s =
     (let (r, in4) = k_read_user env (size_of sockaddr_in_layout)
                       (replicate (size_of sockaddr_in_layout) 0) uaddr
      in if r < 0 then s
         else s\<lparr>es_sa_port := le_word (chunk (offset_of sockaddr_in_layout ''sin_port'') 2 in4),
                es_sa_addr4 := le_word (chunk (offset_of sockaddr_in_layout ''sin_addr'') 4 in4),
                es_sa_valid := 1\<rparr>)"

definition capture_in6 :: "kenv \<Rightarrow> u64 \<Rightarrow> enter_state \<Rightarrow> enter_state" where
  "capture_in6 env uaddr s =
     (let (r, in6) = k_read_user env (size_of sockaddr_in6_layout)
                       (replicate (size_of sockaddr_in6_layout) 0) uaddr
      in if r < 0 then s
         else s\<lparr>es_sa_port := le_word (chunk (offset_of sockaddr_in6_layout ''sin6_port'') 2 in6),
                es_sa_addr6 := chunk (offset_of sockaddr_in6_layout ''sin6_addr'') 16 in6,
                es_sa_scope_id := le_word (chunk (offset_of sockaddr_in6_layout ''sin6_scope_id'') 4 in6),
                es_sa_valid := 1\<rparr>)"

definition maybe_capture_sockaddr :: "kenv \<Rightarrow> enter_state \<Rightarrow> enter_state" where
  "maybe_capture_sockaddr env s =
     (if es_syscall_id s \<noteq> NR_CONNECT \<and> es_syscall_id s \<noteq> NR_BIND \<and> es_syscall_id s \<noteq> NR_SENDTO then s
      else let uaddr = es_args s ! 1
           in if uaddr = 0 then s
              else let len = (if es_syscall_id s = NR_SENDTO then es_args s ! 5 else es_args s ! 2)
                   in if len < 2 then s
                      else let (r, fb) = k_read_user env 2 (k_stack env 2) uaddr;
                               family = (le_word fb :: u16)
                           in if r < 0 then s
                              else let s = s\<lparr>es_sa_family := family\<rparr>
                                   in if family = AF_INET_VAL \<and> of_nat (size_of sockaddr_in_layout) \<le> len
                                      then capture_in4 env uaddr s
                                      else if family = AF_INET6_VAL \<and> of_nat (size_of sockaddr_in6_layout) \<le> len
                                      then capture_in6 env uaddr s
                                      else s)"

section \<open>The programs\<close>

text \<open>\<open>PT_REGS_PARM1_CORE (regs)\<close> \<dots> \<open>PT_REGS_PARM5_CORE (regs)\<close> and \<open>BPF_CORE_READ (regs, regs[5])\<close>.\<close>

definition core_reg :: "kenv \<Rightarrow> string \<Rightarrow> u64 \<Rightarrow> u64" where
  "core_reg env r regs = (case PT_REGS_CORE env r regs of None \<Rightarrow> 0 | Some v \<Rightarrow> v)"

definition syscall_args :: "kenv \<Rightarrow> u64 \<Rightarrow> u64 list" where
  "syscall_args env regs =
     [core_reg env (PT_PARM1_REG arm64_regs) regs, core_reg env (PT_PARM2_REG arm64_regs) regs,
      core_reg env (PT_PARM3_REG arm64_regs) regs, core_reg env (PT_PARM4_REG arm64_regs) regs,
      core_reg env (PT_PARM5_REG arm64_regs) regs, core_reg env ''regs[5]'' regs]"

definition id_tgid :: "u64 \<Rightarrow> i32" where
  "id_tgid i = ucast (drop_bit 32 i)"

definition id_pid :: "u64 \<Rightarrow> i32" where
  "id_pid i = ucast i"

definition filtered_out :: "i32 \<Rightarrow> u64 \<Rightarrow> bool" where
  "filtered_out target_tgid i \<longleftrightarrow> target_tgid \<noteq> 0 \<and> id_tgid i \<noteq> target_tgid"

text \<open>The local \<open>struct enter_state s\<close> at the point where it is stored.\<close>

definition enter_snapshot :: "kenv \<Rightarrow> u64 list \<Rightarrow> enter_state" where
  "enter_snapshot env ctx =
     (let s = enter_state_zero\<lparr>es_syscall_id := ucast (ctx ! 1)\<rparr>;
          s = s\<lparr>es_args := syscall_args env (ctx ! 0)\<rparr>;
          s = s\<lparr>es_comm := snd (k_comm env TASK_COMM_LEN (es_comm s))\<rparr>
      in maybe_capture_sockaddr env (maybe_capture_string env s))"

definition handle_sys_enter ::
  "('m, u64, enter_state) map_ops \<Rightarrow> i32 \<Rightarrow> kenv \<Rightarrow> u64 list \<Rightarrow> 'm \<Rightarrow> int \<times> 'm" where
  "handle_sys_enter ops target_tgid env ctx m =
     (let i = k_pid_tgid env
      in if filtered_out target_tgid i then (0, m)
         else (0, snd (map_update_elem ops m i (enter_snapshot env ctx) BPF_ANY)))"

text \<open>The stores into the reserved record \<open>e\<close>.\<close>

definition fill_event :: "u64 \<Rightarrow> u64 list \<Rightarrow> enter_state \<Rightarrow> syscall_event \<Rightarrow> syscall_event" where
  "fill_event i ctx s e =
     e\<lparr>ev_tgid := id_tgid i, ev_pid := id_pid i, ev_syscall_id := es_syscall_id s, ev_ret := ctx ! 1,
       ev_args := [es_args s ! 0, es_args s ! 1, es_args s ! 2, es_args s ! 3, es_args s ! 4, es_args s ! 5],
       ev_comm := es_comm s, ev_str := es_str s, ev_str_len := es_str_len s,
       ev_sa_family := es_sa_family s, ev_sa_port := es_sa_port s, ev_sa_addr4 := es_sa_addr4 s,
       ev_sa_addr6 := es_sa_addr6 s, ev_sa_scope_id := es_sa_scope_id s, ev_sa_valid := es_sa_valid s\<rparr>"

text \<open>
  \<open>rsv\<close> is the answer of \<open>bpf_ringbuf_reserve\<close>: \<open>None\<close> when the buffer is full, else the
  old contents of the memory it hands out.  The result is the map and the submitted events.
\<close>

definition handle_sys_exit ::
  "('m, u64, enter_state) map_ops \<Rightarrow> i32 \<Rightarrow> kenv \<Rightarrow> u64 list \<Rightarrow> syscall_event option \<Rightarrow> 'm
   \<Rightarrow> int \<times> 'm \<times> syscall_event list" where
  "handle_sys_exit ops target_tgid env ctx rsv m =
     (let i = k_pid_tgid env
      in if filtered_out target_tgid i then (0, m, [])
         else (case map_lookup_elem ops m i of
                 None \<Rightarrow> (0, m, [])
               | Some s \<Rightarrow>
                   (case rsv of
                      None \<Rightarrow> (0, snd (map_delete_elem ops m i), [])
                    | Some e \<Rightarrow> (0, snd (map_delete_elem ops m i), [fill_event i ctx s e]))))"

section \<open>Interleavings\<close>

datatype tracepoint =
  Sys_Enter kenv "u64 list"
| Sys_Exit kenv "u64 list" "syscall_event option"

record 'm tracer =
  inflight :: 'm
  events :: "syscall_event list" \<comment> \<open>everything submitted, oldest first\<close>

fun tp_step :: "('m, u64, enter_state) map_ops \<Rightarrow> i32 \<Rightarrow> 'm tracer \<Rightarrow> tracepoint \<Rightarrow> 'm tracer" where
  "tp_step ops tgt st (Sys_Enter env ctx) =
     st\<lparr>inflight := snd (handle_sys_enter ops tgt env ctx (inflight st))\<rparr>"
| "tp_step ops tgt st (Sys_Exit env ctx rsv) =
     (let (r, m, out) = handle_sys_exit ops tgt env ctx rsv (inflight st)
      in st\<lparr>inflight := m, events := events st @ out\<rparr>)"

definition tp_run :: "('m, u64, enter_state) map_ops \<Rightarrow> i32 \<Rightarrow> 'm tracer \<Rightarrow> tracepoint list \<Rightarrow> 'm tracer" where
  "tp_run ops tgt st tps = foldl (tp_step ops tgt) st tps"

fun tp_id :: "tracepoint \<Rightarrow> u64" where
  "tp_id (Sys_Enter env ctx) = k_pid_tgid env"
| "tp_id (Sys_Exit env ctx rsv) = k_pid_tgid env"

fun tp_env :: "tracepoint \<Rightarrow> kenv" where
  "tp_env (Sys_Enter env ctx) = env"
| "tp_env (Sys_Exit env ctx rsv) = env"

fun is_exit :: "tracepoint \<Rightarrow> bool" where
  "is_exit (Sys_Enter env ctx) = False"
| "is_exit (Sys_Exit env ctx rsv) = True"

text \<open>The helpers keep their documented contract during this run of a program.\<close>

definition tp_lawful :: "tracepoint \<Rightarrow> bool" where
  "tp_lawful tp \<longleftrightarrow> (\<exists>umem kmem. bpf_helpers (tp_env tp) umem kmem)"

section \<open>The abstract tracer\<close>

text \<open>
  What the two programs promise: per thread at most one pending call; an exit reports the
  pending call with its return value, or loses it when the ring buffer is full.
\<close>

definition event_of :: "u64 \<Rightarrow> enter_state \<Rightarrow> i64 \<Rightarrow> syscall_event" where
  "event_of i s ret =
     \<lparr>ev_tgid = id_tgid i, ev_pid = id_pid i, ev_syscall_id = es_syscall_id s, ev_ret = ret,
      ev_args = es_args s, ev_comm = es_comm s, ev_str = es_str s, ev_str_len = es_str_len s,
      ev_sa_family = es_sa_family s, ev_sa_port = es_sa_port s, ev_sa_addr4 = es_sa_addr4 s,
      ev_sa_addr6 = es_sa_addr6 s, ev_sa_scope_id = es_sa_scope_id s, ev_sa_valid = es_sa_valid s\<rparr>"

record spec_tracer =
  pending :: "u64 \<rightharpoonup> enter_state"
  reported :: "syscall_event list"

inductive spec_step :: "i32 \<Rightarrow> spec_tracer \<Rightarrow> tracepoint \<Rightarrow> spec_tracer \<Rightarrow> bool" where
  other_process: "filtered_out tgt (tp_id tp) \<Longrightarrow> spec_step tgt st tp st"
| enter: "\<not> filtered_out tgt (k_pid_tgid env) \<Longrightarrow>
     spec_step tgt st (Sys_Enter env ctx)
       (st\<lparr>pending := (pending st)(k_pid_tgid env \<mapsto> enter_snapshot env ctx)\<rparr>)"
| enter_lost: "\<not> filtered_out tgt (k_pid_tgid env) \<Longrightarrow> spec_step tgt st (Sys_Enter env ctx) st"
| exit_report: "\<not> filtered_out tgt (k_pid_tgid env) \<Longrightarrow> pending st (k_pid_tgid env) = Some s \<Longrightarrow>
     spec_step tgt st (Sys_Exit env ctx (Some e))
       (st\<lparr>pending := (pending st)(k_pid_tgid env := None),
           reported := reported st @ [event_of (k_pid_tgid env) s (ctx ! 1)]\<rparr>)"
| exit_lost: "\<not> filtered_out tgt (k_pid_tgid env) \<Longrightarrow> pending st (k_pid_tgid env) = Some s \<Longrightarrow>
     spec_step tgt st (Sys_Exit env ctx None) (st\<lparr>pending := (pending st)(k_pid_tgid env := None)\<rparr>)"
| exit_unmatched: "\<not> filtered_out tgt (k_pid_tgid env) \<Longrightarrow> pending st (k_pid_tgid env) = None \<Longrightarrow>
     spec_step tgt st (Sys_Exit env ctx rsv) st"

inductive spec_run :: "i32 \<Rightarrow> spec_tracer \<Rightarrow> tracepoint list \<Rightarrow> spec_tracer \<Rightarrow> bool" where
  spec_nil: "spec_run tgt st [] st"
| spec_snoc: "spec_run tgt st tps st' \<Longrightarrow> spec_step tgt st' tp st'' \<Longrightarrow> spec_run tgt st (tps @ [tp]) st''"

inductive_cases spec_enterE: "spec_step tgt st (Sys_Enter env ctx) st'"
inductive_cases spec_exitE: "spec_step tgt st (Sys_Exit env ctx rsv) st'"
inductive_simps spec_run_Nil [simp]: "spec_run tgt st [] st'"

definition abs_tracer :: "('m, u64, enter_state) map_ops \<Rightarrow> 'm tracer \<Rightarrow> spec_tracer" where
  "abs_tracer ops st = \<lparr>pending = map_lookup_elem ops (inflight st), reported = events st\<rparr>"

section \<open>Lemmas on snapshots\<close>

lemma sockaddr_sizes [simp]:
  "size_of sockaddr_in_layout = 16" "size_of sockaddr_in6_layout = 28"
  "offset_of sockaddr_in_layout ''sin_port'' = 2" "offset_of sockaddr_in_layout ''sin_addr'' = 4"
  "offset_of sockaddr_in6_layout ''sin6_port'' = 2" "offset_of sockaddr_in6_layout ''sin6_addr'' = 8"
  "offset_of sockaddr_in6_layout ''sin6_scope_id'' = 24"
  by (simp_all add: size_of_def layout_align_def offset_of_def sockaddr_in_layout_def
      sockaddr_in6_layout_def align_up_def)

text \<open>What user space relies on when it prints an event.\<close>

definition printable_enter :: "enter_state \<Rightarrow> bool" where
  "printable_enter s \<longleftrightarrow> wf_enter s \<and> nul_terminated (es_comm s) \<and>
     (0 < es_str_len s \<longrightarrow> unat (es_str_len s) \<le> SYSCALL_STR_LEN \<and> nul_terminated (es_str s) \<and>
        length (c_str (es_str s)) = unat (es_str_len s) - 1) \<and>
     (es_sa_valid s \<noteq> 0 \<longrightarrow> es_sa_family s = AF_INET_VAL \<or> es_sa_family s = AF_INET6_VAL)"

definition printable :: "syscall_event \<Rightarrow> bool" where
  "printable e \<longleftrightarrow> wf_event e \<and> nul_terminated (ev_comm e) \<and>
     (0 < ev_str_len e \<longrightarrow> unat (ev_str_len e) \<le> SYSCALL_STR_LEN \<and> nul_terminated (ev_str e) \<and>
        length (c_str (ev_str e)) = unat (ev_str_len e) - 1) \<and>
     (ev_sa_valid e \<noteq> 0 \<longrightarrow> ev_sa_family e = AF_INET_VAL \<or> ev_sa_family e = AF_INET6_VAL)"

lemma fill_event_eq: "length (es_args s) = 6 \<Longrightarrow> fill_event i ctx s e = event_of i s (ctx ! 1)"
proof -
  assume "length (es_args s) = 6"
  then have "[es_args s ! 0, es_args s ! 1, es_args s ! 2, es_args s ! 3, es_args s ! 4, es_args s ! 5]
      = es_args s"
    by (intro nth_equalityI) (auto simp: less_Suc_eq numeral_eq_Suc)
  then show ?thesis by (simp add: fill_event_def event_of_def)
qed

lemma event_of_fields [simp]:
  "ev_tgid (event_of i s ret) = id_tgid i" "ev_pid (event_of i s ret) = id_pid i" "ev_ret (event_of i s ret) = ret"
  "ev_syscall_id (event_of i s ret) = es_syscall_id s" "ev_args (event_of i s ret) = es_args s"
  "ev_comm (event_of i s ret) = es_comm s" "ev_str (event_of i s ret) = es_str s"
  "ev_str_len (event_of i s ret) = es_str_len s"
  by (simp_all add: event_of_def)

lemma printable_event_of: "printable_enter s \<Longrightarrow> printable (event_of i s ret)"
  by (simp add: printable_enter_def printable_def event_of_def wf_enter_def wf_event_def)

lemma capture_in4_fields [simp]:
  "es_args (capture_in4 env u s) = es_args s" "es_comm (capture_in4 env u s) = es_comm s"
  "es_str (capture_in4 env u s) = es_str s" "es_str_len (capture_in4 env u s) = es_str_len s"
  "es_sa_family (capture_in4 env u s) = es_sa_family s" "es_sa_addr6 (capture_in4 env u s) = es_sa_addr6 s"
  "es_syscall_id (capture_in4 env u s) = es_syscall_id s"
  by (auto simp: capture_in4_def Let_def split: prod.splits)

lemma capture_in6_fields [simp]:
  "es_args (capture_in6 env u s) = es_args s" "es_comm (capture_in6 env u s) = es_comm s"
  "es_str (capture_in6 env u s) = es_str s" "es_str_len (capture_in6 env u s) = es_str_len s"
  "es_sa_family (capture_in6 env u s) = es_sa_family s"
  "es_syscall_id (capture_in6 env u s) = es_syscall_id s"
  by (auto simp: capture_in6_def Let_def split: prod.splits)

lemma maybe_capture_sockaddr_fields [simp]:
  "es_args (maybe_capture_sockaddr env s) = es_args s"
  "es_comm (maybe_capture_sockaddr env s) = es_comm s"
  "es_str (maybe_capture_sockaddr env s) = es_str s"
  "es_str_len (maybe_capture_sockaddr env s) = es_str_len s"
  "es_syscall_id (maybe_capture_sockaddr env s) = es_syscall_id s"
  by (simp_all add: maybe_capture_sockaddr_def Let_def split: prod.splits)

lemma maybe_capture_string_fields [simp]:
  "es_args (maybe_capture_string env s) = es_args s" "es_comm (maybe_capture_string env s) = es_comm s"
  "es_sa_addr6 (maybe_capture_string env s) = es_sa_addr6 s"
  "es_sa_valid (maybe_capture_string env s) = es_sa_valid s"
  "es_syscall_id (maybe_capture_string env s) = es_syscall_id s"
  by (auto simp: maybe_capture_string_def Let_def split: prod.splits)

lemma enter_snapshot_fields [simp]:
  "es_args (enter_snapshot env ctx) = syscall_args env (ctx ! 0)"
  "es_syscall_id (enter_snapshot env ctx) = ucast (ctx ! 1)"
  by (simp_all add: enter_snapshot_def Let_def)

lemma length_syscall_args [simp]: "length (syscall_args env regs) = 6"
  by (simp add: syscall_args_def)

context bpf_helpers
begin

lemma capture_string_printable:
  fixes s
  assumes "length (es_str s) = SYSCALL_STR_LEN" and "es_str_len s = 0"
  defines "s' \<equiv> maybe_capture_string env s"
  shows "length (es_str s') = SYSCALL_STR_LEN \<and>
    (0 < es_str_len s' \<longrightarrow> unat (es_str_len s') \<le> SYSCALL_STR_LEN \<and> nul_terminated (es_str s') \<and>
       length (c_str (es_str s')) = unat (es_str_len s') - 1)"
proof -
  have *: "length buf = SYSCALL_STR_LEN \<and>
    (0 < n \<longrightarrow> unat (of_int n :: u32) \<le> SYSCALL_STR_LEN \<and> nul_terminated buf \<and>
       length (c_str buf) = unat (of_int n :: u32) - 1)"
    if rd: "k_read_user_str env SYSCALL_STR_LEN (es_str s) p = (n, buf)" for p n buf
  proof (intro conjI impI)
    have le: "SYSCALL_STR_LEN \<le> length (es_str s)" using assms(1) by simp
    show "length buf = SYSCALL_STR_LEN" using str_length [OF le, of p] rd assms(1) by simp
    assume "0 < n"
    then have n: "nat n \<le> SYSCALL_STR_LEN" using str_result [OF le rd] by simp
    then have "nat n < 2 ^ 32" by (simp add: SYSCALL_STR_LEN_def)
    then have un: "unat (of_int n :: u32) = nat n"
      using \<open>0 < n\<close> by (simp add: nat_less_iff unsigned_of_int take_bit_int_eq_self nat_take_bit_eq)
    show "unat (of_int n :: u32) \<le> SYSCALL_STR_LEN" using un n by simp
    show "nul_terminated buf" using str_text(3) [OF le rd] \<open>0 < n\<close> by simp
    show "length (c_str buf) = unat (of_int n :: u32) - 1"
      using str_text(1) [OF le rd] \<open>0 < n\<close> un by simp
  qed
  show ?thesis
    unfolding s'_def maybe_capture_string_def Let_def
    using assms(1,2) * by (simp split: prod.splits)
qed

lemma capture_sockaddr_printable:
  assumes "length (es_sa_addr6 s) = 16" and "es_sa_valid s = 0"
  shows "length (es_sa_addr6 (maybe_capture_sockaddr env s)) = 16"
    and "es_sa_valid (maybe_capture_sockaddr env s) \<noteq> 0 \<Longrightarrow>
      es_sa_family (maybe_capture_sockaddr env s) \<in> {AF_INET_VAL, AF_INET6_VAL}"
proof -
  have "length (es_sa_addr6 (capture_in6 env u t)) = 16" if "length (es_sa_addr6 t) = 16" for u t
    using user_length [of 28 "replicate 28 0" u] that
    by (auto simp: capture_in6_def Let_def split: prod.splits)
  with assms(1) show "length (es_sa_addr6 (maybe_capture_sockaddr env s)) = 16"
    by (auto simp: maybe_capture_sockaddr_def Let_def split: prod.splits)
  show "es_sa_family (maybe_capture_sockaddr env s) \<in> {AF_INET_VAL, AF_INET6_VAL}"
    if "es_sa_valid (maybe_capture_sockaddr env s) \<noteq> 0"
    using that assms(2)
    by (auto simp: maybe_capture_sockaddr_def Let_def split: prod.splits if_splits)
qed

lemma printable_snapshot: "printable_enter (enter_snapshot env ctx)"
proof -
  define s0 where "s0 = enter_state_zero\<lparr>es_syscall_id := ucast (ctx ! 1),
    es_args := syscall_args env (ctx ! 0), es_comm := snd (k_comm env TASK_COMM_LEN (replicate TASK_COMM_LEN NUL))\<rparr>"
  have snap: "enter_snapshot env ctx = maybe_capture_sockaddr env (maybe_capture_string env s0)"
    by (simp add: enter_snapshot_def Let_def s0_def enter_state_zero_def)
  have "length (es_comm s0) = TASK_COMM_LEN"
    using comm_length [of TASK_COMM_LEN "replicate TASK_COMM_LEN NUL"] by (simp add: s0_def)
  moreover have "nul_terminated (es_comm s0)"
    using comm_ok [of TASK_COMM_LEN "replicate TASK_COMM_LEN NUL"]
    by (auto simp: s0_def TASK_COMM_LEN_def nul_terminated_def dest: in_set_takeD)
  moreover have "length (es_str s0) = SYSCALL_STR_LEN" "es_str_len s0 = 0"
    "length (es_sa_addr6 s0) = 16" "es_sa_valid s0 = 0" "length (es_args s0) = 6"
    by (simp_all add: s0_def enter_state_zero_def)
  ultimately show ?thesis
    using capture_string_printable [of s0]
      capture_sockaddr_printable [of "maybe_capture_string env s0"]
    unfolding snap printable_enter_def wf_enter_def by auto
qed

end

lemma lawful_snapshot: "tp_lawful tp \<Longrightarrow> printable_enter (enter_snapshot (tp_env tp) ctx)"
  by (auto simp: tp_lawful_def intro: bpf_helpers.printable_snapshot)

lemma printable_enter_args: "printable_enter s \<Longrightarrow> length (es_args s) = 6"
  by (simp add: printable_enter_def wf_enter_def)

end
