(* ===== verification/Strace_Tracer.thy ===== *)
theory Strace_Tracer
  imports Strace_Bpf
begin

text \<open>
  The two programs of \<open>libbpfstrace.bpf.c\<close> under every interleaving.  They refine
  the abstract tracer of \<open>Strace_Bpf\<close> (one pending call per thread); from its
  invariant follow where each event comes from, what user space may rely on when it
  prints one, and what an entry of \<open>inflight\<close> stands for.  The locale
  \<open>inflight_map\<close> is the contract of the map with the types of \<open>inflight\<close>.
\<close>

section \<open>The programs implement the abstract tracer\<close>

definition tracer_start :: "'m \<Rightarrow> 'm tracer" where
  "tracer_start m = \<lparr>inflight = m, events = []\<rparr>"

definition six_args :: "('m, u64, enter_state) map_ops \<Rightarrow> 'm \<Rightarrow> bool" where
  "six_args ops m \<longleftrightarrow> (\<forall>s \<in> ran (map_lookup_elem ops m). length (es_args s) = 6)"

text \<open>\<open>s\<close> is what some enter of thread \<open>i\<close> saw, and the thread has not exited since.\<close>

definition entered :: "tracepoint list \<Rightarrow> u64 \<Rightarrow> enter_state \<Rightarrow> bool" where
  "entered tps i s \<longleftrightarrow> (\<exists>xs env ctx ys. tps = xs @ Sys_Enter env ctx # ys \<and> k_pid_tgid env = i \<and>
     s = enter_snapshot env ctx \<and> (\<forall>tp \<in> set ys. tp_id tp = i \<longrightarrow> \<not> is_exit tp))"

text \<open>\<open>e\<close> pairs such an enter with a later exit of the same thread.\<close>

definition paired :: "tracepoint list \<Rightarrow> syscall_event \<Rightarrow> bool" where
  "paired tps e \<longleftrightarrow> (\<exists>xs env ctx rsv zs s. tps = xs @ Sys_Exit env ctx (Some rsv) # zs \<and>
     entered xs (k_pid_tgid env) s \<and> e = event_of (k_pid_tgid env) s (ctx ! 1))"

lemma tp_run_Nil [simp]: "tp_run ops tgt st [] = st"
  by (simp add: tp_run_def)

lemma tp_run_append: "tp_run ops tgt st (xs @ ys) = tp_run ops tgt (tp_run ops tgt st xs) ys"
  by (simp add: tp_run_def)

lemma tp_run_Cons: "tp_run ops tgt st (tp # tps) = tp_run ops tgt (tp_step ops tgt st tp) tps"
  by (simp add: tp_run_def)

lemma tp_run_snoc: "tp_run ops tgt st (tps @ [tp]) = tp_step ops tgt (tp_run ops tgt st tps) tp"
  by (simp add: tp_run_def)

lemma tracer_start_simps [simp]:
  "inflight (tracer_start m) = m" "events (tracer_start m) = []"
  by (simp_all add: tracer_start_def)

lemma abs_tracer_simps [simp]:
  "pending (abs_tracer ops st) = map_lookup_elem ops (inflight st)"
  "reported (abs_tracer ops st) = events st"
  by (simp_all add: abs_tracer_def)

lemma enteredI:
  "(\<And>tp. tp \<in> set ys \<Longrightarrow> tp_id tp = k_pid_tgid env \<Longrightarrow> \<not> is_exit tp) \<Longrightarrow>
     entered (xs @ Sys_Enter env ctx # ys) (k_pid_tgid env) (enter_snapshot env ctx)"
  unfolding entered_def by blast

lemma entered_snoc:
  assumes "entered tps i s" and "tp_id tp \<noteq> i \<or> \<not> is_exit tp"
  shows "entered (tps @ [tp]) i s"
proof -
  from assms(1) obtain xs env ctx ys where "tps = xs @ Sys_Enter env ctx # ys"
    and i: "k_pid_tgid env = i" and s: "s = enter_snapshot env ctx"
    and no_exit: "\<forall>t \<in> set ys. tp_id t = i \<longrightarrow> \<not> is_exit t"
    unfolding entered_def by blast
  then show ?thesis
    using enteredI [of "ys @ [tp]" env xs ctx] assms(2) by auto
qed

lemma entered_enter: "entered (tps @ [Sys_Enter env ctx]) (k_pid_tgid env) (enter_snapshot env ctx)"
  using enteredI [of "[]"] by simp

lemma paired_snoc: "paired tps e \<Longrightarrow> paired (tps @ [tp]) e"
  unfolding paired_def by (metis append.assoc append_Cons)

lemma paired_exit:
  "entered tps (k_pid_tgid env) s \<Longrightarrow>
     paired (tps @ [Sys_Exit env ctx (Some r)]) (event_of (k_pid_tgid env) s (ctx ! 1))"
  unfolding paired_def by blast

lemma events_step_mono: "set (events st) \<subseteq> set (events (tp_step ops tgt st tp))"
  by (cases tp) (auto split: prod.splits)

lemma events_run_mono: "set (events st) \<subseteq> set (events (tp_run ops tgt st tps))"
proof (induction tps rule: rev_induct)
  case (snoc tp tps)
  then show ?case using events_step_mono unfolding tp_run_snoc by (rule subset_trans)
qed simp

lemma step_filtered: "filtered_out tgt (tp_id tp) \<Longrightarrow> tp_step ops tgt st tp = st"
  by (cases tp) (simp_all add: handle_sys_enter_def handle_sys_exit_def Let_def)

locale inflight_map = bpf_map ops for ops :: "('m, u64, enter_state) map_ops"
begin

text \<open>The map after one step, seen through lookups.\<close>

lemma step_enter:
  assumes "\<not> filtered_out tgt (k_pid_tgid env)"
  shows "events (tp_step ops tgt st (Sys_Enter env ctx)) = events st"
    and "map_lookup_elem ops (inflight (tp_step ops tgt st (Sys_Enter env ctx))) =
      (if fst (map_update_elem ops (inflight st) (k_pid_tgid env) (enter_snapshot env ctx) BPF_ANY) = 0
       then (map_lookup_elem ops (inflight st))(k_pid_tgid env \<mapsto> enter_snapshot env ctx)
       else map_lookup_elem ops (inflight st))"
  using assms by (simp_all add: handle_sys_enter_def Let_def lookup_after_update)

lemma step_exit:
  assumes "\<not> filtered_out tgt (k_pid_tgid env)"
  shows "map_lookup_elem ops (inflight (tp_step ops tgt st (Sys_Exit env ctx rsv))) =
      (map_lookup_elem ops (inflight st))(k_pid_tgid env := None)"
    and "events (tp_step ops tgt st (Sys_Exit env ctx rsv)) = events st @
      (case (map_lookup_elem ops (inflight st) (k_pid_tgid env), rsv) of
         (Some s, Some e) \<Rightarrow> [fill_event (k_pid_tgid env) ctx s e] | _ \<Rightarrow> [])"
  using assms
  by (auto simp: handle_sys_exit_def Let_def delete fun_upd_idem split: option.splits)

lemma six_args_step:
  assumes "six_args ops (inflight st)"
  shows "six_args ops (inflight (tp_step ops tgt st tp))"
proof (cases "filtered_out tgt (tp_id tp)")
  case False
  with assms show ?thesis
    by (cases tp) (auto simp: six_args_def step_enter step_exit ran_def fun_upd_def simp del: tp_step.simps
        split: if_splits)
qed (use assms in \<open>simp add: step_filtered\<close>)

lemma six_args_run: "six_args ops (inflight st) \<Longrightarrow> six_args ops (inflight (tp_run ops tgt st tps))"
  by (induction tps rule: rev_induct) (simp_all add: tp_run_snoc six_args_step)

lemma six_args_lookup:
  "six_args ops m \<Longrightarrow> map_lookup_elem ops m i = Some s \<Longrightarrow> fill_event i ctx s e = event_of i s (ctx ! 1)"
  by (rule fill_event_eq) (auto simp: six_args_def ran_def)

lemma step_refines:
  assumes "six_args ops (inflight st)"
  shows "spec_step tgt (abs_tracer ops st) tp (abs_tracer ops (tp_step ops tgt st tp))"
proof (cases "filtered_out tgt (tp_id tp)")
  case True then show ?thesis by (simp add: step_filtered spec_step.other_process)
next
  case False
  show ?thesis
  proof (cases tp)
    case (Sys_Enter env ctx)
    with False have f: "\<not> filtered_out tgt (k_pid_tgid env)" by simp
    show ?thesis
      using spec_step.enter [OF f, of "abs_tracer ops st" ctx]
        spec_step.enter_lost [OF f, of "abs_tracer ops st" ctx] step_enter [OF f, of st ctx]
      by (auto simp: Sys_Enter abs_tracer_def simp del: tp_step.simps split: if_splits)
  next
    case (Sys_Exit env ctx rsv)
    with False have f: "\<not> filtered_out tgt (k_pid_tgid env)" by simp
    let ?i = "k_pid_tgid env"
    show ?thesis
    proof (cases "map_lookup_elem ops (inflight st) ?i")
      case None
      then show ?thesis
        using spec_step.exit_unmatched [OF f, of "abs_tracer ops st" ctx rsv] step_exit [OF f, of st ctx rsv]
        by (simp add: Sys_Exit abs_tracer_def fun_upd_idem del: tp_step.simps)
    next
      case (Some s)
      then show ?thesis
        using spec_step.exit_report [OF f, of "abs_tracer ops st" s ctx]
          spec_step.exit_lost [OF f, of "abs_tracer ops st" s ctx] step_exit [OF f, of st ctx rsv]
          six_args_lookup [OF assms Some]
        by (cases rsv) (simp_all add: Sys_Exit abs_tracer_def del: tp_step.simps)
    qed
  qed
qed

lemma run_refines:
  assumes "six_args ops (inflight st)"
  shows "spec_run tgt (abs_tracer ops st) tps (abs_tracer ops (tp_run ops tgt st tps))"
proof (induction tps rule: rev_induct)
  case Nil show ?case by simp
next
  case (snoc tp tps)
  show ?case
    unfolding tp_run_snoc
    using snoc.IH step_refines [OF six_args_run [OF assms]] by (rule spec_run.spec_snoc)
qed

lemma run_from_empty:
  assumes "map_lookup_elem ops m0 = Map.empty"
  shows "spec_run tgt \<lparr>pending = Map.empty, reported = []\<rparr> tps
    (abs_tracer ops (tp_run ops tgt (tracer_start m0) tps))"
  using run_refines [of "tracer_start m0" tgt tps] assms
  by (simp add: six_args_def abs_tracer_def)

end

definition inflight_ops :: "((u64 \<times> enter_state) list, u64, enter_state) map_ops" where
  "inflight_ops = hash_ops 16384"

interpretation inflight_hash: inflight_map inflight_ops
  unfolding inflight_ops_def by unfold_locales

section \<open>What every run of the abstract tracer keeps\<close>

definition spec_inv :: "i32 \<Rightarrow> tracepoint list \<Rightarrow> spec_tracer \<Rightarrow> bool" where
  "spec_inv tgt tps st \<longleftrightarrow>
     (\<forall>i s. pending st i = Some s \<longrightarrow> \<not> filtered_out tgt i \<and> entered tps i s) \<and>
     (\<forall>e \<in> set (reported st). \<not> (tgt \<noteq> 0 \<and> ev_tgid e \<noteq> tgt) \<and> paired tps e) \<and>
     length (reported st) \<le> length (filter is_exit tps)"

lemma spec_inv_step:
  assumes "spec_step tgt st tp st'" and "spec_inv tgt tps st"
  shows "spec_inv tgt (tps @ [tp]) st'"
  using assms
proof (cases rule: spec_step.cases)
  case (enter env ctx)
  with assms(2) show ?thesis
    by (auto simp: spec_inv_def entered_enter entered_snoc paired_snoc split: if_splits)
next
  case (exit_report env s ctx e)
  with assms(2) show ?thesis
    using paired_exit [of tps env s ctx e]
    by (auto simp: spec_inv_def entered_snoc paired_snoc filtered_out_def split: if_splits)
next
  case other_process
  then have "tp_id tp \<noteq> i" if "pending st' i = Some s" for i s
    using that assms(2) by (auto simp: spec_inv_def)
  with other_process assms(2) show ?thesis
    by (auto simp: spec_inv_def entered_snoc paired_snoc)
next
  case (exit_unmatched env ctx rsv)
  then have "tp_id tp \<noteq> i" if "pending st' i = Some s" for i s
    using that by auto
  with exit_unmatched assms(2) show ?thesis
    by (auto simp: spec_inv_def entered_snoc paired_snoc)
qed (auto simp: spec_inv_def entered_snoc paired_snoc split: if_splits)

lemma spec_run_inv:
  "spec_run tgt st0 tps st \<Longrightarrow> st0 = \<lparr>pending = Map.empty, reported = []\<rparr> \<Longrightarrow> spec_inv tgt tps st"
  by (induction rule: spec_run.induct) (auto simp: spec_inv_def [of _ "[]"] spec_inv_step)

section \<open>Lemmas for the properties\<close>

lemma inflight_mapI: "bpf_map ops \<Longrightarrow> inflight_map ops"
  by (rule inflight_map.intro)

lemma run_inv:
  assumes "bpf_map ops" and "map_lookup_elem ops m0 = Map.empty"
  shows "spec_inv tgt tps (abs_tracer ops (tp_run ops tgt (tracer_start m0) tps))"
  using inflight_map.run_from_empty [OF inflight_mapI [OF assms(1)] assms(2)] by (rule spec_run_inv) simp

lemma entered_printable: "entered tps i s \<Longrightarrow> \<forall>tp \<in> set tps. tp_lawful tp \<Longrightarrow> printable_enter s"
  by (auto simp: entered_def tp_lawful_def intro: bpf_helpers.printable_snapshot)

lemma paired_printable: "paired tps e \<Longrightarrow> \<forall>tp \<in> set tps. tp_lawful tp \<Longrightarrow> printable e"
  by (auto simp: paired_def intro!: printable_event_of entered_printable)

text \<open>Steps of other threads leave the entry of a thread alone.\<close>

context inflight_map
begin

lemma other_thread_step:
  "tp_id tp \<noteq> i \<Longrightarrow>
   map_lookup_elem ops (inflight (tp_step ops tgt st tp)) i = map_lookup_elem ops (inflight st) i"
  by (cases "filtered_out tgt (tp_id tp)"; cases tp)
    (auto simp: step_filtered step_enter step_exit simp del: tp_step.simps)

lemma other_threads_run:
  "\<forall>tp \<in> set tps. tp_id tp \<noteq> i \<Longrightarrow>
   map_lookup_elem ops (inflight (tp_run ops tgt st tps)) i = map_lookup_elem ops (inflight st) i"
  by (induction tps rule: rev_induct) (simp_all add: tp_run_snoc other_thread_step)

lemma exit_of_pending:
  assumes "\<not> filtered_out tgt (k_pid_tgid env)"
    and "map_lookup_elem ops (inflight st) (k_pid_tgid env) = Some s" and "length (es_args s) = 6"
  shows "event_of (k_pid_tgid env) s (ctx ! 1) \<in> set (events (tp_step ops tgt st (Sys_Exit env ctx (Some r))))"
  unfolding step_exit(2) [OF assms(1)] using assms(2) fill_event_eq [OF assms(3)] by simp

lemma call_is_reported:
  assumes "\<not> filtered_out tgt (k_pid_tgid env)" and "k_pid_tgid env' = k_pid_tgid env"
    and "\<forall>tp \<in> set ys. tp_id tp \<noteq> k_pid_tgid env"
    and "fst (map_update_elem ops (inflight (tp_run ops tgt st xs)) (k_pid_tgid env)
           (enter_snapshot env ctx) BPF_ANY) = 0"
  shows "event_of (k_pid_tgid env) (enter_snapshot env ctx) (ctx' ! 1) \<in>
    set (events (tp_run ops tgt st (xs @ Sys_Enter env ctx # ys @ Sys_Exit env' ctx' (Some r) # zs)))"
proof -
  let ?i = "k_pid_tgid env" and ?s = "enter_snapshot env ctx"
  let ?st1 = "tp_step ops tgt (tp_run ops tgt st xs) (Sys_Enter env ctx)"
  let ?st2 = "tp_run ops tgt ?st1 ys"
  have "map_lookup_elem ops (inflight ?st1) ?i = Some ?s"
    using assms(4) by (simp add: step_enter [OF assms(1)] del: tp_step.simps)
  then have "map_lookup_elem ops (inflight ?st2) (k_pid_tgid env') = Some ?s"
    using other_threads_run [OF assms(3)] assms(2) by simp
  then have "event_of ?i ?s (ctx' ! 1) \<in> set (events (tp_step ops tgt ?st2 (Sys_Exit env' ctx' (Some r))))"
    using exit_of_pending [of tgt env' ?st2 ?s ctx' r] assms(1,2) by simp
  with events_run_mono show ?thesis
    unfolding tp_run_append tp_run_Cons by blast
qed

end

text \<open>The pointer \<open>maybe_capture_string\<close> follows.\<close>

definition path_pointer :: "i32 \<Rightarrow> u64 list \<Rightarrow> u64" where
  "path_pointer nr as =
     (if nr = NR_OPENAT \<or> nr = NR_OPENAT2 then as ! 1 else if nr = NR_EXECVE then as ! 0 else 0)"

lemma maybe_capture_string_alt:
  "maybe_capture_string env s =
     (let p = path_pointer (es_syscall_id s) (es_args s); (n, buf) = k_read_user_str env SYSCALL_STR_LEN (es_str s) p
      in if p = 0 then s else if 0 < n then s\<lparr>es_str := buf, es_str_len := of_int n\<rparr> else s\<lparr>es_str := buf\<rparr>)"
  by (auto simp: maybe_capture_string_def path_pointer_def Let_def split: prod.splits)

lemma snapshot_string:
  assumes "path_pointer (ucast (ctx ! 1)) (syscall_args env (ctx ! 0)) = p" and "p \<noteq> 0"
    and "k_read_user_str env SYSCALL_STR_LEN (replicate SYSCALL_STR_LEN NUL) p = (n, buf)"
  shows "es_str (enter_snapshot env ctx) = buf"
    and "es_str_len (enter_snapshot env ctx) = (if 0 < n then of_int n else 0)"
  using assms
  by (simp_all add: enter_snapshot_def maybe_capture_string_alt Let_def enter_state_zero_def)

lemma chunk_mem_bytes:
  "off + n \<le> k \<Longrightarrow> chunk off n (mem_bytes mem p k) = mem_bytes mem (p + of_nat off) n"
  by (intro nth_equalityI) (auto simp: chunk_def mem_bytes_def algebra_simps)

text \<open>No probe read of user memory at \<open>p\<close> faults.\<close>

definition user_readable :: "kenv \<Rightarrow> u64 \<Rightarrow> bool" where
  "user_readable env p \<longleftrightarrow> (\<forall>n buf. fst (k_read_user env n buf p) = 0)"

context bpf_helpers
begin

lemma user_read:
  "user_readable env p \<Longrightarrow> length buf = n \<Longrightarrow> k_read_user env n buf p = (0, mem_bytes umem p n)"
  using user_ok [of n buf p] by (cases "k_read_user env n buf p") (simp add: user_readable_def prod_eq_iff)

lemma capture_sockaddr_cases:
  assumes "es_syscall_id s \<in> {NR_CONNECT, NR_BIND}" and "es_args s ! 1 = p" and "p \<noteq> 0"
    and "es_args s ! 2 = len" and "2 \<le> len" and "user_readable env p"
  defines "fam \<equiv> le_word (mem_bytes umem p 2)"
  shows "maybe_capture_sockaddr env s =
    (if fam = AF_INET_VAL \<and> 16 \<le> len then
       s\<lparr>es_sa_family := fam, es_sa_port := le_word (mem_bytes umem (p + 2) 2),
         es_sa_addr4 := le_word (mem_bytes umem (p + 4) 4), es_sa_valid := 1\<rparr>
     else if fam = AF_INET6_VAL \<and> 28 \<le> len then
       s\<lparr>es_sa_family := fam, es_sa_port := le_word (mem_bytes umem (p + 2) 2),
         es_sa_addr6 := mem_bytes umem (p + 8) 16,
         es_sa_scope_id := le_word (mem_bytes umem (p + 24) 4), es_sa_valid := 1\<rparr>
     else s\<lparr>es_sa_family := fam\<rparr>)"
proof -
  have id: "es_syscall_id s = NR_CONNECT \<or> es_syscall_id s = NR_BIND"
    and distinct: "NR_CONNECT \<noteq> NR_SENDTO" "NR_BIND \<noteq> NR_SENDTO" "NR_BIND \<noteq> NR_CONNECT"
    using assms(1) by (auto simp: nr_defs)
  have rd: "k_read_user env 2 (k_stack env 2) p = (0, mem_bytes umem p 2)"
    "k_read_user env 16 (replicate 16 0) p = (0, mem_bytes umem p 16)"
    "k_read_user env 28 (replicate 28 0) p = (0, mem_bytes umem p 28)"
    by (simp_all add: user_read assms(6) stack_length)
  have in4: "capture_in4 env p t = t\<lparr>es_sa_port := le_word (mem_bytes umem (p + 2) 2),
      es_sa_addr4 := le_word (mem_bytes umem (p + 4) 4), es_sa_valid := 1\<rparr>" for t
    by (simp add: capture_in4_def rd chunk_mem_bytes)
  have in6: "capture_in6 env p t = t\<lparr>es_sa_port := le_word (mem_bytes umem (p + 2) 2),
      es_sa_addr6 := mem_bytes umem (p + 8) 16,
      es_sa_scope_id := le_word (mem_bytes umem (p + 24) 4), es_sa_valid := 1\<rparr>" for t
    by (simp add: capture_in6_def rd chunk_mem_bytes)
  show ?thesis
    unfolding maybe_capture_sockaddr_def assms(2,4) Let_def rd fam_def
    using id assms(3,5) distinct by (elim disjE) (simp_all add: in4 in6 not_less)
qed

lemma core_reg_member:
  assumes "i < 31" and "fst (k_read_kernel env 8 (k_stack env 8) (regs + of_nat (8 * i))) = 0"
  shows "core_reg env (regs_member i) regs = le_word (mem_bytes kmem (regs + of_nat (8 * i)) 8)"
  using assms kernel_ok [of 8 "k_stack env 8" "regs + of_nat (8 * i)"]
  by (simp add: core_reg_def PT_REGS_CORE_def arm64_member_off_regs BPF_CORE_READ_def
      BPF_CORE_READ_INTO_def bpf_core_read_def stack_length)

lemma syscall_args_eq:
  "syscall_args env regs = map (\<lambda>i. core_reg env (regs_member i) regs) [0, 1, 2, 3, 4, 5]"
  by (simp add: syscall_args_def arm64_regs_def regs_member_literals)

end

lemma snapshot_path:
  assumes "bpf_helpers env umem kmem"
    and "path_pointer (ucast (ctx ! 1)) (syscall_args env (ctx ! 0)) = p" and "p \<noteq> 0"
    and "0 \<le> fst (k_read_user_str env SYSCALL_STR_LEN (replicate SYSCALL_STR_LEN NUL) p)"
  defines "s \<equiv> enter_snapshot env ctx"
  shows "c_str (es_str s) = c_str (mem_chars umem p 255) \<and>
    unat (es_str_len s) = length (c_str (mem_chars umem p 255)) + 1"
proof -
  obtain n buf where rd: "k_read_user_str env SYSCALL_STR_LEN (replicate SYSCALL_STR_LEN NUL) p = (n, buf)"
    by (cases "k_read_user_str env SYSCALL_STR_LEN (replicate SYSCALL_STR_LEN NUL) p")
  have len: "length (c_str (mem_chars umem p 255)) \<le> 255"
    using length_c_str_le [of "mem_chars umem p 255"] by simp
  note body = bpf_helpers.read_user_str_text [OF assms(1) _ _ assms(4)]
  have "c_str buf = c_str (mem_chars umem p 255)" "nat n = length (c_str (mem_chars umem p 255)) + 1"
    using body rd by (simp_all add: SYSCALL_STR_LEN_def)
  moreover from this len have "0 < n" "n < 4294967296" by linarith+
  ultimately show ?thesis
    using snapshot_string [OF assms(2,3) rd]
    by (simp add: s_def unsigned_of_int take_bit_int_eq_self nat_take_bit_eq)
qed

section \<open>A concrete thread\<close>

text \<open>Thread 43 of process 42; every register is \<open>0x0101010101010101\<close>, where user memory holds 2.\<close>

definition demo_env :: kenv where
  "demo_env = ref_kenv (\<lambda>_. True) (push_bit 32 42 + 43) 0 ''demo''
     (\<lambda>a. if a = 0x0101010101010101 then 2 else 0) (\<lambda>_. 1)"

lemma demo_helpers:
  "bpf_helpers demo_env (\<lambda>a. if a = 0x0101010101010101 then 2 else 0) (\<lambda>_. 1)"
  unfolding demo_env_def by unfold_locales

lemma demo_lawful: "tp_env tp = demo_env \<Longrightarrow> tp_lawful tp"
  using demo_helpers by (auto simp: tp_lawful_def)

lemma demo_id: "k_pid_tgid demo_env = push_bit 32 42 + 43"
  by (simp add: demo_env_def ref_kenv_def)

lemma demo_reads:
  "fst (k_read_kernel demo_env n buf p) = 0" "user_readable demo_env p"
  "0 \<le> fst (k_read_user_str demo_env SYSCALL_STR_LEN sb p)"
  by (simp_all add: demo_env_def ref_kenv_def user_readable_def Let_def SYSCALL_STR_LEN_def)

lemma inflight_empty: "map_lookup_elem inflight_ops [] = Map.empty"
  by (simp add: inflight_ops_def hash_ops_def)

lemma demo_unfiltered: "\<not> filtered_out 42 (k_pid_tgid demo_env)"
  by (simp add: demo_id filtered_out_def id_tgid_def push_bit_eq_mult drop_bit_eq_div)

lemma demo_args: "syscall_args demo_env regs = replicate 6 0x0101010101010101"
proof -
  have ones: "(le_word (mem_bytes (\<lambda>_. 1) p 8) :: u64) = 0x0101010101010101" for p
    by (simp add: mem_bytes_def le_word_def upt_conv_Cons)
  have "core_reg demo_env (regs_member i) regs = 0x0101010101010101" if "i < 31" for i
    using bpf_helpers.core_reg_member [OF demo_helpers that, of regs]
    unfolding ones by (simp add: demo_env_def ref_kenv_def)
  then show ?thesis
    by (simp add: bpf_helpers.syscall_args_eq [OF demo_helpers] numeral_eq_Suc)
qed

section \<open>Properties\<close>

text \<open>
  (C2) Refinement.  Whatever the map implementation that keeps the documented contract and whatever the
  interleaving of \<open>sys_enter\<close> and \<open>sys_exit\<close> over all threads, the two programs behave as the abstract
  tracer: at most one pending call per thread, reported at its exit or lost when the ring buffer is full.
\<close>

theorem programs_refine_tracer:
  assumes "bpf_map ops" and "map_lookup_elem ops m0 = Map.empty"
  shows "spec_run target_tgid \<lparr>pending = Map.empty, reported = []\<rparr> tps
    (abs_tracer ops (tp_run ops target_tgid (tracer_start m0) tps))"
  using inflight_map.run_from_empty [OF inflight_mapI [OF assms(1)] assms(2)] .

theorem programs_refine_tracer_witness:
  "spec_run 42 \<lparr>pending = Map.empty, reported = []\<rparr>
     [Sys_Enter demo_env [0, 63], Sys_Exit demo_env [0, 5] None]
     (abs_tracer inflight_ops (tp_run inflight_ops 42 (tracer_start [])
        [Sys_Enter demo_env [0, 63], Sys_Exit demo_env [0, 5] None]))"
  using programs_refine_tracer [OF inflight_hash.bpf_map_axioms, of "[]" 42]
  by (simp add: inflight_ops_def hash_ops_def)

text \<open>
  (C3) Provenance.  Every event user space receives pairs an earlier \<open>sys_enter\<close> with a \<open>sys_exit\<close> of the
  same thread, with no exit of that thread between them; it carries what the enter saw and what the exit
  returned.  With a target set it belongs to the target, and there are never more events than exits.
\<close>

theorem events_are_paired_calls:
  fixes tps :: "tracepoint list" and target_tgid :: i32
  assumes "bpf_map ops" and "map_lookup_elem ops m0 = Map.empty"
  defines "evs \<equiv> events (tp_run ops target_tgid (tracer_start m0) tps)"
  shows "(\<forall>e \<in> set evs. paired tps e \<and> (target_tgid \<noteq> 0 \<longrightarrow> ev_tgid e = target_tgid)) \<and>
    length evs \<le> length (filter is_exit tps)"
  using run_inv [OF assms(1,2), of target_tgid tps] by (auto simp: spec_inv_def evs_def)

theorem events_are_paired_calls_witness:
  "let evs = events (tp_run inflight_ops 42 (tracer_start []) [Sys_Enter demo_env [0, 63], Sys_Exit demo_env [0, 5] None])
   in length evs \<le> length (filter is_exit [Sys_Enter demo_env [0, 63], Sys_Exit demo_env [0, 5] None])"
  using events_are_paired_calls [OF inflight_hash.bpf_map_axioms, where ?m0.0 = "[]"
        and tps = "[Sys_Enter demo_env [0, 63], Sys_Exit demo_env [0, 5] None]" and target_tgid = 42]
  by (simp add: inflight_ops_def hash_ops_def)

text \<open>
  (C4) Completeness.  If storing the snapshot of an unfiltered \<open>sys_enter\<close> succeeds, the thread runs no other
  traced system call until its \<open>sys_exit\<close>, and the ring buffer then has room, the call is reported, whatever
  other threads do in between and whatever the reserved memory held.
\<close>

theorem entered_call_is_reported:
  assumes "bpf_map ops" and "\<not> filtered_out target_tgid (k_pid_tgid env)"
    and "k_pid_tgid env' = k_pid_tgid env" and "\<forall>tp \<in> set ys. tp_id tp \<noteq> k_pid_tgid env"
    and "fst (map_update_elem ops (inflight (tp_run ops target_tgid st xs)) (k_pid_tgid env)
           (enter_snapshot env ctx) BPF_ANY) = 0"
  shows "event_of (k_pid_tgid env) (enter_snapshot env ctx) (ctx' ! 1) \<in>
    set (events (tp_run ops target_tgid st (xs @ Sys_Enter env ctx # ys @ Sys_Exit env' ctx' (Some r) # zs)))"
  using inflight_map.call_is_reported [OF inflight_mapI [OF assms(1)] assms(2-5)] .

theorem entered_call_is_reported_witness:
  "event_of (push_bit 32 42 + 43) (enter_snapshot demo_env [0, 63]) 5 \<in>
     set (events (tp_run inflight_ops 42 (tracer_start [])
       [Sys_Enter demo_env [0, 63],
        Sys_Exit (demo_env\<lparr>k_pid_tgid := 7\<rparr>) [0, 1] None,
        Sys_Exit demo_env [0, 5] (Some (event_of 0 enter_state_zero 0))]))"
  using entered_call_is_reported [OF inflight_hash.bpf_map_axioms, of 42 demo_env demo_env
      "[Sys_Exit (demo_env\<lparr>k_pid_tgid := 7\<rparr>) [0, 1] None]" "tracer_start []" "[]" "[0, 63]" "[0, 5]"
      "event_of 0 enter_state_zero 0" "[]"]
  by (simp add: demo_id filtered_out_def id_tgid_def inflight_ops_def hash_ops_def BPF_ANY_def
      BPF_NOEXIST_def BPF_EXIST_def push_bit_eq_mult ucast_eq drop_bit_eq_div del: tp_step.simps)

text \<open>
  (C7) Printable events.  If the helpers keep their documented contract in every run of a program, each event
  has the array lengths of the C structure, a terminated \<open>comm\<close>, a terminated \<open>str\<close> whenever \<open>str_len\<close> is
  positive (with \<open>str_len\<close> counting the terminator), and \<open>sa_valid\<close> only with a family user space can print.
\<close>

theorem events_printable:
  assumes "bpf_map ops" and "map_lookup_elem ops m0 = Map.empty" and "\<forall>tp \<in> set tps. tp_lawful tp"
  shows "\<forall>e \<in> set (events (tp_run ops target_tgid (tracer_start m0) tps)). printable e"
  using run_inv [OF assms(1,2), of target_tgid tps] paired_printable [OF _ assms(3)]
  by (auto simp: spec_inv_def)

theorem events_printable_witness:
  "list_all printable (events (tp_run inflight_ops 42 (tracer_start [])
      [Sys_Enter demo_env [0, 56], Sys_Exit demo_env [0, 5] (Some (event_of 0 enter_state_zero 0))]))"
  unfolding list_all_iff
  by (rule events_printable [OF inflight_hash.bpf_map_axioms])
    (auto simp: inflight_ops_def hash_ops_def intro: demo_lawful)

text \<open>
  (C9) No stale entries.  An entry of \<open>inflight\<close> always is the snapshot of a call its thread entered and has
  not left, of a thread that passes the filter; a \<open>sys_exit\<close> of an unfiltered thread always removes its entry,
  also when the event is dropped.
\<close>

theorem inflight_entries_are_running_calls:
  fixes tps :: "tracepoint list" and target_tgid :: i32
  assumes "bpf_map ops" and "map_lookup_elem ops m0 = Map.empty"
  defines "st \<equiv> tp_run ops target_tgid (tracer_start m0) tps"
  shows "(map_lookup_elem ops (inflight st) i = Some s \<longrightarrow> entered tps i s \<and> \<not> filtered_out target_tgid i) \<and>
    (\<not> filtered_out target_tgid (k_pid_tgid env) \<longrightarrow>
       map_lookup_elem ops (inflight (tp_step ops target_tgid st (Sys_Exit env ctx rsv))) (k_pid_tgid env) = None)"
  using run_inv [OF assms(1,2), of target_tgid tps]
    inflight_map.step_exit(1) [OF inflight_mapI [OF assms(1)], of target_tgid env st ctx rsv]
  by (auto simp: spec_inv_def st_def simp del: tp_step.simps)

theorem inflight_entries_are_running_calls_witness:
  "map_lookup_elem inflight_ops (inflight (tp_step inflight_ops 42
      (tp_run inflight_ops 42 (tracer_start []) [Sys_Enter demo_env [0, 56]]) (Sys_Exit demo_env [0, 5] None)))
      (push_bit 32 42 + 43) = None"
  using inflight_entries_are_running_calls [OF inflight_hash.bpf_map_axioms inflight_empty, where target_tgid = 42
        and tps = "[Sys_Enter demo_env [0, 56]]" and env = demo_env and ctx = "[0, 5]" and rsv = None]
    demo_unfiltered
  unfolding demo_id by blast

text \<open>
  (C17) Captured paths.  For \<open>openat\<close>, \<open>openat2\<close> and \<open>execve\<close> with a readable, non-null path pointer the snapshot
  holds the text of the user's string, cut at 255 characters, and its length with the terminator.
\<close>

theorem captured_path_is_users_text:
  assumes "bpf_helpers env umem kmem"
    and "path_pointer (ucast (ctx ! 1)) (syscall_args env (ctx ! 0)) = p" and "p \<noteq> 0"
    and "0 \<le> fst (k_read_user_str env SYSCALL_STR_LEN (replicate SYSCALL_STR_LEN NUL) p)"
  defines "s \<equiv> enter_snapshot env ctx"
  shows "c_str (es_str s) = c_str (mem_chars umem p 255) \<and>
    unat (es_str_len s) = length (c_str (mem_chars umem p 255)) + 1"
  using snapshot_path [OF assms(1-4)] by (simp add: s_def)

theorem captured_path_is_users_text_witness:
  "unat (es_str_len (enter_snapshot demo_env [0, 56])) =
     length (c_str (mem_chars (\<lambda>a. if a = 0x0101010101010101 then 2 else 0) 0x0101010101010101 255)) + 1"
  using captured_path_is_users_text [OF demo_helpers, of "[0, 56]" "0x0101010101010101"]
  by (simp add: demo_args path_pointer_def NR_OPENAT_def demo_reads)

text \<open>
  (C18) Captured addresses.  For \<open>connect\<close> and \<open>bind\<close> with a readable, non-null address of at least two bytes the
  snapshot holds family, port and address exactly as they lie in user memory (network byte order untouched) when
  the address is a complete IPv4 or IPv6 one, and is marked invalid otherwise.
\<close>

theorem captured_address_is_users_address:
  assumes "bpf_helpers env umem kmem" and "ucast (ctx ! 1) \<in> {NR_CONNECT, NR_BIND}"
    and "syscall_args env (ctx ! 0) ! 1 = p" and "p \<noteq> 0"
    and "syscall_args env (ctx ! 0) ! 2 = len" and "2 \<le> len" and "user_readable env p"
  defines "s \<equiv> enter_snapshot env ctx" and "fam \<equiv> le_word (mem_bytes umem p 2)"
  shows "es_sa_family s = fam \<and>
    (fam = AF_INET_VAL \<and> 16 \<le> len \<longrightarrow> es_sa_valid s = 1 \<and> es_sa_port s = le_word (mem_bytes umem (p + 2) 2) \<and>
       es_sa_addr4 s = le_word (mem_bytes umem (p + 4) 4)) \<and>
    (fam = AF_INET6_VAL \<and> 28 \<le> len \<longrightarrow> es_sa_valid s = 1 \<and> es_sa_port s = le_word (mem_bytes umem (p + 2) 2) \<and>
       es_sa_addr6 s = mem_bytes umem (p + 8) 16 \<and> es_sa_scope_id s = le_word (mem_bytes umem (p + 24) 4)) \<and>
    (\<not> (fam = AF_INET_VAL \<and> 16 \<le> len) \<and> \<not> (fam = AF_INET6_VAL \<and> 28 \<le> len) \<longrightarrow> es_sa_valid s = 0)"
proof -
  define t where "t = maybe_capture_string env (enter_state_zero\<lparr>es_syscall_id := ucast (ctx ! 1),
    es_args := syscall_args env (ctx ! 0), es_comm := snd (k_comm env TASK_COMM_LEN (es_comm enter_state_zero))\<rparr>)"
  have s: "s = maybe_capture_sockaddr env t"
    by (simp add: s_def t_def enter_snapshot_def Let_def enter_state_zero_def)
  have t: "es_syscall_id t = ucast (ctx ! 1)" "es_args t = syscall_args env (ctx ! 0)" "es_sa_valid t = 0"
    by (simp_all add: t_def enter_state_zero_def)
  have "s = (if fam = AF_INET_VAL \<and> 16 \<le> len then
       t\<lparr>es_sa_family := fam, es_sa_port := le_word (mem_bytes umem (p + 2) 2),
         es_sa_addr4 := le_word (mem_bytes umem (p + 4) 4), es_sa_valid := 1\<rparr>
     else if fam = AF_INET6_VAL \<and> 28 \<le> len then
       t\<lparr>es_sa_family := fam, es_sa_port := le_word (mem_bytes umem (p + 2) 2),
         es_sa_addr6 := mem_bytes umem (p + 8) 16,
         es_sa_scope_id := le_word (mem_bytes umem (p + 24) 4), es_sa_valid := 1\<rparr>
     else t\<lparr>es_sa_family := fam\<rparr>)"
    unfolding s fam_def using assms(2-7) t by (intro bpf_helpers.capture_sockaddr_cases [OF assms(1)]) simp_all
  then show ?thesis using t(3) by (auto simp: AF_INET_VAL_def AF_INET6_VAL_def)
qed

theorem captured_address_is_users_address_witness:
  "es_sa_valid (enter_snapshot demo_env [0, 203]) = 1"
  using captured_address_is_users_address [OF demo_helpers, of "[0, 203]" "0x0101010101010101" "0x0101010101010101"]
  by (simp add: demo_args nr_defs demo_reads mem_bytes_def upt_conv_Cons le_word_def AF_INET_VAL_def)

text \<open>
  \<open>sendto\<close> looks in the wrong place.  The destination of \<open>sendto\<close> is its fifth argument, but no captured
  field depends on that argument: replacing \<open>args[4]\<close> by any other pointer leaves the captured address as it was.
\<close>

theorem captured_address_ignores_dest_addr:
  "maybe_capture_sockaddr env (s\<lparr>es_args := (es_args s)[4 := dest_addr]\<rparr>) =
     (maybe_capture_sockaddr env s)\<lparr>es_args := (es_args s)[4 := dest_addr]\<rparr>"
proof -
  have in4: "capture_in4 env p (t\<lparr>es_args := as\<rparr>) = (capture_in4 env p t)\<lparr>es_args := as\<rparr>" for p t as
    by (simp add: capture_in4_def split: prod.splits)
  have in6: "capture_in6 env p (t\<lparr>es_args := as\<rparr>) = (capture_in6 env p t)\<lparr>es_args := as\<rparr>" for p t as
    by (simp add: capture_in6_def split: prod.splits)
  have fam: "s\<lparr>es_args := as, es_sa_family := f\<rparr> = s\<lparr>es_sa_family := f, es_args := as\<rparr>" for as f
    by simp
  show ?thesis
    unfolding maybe_capture_sockaddr_def Let_def
    by (simp add: fam in4 in6 split: prod.splits)
qed

text \<open>
  Captured arguments.  When the six reads of the saved registers succeed, the arguments of a snapshot are the
  words \<open>x0\<close> to \<open>x5\<close> of the \<open>pt_regs\<close> the tracepoint was given.
\<close>

theorem captured_args_are_registers:
  assumes "bpf_helpers env umem kmem"
    and "\<forall>i < 6. fst (k_read_kernel env 8 (k_stack env 8) (ctx ! 0 + of_nat (8 * i))) = 0"
  shows "es_args (enter_snapshot env ctx) = map (\<lambda>i. le_word (mem_bytes kmem (ctx ! 0 + of_nat (8 * i)) 8)) [0..<6]"
proof -
  have "core_reg env (regs_member i) (ctx ! 0) = le_word (mem_bytes kmem (ctx ! 0 + of_nat (8 * i)) 8)"
    if "i < 6" for i
    using bpf_helpers.core_reg_member [OF assms(1), of i "ctx ! 0"] assms(2) that by simp
  moreover have "[0..<6] = [0, 1, 2, 3, 4, 5]" by (simp add: upt_conv_Cons)
  ultimately show ?thesis
    by (simp add: bpf_helpers.syscall_args_eq [OF assms(1)])
qed

theorem captured_args_are_registers_witness:
  "es_args (enter_snapshot demo_env [0x4000, 63]) =
     map (\<lambda>i. le_word (mem_bytes (\<lambda>_. 1) (0x4000 + of_nat (8 * i)) 8)) [0..<6]"
  using captured_args_are_registers [OF demo_helpers, of "[0x4000, 63]"]
  by (simp add: demo_reads)

end
