(* ===== verification/Strace_Format.thy ===== *)
theory Strace_Format
  imports Strace_Names Strace_Tracer "HOL-Library.Monad_Syntax"
begin

text \<open>
  The output side of \<open>libbpfstrace.c\<close>: formatting of flags, socket addresses and
  arguments and the ring-buffer callback \<open>handle_event\<close>.  \<open>None\<close> stands for
  undefined behaviour of the C code: reading a \<open>char\<close> array past its end, writing
  with an offset beyond a buffer, or negating the least \<open>long long\<close>; the theorems show
  that the first two never occur.  \<open>inet_ntop\<close> and \<open>strerror\<close> are the C library's and
  parameters of the model.
\<close>

section \<open>Library parameters\<close>

record text_lib =
  inet_ntop4 :: "u32 \<Rightarrow> string option"
  inet_ntop6 :: "bytes \<Rightarrow> string option"
  lib_strerror :: "i32 \<Rightarrow> string"

text \<open>
  Documented of \<open>inet_ntop\<close>: the text fits \<open>INET_ADDRSTRLEN\<close> and \<open>INET6_ADDRSTRLEN\<close> and holds no NUL.  Nothing is
  assumed of the messages of \<open>strerror\<close>.
\<close>

locale text_library =
  fixes lib :: text_lib
  assumes ntop4: "inet_ntop4 lib a = Some t \<Longrightarrow> length t < 16 \<and> NUL \<notin> set t"
    and ntop6: "inet_ntop6 lib b = Some t \<Longrightarrow> length t < 46 \<and> NUL \<notin> set t"

text \<open>\<open>%s\<close> of a \<open>char\<close> array: it has to be terminated inside the array.\<close>

definition array_str :: "string \<Rightarrow> string option" where
  "array_str buf = (if nul_terminated buf then Some (c_str buf) else None)"

text \<open>\<open>ntohs\<close> on a little-endian machine.\<close>

definition ntohs :: "u16 \<Rightarrow> u16" where
  "ntohs x = or (push_bit 8 x) (drop_bit 8 x)"

section \<open>Constants of the headers\<close>

text \<open>System call numbers (\<open>uapi/asm-generic/unistd.h\<close>).\<close>

definition nr_read :: i32 where "nr_read = 63"
definition nr_write :: i32 where "nr_write = 64"
definition nr_ioctl :: i32 where "nr_ioctl = 29"
definition nr_futex :: i32 where "nr_futex = 98"
definition nr_openat :: i32 where "nr_openat = 56"
definition nr_openat2 :: i32 where "nr_openat2 = 437"
definition nr_execve :: i32 where "nr_execve = 221"
definition nr_connect :: i32 where "nr_connect = 203"
definition nr_bind :: i32 where "nr_bind = 200"
definition nr_sendto :: i32 where "nr_sendto = 206"
definition nr_epoll_pwait :: i32 where "nr_epoll_pwait = 22"

lemmas user_nr_defs =
  nr_read_def nr_write_def nr_ioctl_def nr_futex_def nr_openat_def nr_openat2_def nr_execve_def
  nr_connect_def nr_bind_def nr_sendto_def nr_epoll_pwait_def

text \<open>\<open>open\<close> flags: \<open>arch/arm64\<close> first, then the defaults of \<open>asm-generic/fcntl.h\<close> under \<open>#ifndef\<close>.\<close>

definition arm64_fcntl_h :: "(string \<times> u64) list" where
  "arm64_fcntl_h =
     [(''O_DIRECTORY'', 0x4000), (''O_NOFOLLOW'', 0x8000), (''O_DIRECT'', 0x10000), (''O_LARGEFILE'', 0x20000)]"

definition generic_fcntl_h :: "(string \<times> u64) list" where
  "generic_fcntl_h =
     [(''O_ACCMODE'', 3), (''O_RDONLY'', 0), (''O_WRONLY'', 1), (''O_RDWR'', 2),
      (''O_CREAT'', 0x40), (''O_EXCL'', 0x80), (''O_NOCTTY'', 0x100), (''O_TRUNC'', 0x200),
      (''O_APPEND'', 0x400), (''O_NONBLOCK'', 0x800), (''O_DSYNC'', 0x1000), (''FASYNC'', 0x2000),
      (''O_DIRECT'', 0x4000), (''O_LARGEFILE'', 0x8000), (''O_DIRECTORY'', 0x10000),
      (''O_NOFOLLOW'', 0x20000), (''O_NOATIME'', 0x40000), (''O_CLOEXEC'', 0x80000),
      (''__O_SYNC'', 0x100000), (''O_SYNC'', 0x101000), (''O_PATH'', 0x200000),
      (''__O_TMPFILE'', 0x400000), (''O_TMPFILE'', 0x404000), (''O_NDELAY'', 0x800)]"

definition fcntl_val :: "string \<Rightarrow> u64" where
  "fcntl_val n = (case map_of (arm64_fcntl_h @ generic_fcntl_h) n of None \<Rightarrow> 0 | Some v \<Rightarrow> v)"

section \<open>Formatting\<close>

definition format_sockaddr :: "text_lib \<Rightarrow> syscall_event \<Rightarrow> nat \<Rightarrow> string" where
  "format_sockaddr lib e sz =
     (if ev_sa_valid e = 0 then snprintf sz ''NULL''
      else if ev_sa_family e = AF_INET_VAL then
        (case inet_ntop4 lib (ev_sa_addr4 e) of
           None \<Rightarrow> snprintf sz (''{sa_family=AF_INET, sin_port='' @ fmt_u (ntohs (ev_sa_port e)) @ '', sin_addr=?}'')
         | Some ip \<Rightarrow> snprintf sz (''{sa_family=AF_INET, sin_port='' @ fmt_u (ntohs (ev_sa_port e)) @
             '', sin_addr='' @ ''\"'' @ ip @ ''\"}''))
      else if ev_sa_family e = AF_INET6_VAL then
        (case inet_ntop6 lib (ev_sa_addr6 e) of
           None \<Rightarrow> snprintf sz (''{sa_family=AF_INET6, sin6_port='' @ fmt_u (ntohs (ev_sa_port e)) @ '', sin6_addr=?}'')
         | Some ip \<Rightarrow> snprintf sz (''{sa_family=AF_INET6, sin6_port='' @ fmt_u (ntohs (ev_sa_port e)) @
             '', sin6_addr='' @ ''\"'' @ ip @ ''\", sin6_scope_id='' @ fmt_u (ev_sa_scope_id e) @ ''}''))
      else snprintf sz (''{sa_family='' @ fmt_u (ev_sa_family e) @ ''}''))"

text \<open>
  \<open>off += snprintf (buf + off, sz - off, \<dots>)\<close>: the state is \<open>off\<close> and the text in \<open>buf\<close>.
  With \<open>off = sz\<close> nothing is written; beyond it \<open>sz - off\<close> wraps around and the
  write is out of bounds.
\<close>

definition append_at :: "nat \<Rightarrow> string \<Rightarrow> nat \<times> string \<Rightarrow> (nat \<times> string) option" where
  "append_at sz s st =
     (let (off, t) = st
      in if sz < off then None
         else Some (off + length s, if off < sz then t @ snprintf (sz - off) s else t))"

fun APPEND_FLAGS :: "nat \<Rightarrow> u64 \<Rightarrow> string list \<Rightarrow> nat \<times> string \<Rightarrow> (nat \<times> string) option" where
  "APPEND_FLAGS sz flags [] st = Some st"
| "APPEND_FLAGS sz flags (f # fs) st =
     (if and flags (fcntl_val f) \<noteq> 0
      then append_at sz (CHR ''|'' # f) st \<bind> APPEND_FLAGS sz flags fs
      else APPEND_FLAGS sz flags fs st)"

definition openat_flag_names :: "string list" where
  "openat_flag_names =
     [''O_CREAT'', ''O_EXCL'', ''O_NOCTTY'', ''O_TRUNC'', ''O_APPEND'', ''O_NONBLOCK'', ''O_DSYNC'',
      ''O_SYNC'', ''O_CLOEXEC'', ''O_DIRECTORY'', ''O_NOFOLLOW'']"

definition access_text :: "u64 \<Rightarrow> string" where
  "access_text access =
     (if access = fcntl_val ''O_RDONLY'' then ''O_RDONLY''
      else if access = fcntl_val ''O_WRONLY'' then ''O_WRONLY''
      else if access = fcntl_val ''O_RDWR'' then ''O_RDWR''
      else ''0x'' @ fmt_x access)"

definition format_openat_flags :: "u64 \<Rightarrow> nat \<Rightarrow> string option" where
  "format_openat_flags flags sz =
     do {
       st \<leftarrow> append_at sz (access_text (and flags (fcntl_val ''O_ACCMODE''))) (0, []);
       st \<leftarrow> APPEND_FLAGS sz flags openat_flag_names st;
       Some (snd st)
     }"

text \<open>\<open>arg_string\<close>: \<open>None\<close> is \<open>NULL\<close>, else the array that is then printed.\<close>

definition arg_string :: "syscall_event \<Rightarrow> string option" where
  "arg_string e =
     (if 0 < ev_str_len e \<and> unat (ev_str_len e) \<le> SYSCALL_STR_LEN then Some (ev_str e) else None)"

text \<open>A \<open>pathname="%s"\<close> or \<open>pathname=%#llx\<close> argument.\<close>

definition path_text :: "syscall_event \<Rightarrow> u64 \<Rightarrow> string option" where
  "path_text e p =
     (case arg_string e of
        None \<Rightarrow> Some (fmt_alt_x p)
      | Some s \<Rightarrow> do { t \<leftarrow> array_str s; Some (''\"'' @ t @ ''\"'') })"

definition call_text :: "text_lib \<Rightarrow> syscall_event \<Rightarrow> string \<Rightarrow> string option" where
  "call_text lib e name =
     (let u = (\<lambda>i. fmt_u (ev_args e ! i)); x = (\<lambda>i. fmt_alt_x (ev_args e ! i));
          d = (\<lambda>i. fmt_d (ev_args e ! i)); o' = (\<lambda>i. fmt_alt_o (ev_args e ! i));
          nr = ev_syscall_id e
      in if nr = nr_read \<or> nr = nr_write then
           Some (name @ ''(fd='' @ u 0 @ '', buf='' @ x 1 @ '', count='' @ u 2 @ '')'')
         else if nr = nr_ioctl then
           Some (name @ ''(fd='' @ u 0 @ '', cmd='' @ x 1 @ '', arg='' @ x 2 @ '')'')
         else if nr = nr_futex then
           Some (name @ ''(uaddr='' @ x 0 @ '', op='' @ futex_op_name (ev_args e ! 1) @ ''('' @ x 1 @
             ''), val='' @ u 2 @ '', timeout/uaddr2='' @ x 3 @ '', val3='' @ x 4 @ '')'')
         else if nr = nr_openat then
           do {
             flags \<leftarrow> format_openat_flags (ev_args e ! 2) 256;
             path \<leftarrow> path_text e (ev_args e ! 1);
             Some (name @ ''(dfd='' @ d 0 @ '', pathname='' @ path @ '', flags='' @ flags @ '', mode='' @ o' 3 @ '')'')
           }
         else if nr = nr_openat2 then
           do {
             path \<leftarrow> path_text e (ev_args e ! 1);
             Some (name @ ''(dfd='' @ d 0 @ '', pathname='' @ path @ '', how='' @ x 2 @ '', size='' @ u 3 @ '')'')
           }
         else if nr = nr_execve then
           do {
             path \<leftarrow> path_text e (ev_args e ! 0);
             Some (name @ ''(filename='' @ path @ '', argv='' @ x 1 @ '', envp='' @ x 2 @ '')'')
           }
         else if nr = nr_connect \<or> nr = nr_bind \<or> nr = nr_sendto then
           (let addr = format_sockaddr lib e 192
            in if nr = nr_sendto then
                 Some (name @ ''(sockfd='' @ u 0 @ '', buf='' @ x 1 @ '', len='' @ u 2 @ '', flags='' @ x 3 @
                   '', dest_addr='' @ addr @ '', addrlen='' @ u 5 @ '')'')
               else Some (name @ ''(sockfd='' @ u 0 @ '', addr='' @ addr @ '', addrlen='' @ u 2 @ '')''))
         else if nr = nr_epoll_pwait then
           Some (name @ ''(epfd='' @ u 0 @ '', events='' @ x 1 @ '', maxevents='' @ u 2 @ '', timeout='' @ d 3 @
             '', sigmask='' @ x 4 @ '', sigsetsize='' @ u 5 @ '')'')
         else Some (name @ ''('' @ x 0 @ '', '' @ x 1 @ '', '' @ x 2 @ '', '' @ x 3 @ '', '' @ x 4 @ '', '' @ x 5 @ '')''))"

definition format_syscall_args :: "text_lib \<Rightarrow> syscall_event \<Rightarrow> string \<Rightarrow> nat \<Rightarrow> string option" where
  "format_syscall_args lib e name out_sz = map_option (snprintf out_sz) (call_text lib e name)"

definition ret_text :: "text_lib \<Rightarrow> syscall_event \<Rightarrow> string option" where
  "ret_text lib e =
     (if sint (ev_ret e) < 0
      then if sint (ev_ret e) = - (2 ^ 63) then None
           else let err = ucast (- ev_ret e) :: i32
                in Some (''-1 '' @ errno_name err @ '' ('' @ lib_strerror lib err @ '')'')
      else Some (fmt_d (ev_ret e)))"

text \<open>\<open>handle_event\<close>: its result is always 0; what it prints is the output.\<close>

definition handle_event :: "text_lib \<Rightarrow> unistd_cfg \<Rightarrow> bytes \<Rightarrow> (int \<times> string) option" where
  "handle_event lib cfg data =
     (if length data < size_of syscall_event_layout then Some (0, [])
      else let e = load_event data; name = strip_sys (syscall_name cfg (ev_syscall_id e))
           in do {
                callbuf \<leftarrow> format_syscall_args lib e name 512;
                ret \<leftarrow> ret_text lib e;
                comm \<leftarrow> array_str (ev_comm e);
                Some (0, ''pid='' @ fmt_d (ev_tgid e) @ '' tid='' @ fmt_d (ev_pid e) @ '' comm='' @ comm @ '' '' @
                  callbuf @ '' = '' @ snprintf 128 ret @ '' [id='' @ fmt_d (ev_syscall_id e) @ '']\<newline>'')
              })"

end
