(* ===== verification/Unistd_Nr.thy ===== *)
theory Unistd_Nr
  imports Unistd Strace_Names
begin

text \<open>
  The \<open>__NR\<close> macros of \<open>uapi/asm-generic/unistd.h\<close>, by which programs call the system calls: each \<open>#define\<close> with the
  condition it stands under, in the order of the header, and the names of the calls that differ between 32 and 64 bits
  (lines 881--917).  They are written independently of the calls the header lists with them, so that the names
  \<open>syscall_name\<close> prints can be compared with the names a program uses.  \<open>__NR_arch_specific_syscall\<close>, which only marks
  the start of a range, is left out.
\<close>

section \<open>The macros\<close>

definition nr_macros_1 :: "(guard \<times> string \<times> int) list" where
  "nr_macros_1 = [
     (Always, ''__NR_io_setup'', 0), (Always, ''__NR_io_destroy'', 1), (Always, ''__NR_io_submit'', 2),
     (Always, ''__NR_io_cancel'', 3), (Want_Time32, ''__NR_io_getevents'', 4), (Always, ''__NR_setxattr'', 5),
     (Always, ''__NR_lsetxattr'', 6), (Always, ''__NR_fsetxattr'', 7), (Always, ''__NR_getxattr'', 8),
     (Always, ''__NR_lgetxattr'', 9), (Always, ''__NR_fgetxattr'', 10), (Always, ''__NR_listxattr'', 11),
     (Always, ''__NR_llistxattr'', 12), (Always, ''__NR_flistxattr'', 13), (Always, ''__NR_removexattr'', 14),
     (Always, ''__NR_lremovexattr'', 15), (Always, ''__NR_fremovexattr'', 16), (Always, ''__NR_getcwd'', 17),
     (Always, ''__NR_lookup_dcookie'', 18), (Always, ''__NR_eventfd2'', 19), (Always, ''__NR_epoll_create1'', 20),
     (Always, ''__NR_epoll_ctl'', 21), (Always, ''__NR_epoll_pwait'', 22), (Always, ''__NR_dup'', 23),
     (Always, ''__NR_dup3'', 24), (Always, ''__NR3264_fcntl'', 25), (Always, ''__NR_inotify_init1'', 26),
     (Always, ''__NR_inotify_add_watch'', 27), (Always, ''__NR_inotify_rm_watch'', 28), (Always, ''__NR_ioctl'', 29),
     (Always, ''__NR_ioprio_set'', 30), (Always, ''__NR_ioprio_get'', 31), (Always, ''__NR_flock'', 32),
     (Always, ''__NR_mknodat'', 33), (Always, ''__NR_mkdirat'', 34), (Always, ''__NR_unlinkat'', 35),
     (Always, ''__NR_symlinkat'', 36), (Always, ''__NR_linkat'', 37), (Want_Renameat, ''__NR_renameat'', 38),
     (Always, ''__NR_umount2'', 39), (Always, ''__NR_mount'', 40), (Always, ''__NR_pivot_root'', 41),
     (Always, ''__NR_nfsservctl'', 42), (Always, ''__NR3264_statfs'', 43), (Always, ''__NR3264_fstatfs'', 44),
     (Always, ''__NR3264_truncate'', 45), (Always, ''__NR3264_ftruncate'', 46), (Always, ''__NR_fallocate'', 47),
     (Always, ''__NR_faccessat'', 48), (Always, ''__NR_chdir'', 49), (Always, ''__NR_fchdir'', 50),
     (Always, ''__NR_chroot'', 51), (Always, ''__NR_fchmod'', 52), (Always, ''__NR_fchmodat'', 53),
     (Always, ''__NR_fchownat'', 54), (Always, ''__NR_fchown'', 55), (Always, ''__NR_openat'', 56),
     (Always, ''__NR_close'', 57), (Always, ''__NR_vhangup'', 58), (Always, ''__NR_pipe2'', 59),
     (Always, ''__NR_quotactl'', 60), (Always, ''__NR_getdents64'', 61), (Always, ''__NR3264_lseek'', 62),
     (Always, ''__NR_read'', 63), (Always, ''__NR_write'', 64), (Always, ''__NR_readv'', 65),
     (Always, ''__NR_writev'', 66), (Always, ''__NR_pread64'', 67), (Always, ''__NR_pwrite64'', 68),
     (Always, ''__NR_preadv'', 69), (Always, ''__NR_pwritev'', 70), (Always, ''__NR3264_sendfile'', 71),
     (Want_Time32, ''__NR_pselect6'', 72), (Want_Time32, ''__NR_ppoll'', 73), (Always, ''__NR_signalfd4'', 74),
     (Always, ''__NR_vmsplice'', 75), (Always, ''__NR_splice'', 76), (Always, ''__NR_tee'', 77),
     (Always, ''__NR_readlinkat'', 78), (Want_Stat, ''__NR3264_fstatat'', 79), (Want_Stat, ''__NR3264_fstat'', 80),
     (Always, ''__NR_sync'', 81), (Always, ''__NR_fsync'', 82), (Always, ''__NR_fdatasync'', 83),
     (Want_Sync_File_Range2, ''__NR_sync_file_range2'', 84), (No_Sync_File_Range2, ''__NR_sync_file_range'', 84),
     (Always, ''__NR_timerfd_create'', 85), (Want_Time32, ''__NR_timerfd_settime'', 86),
     (Want_Time32, ''__NR_timerfd_gettime'', 87), (Want_Time32, ''__NR_utimensat'', 88), (Always, ''__NR_acct'', 89),
     (Always, ''__NR_capget'', 90), (Always, ''__NR_capset'', 91), (Always, ''__NR_personality'', 92),
     (Always, ''__NR_exit'', 93), (Always, ''__NR_exit_group'', 94), (Always, ''__NR_waitid'', 95),
     (Always, ''__NR_set_tid_address'', 96), (Always, ''__NR_unshare'', 97), (Want_Time32, ''__NR_futex'', 98),
     (Always, ''__NR_set_robust_list'', 99), (Always, ''__NR_get_robust_list'', 100),
     (Want_Time32, ''__NR_nanosleep'', 101), (Always, ''__NR_getitimer'', 102), (Always, ''__NR_setitimer'', 103),
     (Always, ''__NR_kexec_load'', 104), (Always, ''__NR_init_module'', 105), (Always, ''__NR_delete_module'', 106),
     (Always, ''__NR_timer_create'', 107), (Want_Time32, ''__NR_timer_gettime'', 108)]"

definition nr_macros_2 :: "(guard \<times> string \<times> int) list" where
  "nr_macros_2 = [
     (Always, ''__NR_timer_getoverrun'', 109), (Want_Time32, ''__NR_timer_settime'', 110),
     (Always, ''__NR_timer_delete'', 111), (Want_Time32, ''__NR_clock_settime'', 112),
     (Want_Time32, ''__NR_clock_gettime'', 113), (Want_Time32, ''__NR_clock_getres'', 114),
     (Want_Time32, ''__NR_clock_nanosleep'', 115), (Always, ''__NR_syslog'', 116), (Always, ''__NR_ptrace'', 117),
     (Always, ''__NR_sched_setparam'', 118), (Always, ''__NR_sched_setscheduler'', 119),
     (Always, ''__NR_sched_getscheduler'', 120), (Always, ''__NR_sched_getparam'', 121),
     (Always, ''__NR_sched_setaffinity'', 122), (Always, ''__NR_sched_getaffinity'', 123),
     (Always, ''__NR_sched_yield'', 124), (Always, ''__NR_sched_get_priority_max'', 125),
     (Always, ''__NR_sched_get_priority_min'', 126), (Want_Time32, ''__NR_sched_rr_get_interval'', 127),
     (Always, ''__NR_restart_syscall'', 128), (Always, ''__NR_kill'', 129), (Always, ''__NR_tkill'', 130),
     (Always, ''__NR_tgkill'', 131), (Always, ''__NR_sigaltstack'', 132), (Always, ''__NR_rt_sigsuspend'', 133),
     (Always, ''__NR_rt_sigaction'', 134), (Always, ''__NR_rt_sigprocmask'', 135),
     (Always, ''__NR_rt_sigpending'', 136), (Want_Time32, ''__NR_rt_sigtimedwait'', 137),
     (Always, ''__NR_rt_sigqueueinfo'', 138), (Always, ''__NR_rt_sigreturn'', 139),
     (Always, ''__NR_setpriority'', 140), (Always, ''__NR_getpriority'', 141), (Always, ''__NR_reboot'', 142),
     (Always, ''__NR_setregid'', 143), (Always, ''__NR_setgid'', 144), (Always, ''__NR_setreuid'', 145),
     (Always, ''__NR_setuid'', 146), (Always, ''__NR_setresuid'', 147), (Always, ''__NR_getresuid'', 148),
     (Always, ''__NR_setresgid'', 149), (Always, ''__NR_getresgid'', 150), (Always, ''__NR_setfsuid'', 151),
     (Always, ''__NR_setfsgid'', 152), (Always, ''__NR_times'', 153), (Always, ''__NR_setpgid'', 154),
     (Always, ''__NR_getpgid'', 155), (Always, ''__NR_getsid'', 156), (Always, ''__NR_setsid'', 157),
     (Always, ''__NR_getgroups'', 158), (Always, ''__NR_setgroups'', 159), (Always, ''__NR_uname'', 160),
     (Always, ''__NR_sethostname'', 161), (Always, ''__NR_setdomainname'', 162),
     (Want_Set_Get_Rlimit, ''__NR_getrlimit'', 163), (Want_Set_Get_Rlimit, ''__NR_setrlimit'', 164),
     (Always, ''__NR_getrusage'', 165), (Always, ''__NR_umask'', 166), (Always, ''__NR_prctl'', 167),
     (Always, ''__NR_getcpu'', 168), (Want_Time32, ''__NR_gettimeofday'', 169),
     (Want_Time32, ''__NR_settimeofday'', 170), (Want_Time32, ''__NR_adjtimex'', 171),
     (Always, ''__NR_getpid'', 172), (Always, ''__NR_getppid'', 173), (Always, ''__NR_getuid'', 174),
     (Always, ''__NR_geteuid'', 175), (Always, ''__NR_getgid'', 176), (Always, ''__NR_getegid'', 177),
     (Always, ''__NR_gettid'', 178), (Always, ''__NR_sysinfo'', 179), (Always, ''__NR_mq_open'', 180),
     (Always, ''__NR_mq_unlink'', 181), (Want_Time32, ''__NR_mq_timedsend'', 182),
     (Want_Time32, ''__NR_mq_timedreceive'', 183), (Always, ''__NR_mq_notify'', 184),
     (Always, ''__NR_mq_getsetattr'', 185), (Always, ''__NR_msgget'', 186), (Always, ''__NR_msgctl'', 187),
     (Always, ''__NR_msgrcv'', 188), (Always, ''__NR_msgsnd'', 189), (Always, ''__NR_semget'', 190),
     (Always, ''__NR_semctl'', 191), (Want_Time32, ''__NR_semtimedop'', 192), (Always, ''__NR_semop'', 193),
     (Always, ''__NR_shmget'', 194), (Always, ''__NR_shmctl'', 195), (Always, ''__NR_shmat'', 196),
     (Always, ''__NR_shmdt'', 197), (Always, ''__NR_socket'', 198), (Always, ''__NR_socketpair'', 199),
     (Always, ''__NR_bind'', 200), (Always, ''__NR_listen'', 201), (Always, ''__NR_accept'', 202),
     (Always, ''__NR_connect'', 203), (Always, ''__NR_getsockname'', 204), (Always, ''__NR_getpeername'', 205),
     (Always, ''__NR_sendto'', 206), (Always, ''__NR_recvfrom'', 207), (Always, ''__NR_setsockopt'', 208),
     (Always, ''__NR_getsockopt'', 209), (Always, ''__NR_shutdown'', 210), (Always, ''__NR_sendmsg'', 211),
     (Always, ''__NR_recvmsg'', 212), (Always, ''__NR_readahead'', 213), (Always, ''__NR_brk'', 214),
     (Always, ''__NR_munmap'', 215), (Always, ''__NR_mremap'', 216), (Always, ''__NR_add_key'', 217),
     (Always, ''__NR_request_key'', 218)]"

definition nr_macros_3 :: "(guard \<times> string \<times> int) list" where
  "nr_macros_3 = [
     (Always, ''__NR_keyctl'', 219), (Always, ''__NR_clone'', 220), (Always, ''__NR_execve'', 221),
     (Always, ''__NR3264_mmap'', 222), (Always, ''__NR3264_fadvise64'', 223), (Mmu, ''__NR_swapon'', 224),
     (Mmu, ''__NR_swapoff'', 225), (Mmu, ''__NR_mprotect'', 226), (Mmu, ''__NR_msync'', 227),
     (Mmu, ''__NR_mlock'', 228), (Mmu, ''__NR_munlock'', 229), (Mmu, ''__NR_mlockall'', 230),
     (Mmu, ''__NR_munlockall'', 231), (Mmu, ''__NR_mincore'', 232), (Mmu, ''__NR_madvise'', 233),
     (Mmu, ''__NR_remap_file_pages'', 234), (Mmu, ''__NR_mbind'', 235), (Mmu, ''__NR_get_mempolicy'', 236),
     (Mmu, ''__NR_set_mempolicy'', 237), (Mmu, ''__NR_migrate_pages'', 238), (Mmu, ''__NR_move_pages'', 239),
     (Always, ''__NR_rt_tgsigqueueinfo'', 240), (Always, ''__NR_perf_event_open'', 241),
     (Always, ''__NR_accept4'', 242), (Want_Time32, ''__NR_recvmmsg'', 243), (Want_Time32, ''__NR_wait4'', 260),
     (Always, ''__NR_prlimit64'', 261), (Always, ''__NR_fanotify_init'', 262), (Always, ''__NR_fanotify_mark'', 263),
     (Always, ''__NR_name_to_handle_at'', 264), (Always, ''__NR_open_by_handle_at'', 265),
     (Want_Time32, ''__NR_clock_adjtime'', 266), (Always, ''__NR_syncfs'', 267), (Always, ''__NR_setns'', 268),
     (Always, ''__NR_sendmmsg'', 269), (Always, ''__NR_process_vm_readv'', 270),
     (Always, ''__NR_process_vm_writev'', 271), (Always, ''__NR_kcmp'', 272), (Always, ''__NR_finit_module'', 273),
     (Always, ''__NR_sched_setattr'', 274), (Always, ''__NR_sched_getattr'', 275), (Always, ''__NR_renameat2'', 276),
     (Always, ''__NR_seccomp'', 277), (Always, ''__NR_getrandom'', 278), (Always, ''__NR_memfd_create'', 279),
     (Always, ''__NR_bpf'', 280), (Always, ''__NR_execveat'', 281), (Always, ''__NR_userfaultfd'', 282),
     (Always, ''__NR_membarrier'', 283), (Always, ''__NR_mlock2'', 284), (Always, ''__NR_copy_file_range'', 285),
     (Always, ''__NR_preadv2'', 286), (Always, ''__NR_pwritev2'', 287), (Always, ''__NR_pkey_mprotect'', 288),
     (Always, ''__NR_pkey_alloc'', 289), (Always, ''__NR_pkey_free'', 290), (Always, ''__NR_statx'', 291),
     (Want_Time32, ''__NR_io_pgetevents'', 292), (Always, ''__NR_rseq'', 293),
     (Always, ''__NR_kexec_file_load'', 294), (Compat_Or_32, ''__NR_clock_gettime64'', 403),
     (Compat_Or_32, ''__NR_clock_settime64'', 404), (Compat_Or_32, ''__NR_clock_adjtime64'', 405),
     (Compat_Or_32, ''__NR_clock_getres_time64'', 406), (Compat_Or_32, ''__NR_clock_nanosleep_time64'', 407),
     (Compat_Or_32, ''__NR_timer_gettime64'', 408), (Compat_Or_32, ''__NR_timer_settime64'', 409),
     (Compat_Or_32, ''__NR_timerfd_gettime64'', 410), (Compat_Or_32, ''__NR_timerfd_settime64'', 411),
     (Compat_Or_32, ''__NR_utimensat_time64'', 412), (Compat_Or_32, ''__NR_pselect6_time64'', 413),
     (Compat_Or_32, ''__NR_ppoll_time64'', 414), (Compat_Or_32, ''__NR_io_pgetevents_time64'', 416),
     (Compat_Or_32, ''__NR_recvmmsg_time64'', 417), (Compat_Or_32, ''__NR_mq_timedsend_time64'', 418),
     (Compat_Or_32, ''__NR_mq_timedreceive_time64'', 419), (Compat_Or_32, ''__NR_semtimedop_time64'', 420),
     (Compat_Or_32, ''__NR_rt_sigtimedwait_time64'', 421), (Compat_Or_32, ''__NR_futex_time64'', 422),
     (Compat_Or_32, ''__NR_sched_rr_get_interval_time64'', 423), (Always, ''__NR_pidfd_send_signal'', 424),
     (Always, ''__NR_io_uring_setup'', 425), (Always, ''__NR_io_uring_enter'', 426),
     (Always, ''__NR_io_uring_register'', 427), (Always, ''__NR_open_tree'', 428),
     (Always, ''__NR_move_mount'', 429), (Always, ''__NR_fsopen'', 430), (Always, ''__NR_fsconfig'', 431),
     (Always, ''__NR_fsmount'', 432), (Always, ''__NR_fspick'', 433), (Always, ''__NR_pidfd_open'', 434),
     (Want_Clone3, ''__NR_clone3'', 435), (Always, ''__NR_close_range'', 436), (Always, ''__NR_openat2'', 437),
     (Always, ''__NR_pidfd_getfd'', 438), (Always, ''__NR_faccessat2'', 439),
     (Always, ''__NR_process_madvise'', 440), (Always, ''__NR_epoll_pwait2'', 441),
     (Always, ''__NR_mount_setattr'', 442), (Always, ''__NR_quotactl_fd'', 443),
     (Always, ''__NR_landlock_create_ruleset'', 444), (Always, ''__NR_landlock_add_rule'', 445),
     (Always, ''__NR_landlock_restrict_self'', 446), (Want_Memfd_Secret, ''__NR_memfd_secret'', 447),
     (Always, ''__NR_process_mrelease'', 448), (Always, ''__NR_futex_waitv'', 449),
     (Always, ''__NR_set_mempolicy_home_node'', 450)]"

definition nr3264_64 :: "(string \<times> string) list" where
  "nr3264_64 = [
     (''__NR3264_fcntl'', ''__NR_fcntl''), (''__NR3264_statfs'', ''__NR_statfs''),
     (''__NR3264_fstatfs'', ''__NR_fstatfs''), (''__NR3264_truncate'', ''__NR_truncate''),
     (''__NR3264_ftruncate'', ''__NR_ftruncate''), (''__NR3264_lseek'', ''__NR_lseek''),
     (''__NR3264_sendfile'', ''__NR_sendfile''), (''__NR3264_fstatat'', ''__NR_newfstatat''),
     (''__NR3264_fstat'', ''__NR_fstat''), (''__NR3264_mmap'', ''__NR_mmap''),
     (''__NR3264_fadvise64'', ''__NR_fadvise64'')]"

definition nr3264_32 :: "(string \<times> string) list" where
  "nr3264_32 = [
     (''__NR3264_fcntl'', ''__NR_fcntl64''), (''__NR3264_statfs'', ''__NR_statfs64''),
     (''__NR3264_fstatfs'', ''__NR_fstatfs64''), (''__NR3264_truncate'', ''__NR_truncate64''),
     (''__NR3264_ftruncate'', ''__NR_ftruncate64''), (''__NR3264_lseek'', ''__NR_llseek''),
     (''__NR3264_sendfile'', ''__NR_sendfile64''), (''__NR3264_fstatat'', ''__NR_fstatat64''),
     (''__NR3264_fstat'', ''__NR_fstat64''), (''__NR3264_mmap'', ''__NR_mmap2''),
     (''__NR3264_fadvise64'', ''__NR_fadvise64_64'')]"

text \<open>What a program sees: the conditions hold, and a \<open>__NR3264\<close> macro goes by the name for its size of \<open>long\<close>.\<close>

definition nr_macros :: "unistd_cfg \<Rightarrow> (string \<times> int) list" where
  "nr_macros c =
     map (\<lambda>(g, m, n). (case map_of (if BITS_PER_LONG c = 64 \<and> \<not> SYSCALL_COMPAT c then nr3264_64 else nr3264_32) m of
                          None \<Rightarrow> m | Some m' \<Rightarrow> m', n))
       (filter (\<lambda>(g, m, n). guard_holds c g) (nr_macros_1 @ nr_macros_2 @ nr_macros_3))"

section \<open>Macros and names\<close>

text \<open>The calls whose name in the kernel is not the name programs use.\<close>

definition renamed_calls :: "(string \<times> string) list" where
  "renamed_calls =
     [(''__NR_umount2'', ''umount''), (''__NR_nfsservctl'', ''ni_syscall''), (''__NR_sendfile'', ''sendfile64''),
      (''__NR_fstat'', ''newfstat''), (''__NR_uname'', ''newuname''), (''__NR_fadvise64'', ''fadvise64_64'')]"

definition call_of_macro :: "string \<Rightarrow> string" where
  "call_of_macro m = (case map_of renamed_calls m of None \<Rightarrow> drop 5 m | Some call \<Rightarrow> call)"

lemma arm64_macros:
  "map (\<lambda>(m, n). (n, call_of_macro m)) (nr_macros arm64_unistd) =
   map (\<lambda>(n, call). (n, strip_sys call)) (syscall_cases arm64_unistd)"
  by code_simp

lemma arm64_macro_name:
  assumes "(m, sint nr) \<in> set (nr_macros arm64_unistd)"
  shows "strip_sys (syscall_name arm64_unistd nr) = call_of_macro m"
proof -
  have "(sint nr, call_of_macro m) \<in> set (map (\<lambda>(m, n). (n, call_of_macro m)) (nr_macros arm64_unistd))"
    using assms by (force intro: rev_image_eqI)
  then obtain call where "(sint nr, call) \<in> set (syscall_cases arm64_unistd)" "strip_sys call = call_of_macro m"
    unfolding arm64_macros by auto
  then show ?thesis unfolding syscall_name_def by (metis syscall_names.switch_label)
qed

lemma arm64_unknown:
  "syscall_name arm64_unistd nr = ''unknown'' \<longleftrightarrow> sint nr \<notin> snd ` set (nr_macros arm64_unistd)"
proof -
  have "snd ` set (nr_macros arm64_unistd) = fst ` set (map (\<lambda>(m, n). (n, call_of_macro m)) (nr_macros arm64_unistd))"
    by (simp add: image_image case_prod_unfold)
  also have "\<dots> = fst ` set (syscall_cases arm64_unistd)"
    unfolding arm64_macros by (simp add: image_image case_prod_unfold)
  finally show ?thesis unfolding syscall_name_def by (simp only: syscall_names.switch_default)
qed

text \<open>The macros of the calls the BPF programs name, found in one pass over the table.\<close>

lemma arm64_traced_macros:
  "filter (\<lambda>(m, n). m \<in> set [''__NR_openat'', ''__NR_openat2'', ''__NR_read'', ''__NR_write'', ''__NR_ioctl'',
       ''__NR_epoll_pwait'', ''__NR_futex'', ''__NR_connect'', ''__NR_bind'', ''__NR_sendto'', ''__NR_recvfrom'', ''__NR_execve'',
       ''__NR_umount2'']) (nr_macros arm64_unistd) =
   [(''__NR_epoll_pwait'', 22), (''__NR_ioctl'', 29), (''__NR_umount2'', 39), (''__NR_openat'', 56), (''__NR_read'', 63),
    (''__NR_write'', 64), (''__NR_futex'', 98), (''__NR_bind'', 200), (''__NR_connect'', 203), (''__NR_sendto'', 206),
    (''__NR_recvfrom'', 207), (''__NR_execve'', 221), (''__NR_openat2'', 437)]"
  by code_simp

lemma arm64_traced_macro:
  "x \<in> set [(''__NR_epoll_pwait'', 22), (''__NR_ioctl'', 29), (''__NR_umount2'', 39), (''__NR_openat'', 56), (''__NR_read'', 63),
    (''__NR_write'', 64), (''__NR_futex'', 98), (''__NR_bind'', 200), (''__NR_connect'', 203), (''__NR_sendto'', 206),
    (''__NR_recvfrom'', 207), (''__NR_execve'', 221), (''__NR_openat2'', 437)] \<Longrightarrow> x \<in> set (nr_macros arm64_unistd)"
  unfolding arm64_traced_macros [symmetric] by (simp only: set_filter) blast

end
