(* ===== verification/Strace_Output.thy ===== *)
theory Strace_Output
  imports Strace_Format Unistd_Nr
begin

text \<open>
  What \<open>libbpfstrace.c\<close> prints.  The flag loop equals a plain join and stays in its
  buffer; every call text of a printable event is defined and shorter than the
  buffers it is written to; hence \<open>handle_event\<close> prints complete lines.  The locale
  \<open>text_library\<close> (what \<open>inet_ntop\<close> promises) is interpreted here.
\<close>

section \<open>Flags\<close>

text \<open>
  What is expected of the flags, by the bits of arm64's \<open>open\<close>: the access mode, then the flags that have a bit in the
  word.  \<open>O_SYNC\<close> consists of two bits, of which bit 12 is \<open>O_DSYNC\<close>.
\<close>

definition flag_bits :: "(string \<times> nat list) list" where
  "flag_bits =
     [(''O_CREAT'', [6]), (''O_EXCL'', [7]), (''O_NOCTTY'', [8]), (''O_TRUNC'', [9]), (''O_APPEND'', [10]),
      (''O_NONBLOCK'', [11]), (''O_DSYNC'', [12]), (''O_SYNC'', [12, 20]), (''O_CLOEXEC'', [19]), (''O_DIRECTORY'', [14]),
      (''O_NOFOLLOW'', [15])]"

definition flags_text :: "u64 \<Rightarrow> string" where
  "flags_text flags =
     (if bit flags 1 then if bit flags 0 then ''0x3'' else ''O_RDWR'' else if bit flags 0 then ''O_WRONLY'' else ''O_RDONLY'') @
     concat (map (\<lambda>(name, bits). if list_ex (bit flags) bits then CHR ''|'' # name else []) flag_bits)"

definition loop_text :: "u64 \<Rightarrow> string" where
  "loop_text flags = access_text (and flags (fcntl_val ''O_ACCMODE'')) @
     concat (map (\<lambda>f. CHR ''|'' # f) (filter (\<lambda>f. and flags (fcntl_val f) \<noteq> 0) openat_flag_names))"

lemma append_at_fits: "length t + length s < sz \<Longrightarrow> append_at sz s (length t, t) = Some (length (t @ s), t @ s)"
  by (simp add: append_at_def snprintf_def)

lemma APPEND_FLAGS_fits:
  "length t + (\<Sum>f\<leftarrow>fs. Suc (length f)) < sz \<Longrightarrow>
   APPEND_FLAGS sz flags fs (length t, t) =
     (let t' = t @ concat (map (\<lambda>f. CHR ''|'' # f) (filter (\<lambda>f. and flags (fcntl_val f) \<noteq> 0) fs))
      in Some (length t', t'))"
proof (induction fs arbitrary: t)
  case (Cons f fs)
  have "append_at sz (CHR ''|'' # f) (length t, t) = Some (length (t @ CHR ''|'' # f), t @ CHR ''|'' # f)"
    using Cons.prems by (intro append_at_fits) simp
  with Cons.IH [of t] Cons.IH [of "t @ CHR ''|'' # f"] Cons.prems show ?case
    by (simp add: Let_def)
qed simp

lemma fcntl_access:
  "fcntl_val ''O_ACCMODE'' = 3" "fcntl_val ''O_RDONLY'' = 0" "fcntl_val ''O_WRONLY'' = 1" "fcntl_val ''O_RDWR'' = 2"
  by (simp_all add: fcntl_val_def arm64_fcntl_h_def generic_fcntl_h_def)

lemma and_3_cases: "and (w :: u64) 3 \<in> {0, 1, 2, 3}"
proof -
  have "and w 3 \<le> 3" by (rule word_and_le1)
  then have "unat (and w 3) \<le> 3" by (simp add: word_le_nat_alt)
  then have "unat (and w 3) \<in> {0, 1, 2, 3}" by auto
  then show ?thesis by (auto simp: word_unat_eq_iff)
qed

lemma access_text_length: "length (access_text (and w 3)) \<le> 8 \<and> NUL \<notin> set (access_text (and w 3))"
proof -
  have "fmt_x (3 :: u64) = ''3''"
    unfolding fmt_x_def by (subst digits.simps) (simp add: digit_char_def char_of_def bit_simps)
  then show ?thesis using and_3_cases [of w] by (auto simp: access_text_def fcntl_access)
qed

lemma flag_names_length: "(\<Sum>f\<leftarrow>openat_flag_names. Suc (length f)) = 100"
  by (simp add: openat_flag_names_def)

lemma flag_list_length:
  "length (concat (map (\<lambda>f. CHR ''|'' # f) (filter P fs))) \<le> (\<Sum>f\<leftarrow>fs. Suc (length f))"
  by (induction fs) auto

lemma loop_text_bounds: "length (loop_text w) \<le> 108 \<and> NUL \<notin> set (loop_text w)"
proof
  show "length (loop_text w) \<le> 108"
    using access_text_length [of w] flag_names_length
      flag_list_length [of "\<lambda>f. and w (fcntl_val f) \<noteq> 0" openat_flag_names]
    by (simp add: loop_text_def fcntl_access del: length_concat)
  show "NUL \<notin> set (loop_text w)"
    using access_text_length [of w] by (auto simp: loop_text_def fcntl_access openat_flag_names_def split: if_splits)
qed

lemma and_bits_not_0:
  "and w (2 ^ i) \<noteq> 0 \<longleftrightarrow> bit w i" "and w (or (2 ^ i) (2 ^ j)) \<noteq> 0 \<longleftrightarrow> bit w i \<or> bit w j" for w :: u64
proof -
  have one: "and w (2 ^ k) = 0 \<longleftrightarrow> \<not> bit w k" for k
    using bit_iff_and_push_bit_not_eq_0 [of w k] by (simp add: push_bit_eq_mult)
  then show "and w (2 ^ i) \<noteq> 0 \<longleftrightarrow> bit w i" by simp
  have "and w (or (2 ^ i) (2 ^ j)) = or (and w (2 ^ i)) (and w (2 ^ j))" by (rule bit.conj_disj_distrib)
  then show "and w (or (2 ^ i) (2 ^ j)) \<noteq> 0 \<longleftrightarrow> bit w i \<or> bit w j" by (simp add: or_eq_0_iff one)
qed

lemma flag_masks:
  "fcntl_val ''O_CREAT'' = 2 ^ 6" "fcntl_val ''O_EXCL'' = 2 ^ 7" "fcntl_val ''O_NOCTTY'' = 2 ^ 8" "fcntl_val ''O_TRUNC'' = 2 ^ 9"
  "fcntl_val ''O_APPEND'' = 2 ^ 10" "fcntl_val ''O_NONBLOCK'' = 2 ^ 11" "fcntl_val ''O_DSYNC'' = 2 ^ 12" "fcntl_val ''O_SYNC'' = or (2 ^ 12) (2 ^ 20)"
  "fcntl_val ''O_CLOEXEC'' = 2 ^ 19" "fcntl_val ''O_DIRECTORY'' = 2 ^ 14" "fcntl_val ''O_NOFOLLOW'' = 2 ^ 15"
  by (simp_all add: fcntl_val_def arm64_fcntl_h_def generic_fcntl_h_def)

lemma access_bits: "and w 3 = of_bool (bit w 0) + 2 * of_bool (bit w 1)" for w :: u64
proof -
  have "and w 3 = take_bit (Suc (Suc 0)) w" by (simp add: take_bit_eq_mask numeral_eq_Suc mask_Suc_exp)
  also have "\<dots> = 2 * of_bool (bit w 1) + of_bool (bit w 0)" 
    by (simp add: take_bit_Suc mod_2_eq_odd bit_Suc bit_0)
  finally show ?thesis by simp
qed

lemma access_text_bits:
  "access_text (and w 3) =
     (if bit w 1 then if bit w 0 then ''0x3'' else ''O_RDWR'' else if bit w 0 then ''O_WRONLY'' else ''O_RDONLY'')"
proof -
  have "fmt_x (3 :: u64) = ''3''"
    unfolding fmt_x_def by (subst digits.simps) (simp add: digit_char_def char_of_def bit_simps)
  then show ?thesis unfolding access_bits by (simp add: access_text_def fcntl_access)
qed

lemma loop_text_eq: "loop_text w = flags_text w"
  unfolding loop_text_def flags_text_def fcntl_access access_text_bits openat_flag_names_def flag_bits_def
  by (simp only: filter.simps flag_masks and_bits_not_0) simp

lemmas flags_text_bounds = loop_text_bounds [unfolded loop_text_eq]

lemma format_openat_flags_eq: "108 < sz \<Longrightarrow> format_openat_flags flags sz = Some (flags_text flags)"
proof -
  assume sz: "108 < sz"
  let ?a = "access_text (and flags 3)"
  have "append_at sz ?a (0, []) = Some (length ?a, ?a)"
    using append_at_fits [of "[]" ?a sz] access_text_length [of flags] sz by simp
  moreover have "APPEND_FLAGS sz flags openat_flag_names (length ?a, ?a) = Some (length (loop_text flags), loop_text flags)"
    using APPEND_FLAGS_fits [of ?a openat_flag_names sz flags] access_text_length [of flags] sz flag_names_length
    by (simp add: loop_text_def fcntl_access Let_def)
  ultimately have "format_openat_flags flags sz = Some (loop_text flags)" by (simp add: format_openat_flags_def fcntl_access)
  then show ?thesis by (simp only: loop_text_eq)
qed

section \<open>Lengths of numbers\<close>

lemma fmt_u_length: "length (fmt_u (w :: u64)) \<le> 20" "length (fmt_u (h :: u16)) \<le> 5" "length (fmt_u (i :: u32)) \<le> 10"
  unfolding fmt_u_def
  using unsigned_less [of w, where 'a = nat] unsigned_less [of h, where 'a = nat] unsigned_less [of i, where 'a = nat]
  by (auto intro!: length_digits_le)

lemma fmt_alt_x_length: "length (fmt_alt_x (w :: u64)) \<le> 18"
  using unsigned_less [of w, where 'a = nat] length_digits_le [of 16 "unat w" 16] by (simp add: fmt_alt_x_def)

lemma fmt_alt_o_length: "length (fmt_alt_o (w :: u64)) \<le> 23"
  using unsigned_less [of w, where 'a = nat] length_digits_le [of 8 "unat w" 22] by (simp add: fmt_alt_o_def)

lemma fmt_d_length: "length (fmt_d (w :: u64)) \<le> 20"
proof -
  have "sint w < 2 ^ 63" "- (2 ^ 63) \<le> sint w"
    using sint_lt [of w] sint_ge [of w] by simp_all
  then have "length (digits 10 (nat (- sint w))) \<le> 19" "length (digits 10 (nat (sint w))) \<le> 19"
    by (auto intro!: length_digits_le)
  then show ?thesis by (simp add: fmt_d_def fmt_int_def)
qed


section \<open>Every call text is defined and fits\<close>

lemma format_sockaddr_text:
  assumes "text_library lib"
  shows "length (format_sockaddr lib e sz) \<le> 130 \<and> NUL \<notin> set (format_sockaddr lib e sz)"
proof -
  have cut: "length (snprintf sz t) \<le> 130 \<and> NUL \<notin> set (snprintf sz t)" if "length t \<le> 130" "NUL \<notin> set t" for t
    using that by (auto simp: snprintf_def dest: in_set_takeD)
  have "length (fmt_u (ntohs (ev_sa_port e))) \<le> 5" "length (fmt_u (ev_sa_scope_id e)) \<le> 10"
    "length (fmt_u (ev_sa_family e)) \<le> 5" by (rule fmt_u_length)+
  then show ?thesis
    unfolding format_sockaddr_def
    using text_library.ntop4 [OF assms, of "ev_sa_addr4 e"] text_library.ntop6 [OF assms, of "ev_sa_addr6 e"]
    by (auto split: option.splits intro!: cut [THEN conjunct1] cut [THEN conjunct2])
qed

lemma path_text_fits:
  assumes "printable e"
  obtains t where "path_text e p = Some t" and "length t \<le> 257" and "NUL \<notin> set t"
proof -
  consider "arg_string e = None" | "arg_string e = Some (ev_str e)" "0 < ev_str_len e"
    by (cases "arg_string e") (auto simp: arg_string_def split: if_splits)
  then show thesis
  proof cases
    case 1
    have "length (fmt_alt_x p) \<le> 257" using fmt_alt_x_length [of p] by simp
    with 1 show thesis by (intro that [of "fmt_alt_x p"]) (simp_all add: path_text_def)
  next
    case 2
    then have "nul_terminated (ev_str e)" "length (c_str (ev_str e)) \<le> 255"
      using assms by (auto simp: printable_def SYSCALL_STR_LEN_def)
    with 2 show thesis
      by (intro that [of "''\"'' @ c_str (ev_str e) @ ''\"''"]) (simp_all add: path_text_def array_str_def)
  qed
qed

definition fits :: "nat \<Rightarrow> string option \<Rightarrow> bool" where
  "fits n r \<longleftrightarrow> (case r of None \<Rightarrow> False | Some t \<Rightarrow> length t < n)"

lemma fits_Some [simp]: "fits n (Some t) \<longleftrightarrow> length t < n"
  by (simp add: fits_def)

lemma fits_if: "(b \<Longrightarrow> fits n x) \<Longrightarrow> (\<not> b \<Longrightarrow> fits n y) \<Longrightarrow> fits n (if b then x else y)"
  by simp

lemma call_text_fits:
  assumes "text_library lib" and "printable e" and "length name \<le> 40"
  shows "fits 512 (call_text lib e name)"
proof -
  obtain t0 where p0: "path_text e (ev_args e ! 0) = Some t0" "length t0 \<le> 257" using path_text_fits [OF assms(2)] .
  obtain t1 where p1: "path_text e (ev_args e ! 1) = Some t1" "length t1 \<le> 257" using path_text_fits [OF assms(2)] .
  have u: "length (fmt_u (ev_args e ! i)) \<le> 20" and x: "length (fmt_alt_x (ev_args e ! i)) \<le> 18"
    and d: "length (fmt_d (ev_args e ! i)) \<le> 20" and o: "length (fmt_alt_o (ev_args e ! i)) \<le> 23" for i
    by (rule fmt_u_length fmt_alt_x_length fmt_d_length fmt_alt_o_length)+
  have fl: "format_openat_flags (ev_args e ! 2) 256 = Some (flags_text (ev_args e ! 2))"
    by (rule format_openat_flags_eq) simp
  note bounds = u [of 0] u [of 2] u [of 3] u [of 5] x [of 0] x [of 1] x [of 2] x [of 3] x [of 4] x [of 5]
    d [of 0] d [of 3] o [of 3] assms(3) p0(2) p1(2) flags_text_bounds [of "ev_args e ! 2", THEN conjunct1]
    futex_op_name_bounds [of "ev_args e ! 1", THEN conjunct1]
    format_sockaddr_text [OF assms(1), of e 192, THEN conjunct1]
  show ?thesis
    unfolding call_text_def Let_def fl p0(1) p1(1) bind.bind_lunit
    by (intro fits_if) (use bounds in \<open>simp_all\<close>)
qed

section \<open>A library\<close>

text \<open>Dotted decimal, eight full groups of hexadecimal digits, and one message for every error.\<close>

definition ref_text_lib :: text_lib where
  "ref_text_lib =
     \<lparr>inet_ntop4 = (\<lambda>a. Some (digits 10 (unat a mod 256) @ ''.'' @ digits 10 (unat a div 2 ^ 8 mod 256) @ ''.'' @
        digits 10 (unat a div 2 ^ 16 mod 256) @ ''.'' @ digits 10 (unat a div 2 ^ 24 mod 256))),
      inet_ntop6 = (\<lambda>b. if length b = 16 then Some (concat (map (\<lambda>x. digits 16 (unat x)) b)) else None),
      lib_strerror = (\<lambda>err. ''Unknown error'')\<rparr>"

lemma length_concat_le: "(\<And>x. x \<in> set xs \<Longrightarrow> length (f x) \<le> k) \<Longrightarrow> length (concat (map f xs)) \<le> k * length xs"
  by (induction xs) (auto simp: add_mono)

interpretation ref_text: text_library ref_text_lib
proof
  fix a t
  have d: "length (digits 10 (n mod 256)) \<le> 3" for n :: nat
    by (rule length_digits_le) (auto intro: less_le_trans [OF mod_less_divisor])
  assume "inet_ntop4 ref_text_lib a = Some t"
  then have t: "t = digits 10 (unat a mod 256) @ ''.'' @ digits 10 (unat a div 2 ^ 8 mod 256) @ ''.'' @
        digits 10 (unat a div 2 ^ 16 mod 256) @ ''.'' @ digits 10 (unat a div 2 ^ 24 mod 256)"
    by (simp add: ref_text_lib_def)
  show "length t < 16 \<and> NUL \<notin> set t"
    unfolding t using d [of "unat a"] d [of "unat a div 2 ^ 8"] d [of "unat a div 2 ^ 16"] d [of "unat a div 2 ^ 24"]
    by simp
next
  fix b :: bytes and t
  assume "inet_ntop6 ref_text_lib b = Some t"
  then have "length b = 16" and t: "t = concat (map (\<lambda>x. digits 16 (unat x)) b)"
    by (simp_all add: ref_text_lib_def split: if_splits)
  moreover have "length (digits 16 (unat x)) \<le> 2" for x :: u8
    by (rule length_digits_le) (use unat_less_256 [of x] in simp_all)
  ultimately show "length t < 46 \<and> NUL \<notin> set t"
    using length_concat_le [of b "\<lambda>x. digits 16 (unat x)" 2] by (simp del: length_concat)
qed

section \<open>Names of the traced calls\<close>

lemma arm64_entry:
  assumes "(g, en) \<in> set unistd_table" and "guard_holds arm64_unistd g" and "sc_expand arm64_unistd en = (sint nr, n)"
  shows "syscall_name arm64_unistd nr = n"
  unfolding syscall_name_def
  by (rule syscall_names.switch_label) (use assms in \<open>force simp: syscall_cases_def\<close>)

lemma traced_entries:
  "(Always, SC_COMP 22 ''sys_epoll_pwait'' ''compat_sys_epoll_pwait'') \<in> set unistd_1"
  "(Always, SC_COMP 29 ''sys_ioctl'' ''compat_sys_ioctl'') \<in> set unistd_1"
  "(Always, SYSCALL 56 ''sys_openat'') \<in> set unistd_2"
  "(Always, SYSCALL 63 ''sys_read'') \<in> set unistd_2"
  "(Always, SYSCALL 64 ''sys_write'') \<in> set unistd_2"
  "(Want_Time32, SC_3264 98 ''sys_futex_time32'' ''sys_futex'') \<in> set unistd_2"
  "(Always, SYSCALL 200 ''sys_bind'') \<in> set unistd_4"
  "(Always, SYSCALL 203 ''sys_connect'') \<in> set unistd_4"
  "(Always, SYSCALL 206 ''sys_sendto'') \<in> set unistd_4"
  "(Always, SC_COMP 207 ''sys_recvfrom'' ''compat_sys_recvfrom'') \<in> set unistd_4"
  "(Always, SC_COMP 221 ''sys_execve'' ''compat_sys_execve'') \<in> set unistd_5"
  "(Always, SYSCALL 437 ''sys_openat2'') \<in> set unistd_6"
  by (simp_all add: unistd_1_def unistd_2_def unistd_4_def unistd_5_def unistd_6_def)

lemma table_parts:
  "x \<in> set unistd_1 \<Longrightarrow> x \<in> set unistd_table" "x \<in> set unistd_2 \<Longrightarrow> x \<in> set unistd_table"
  "x \<in> set unistd_4 \<Longrightarrow> x \<in> set unistd_table" "x \<in> set unistd_5 \<Longrightarrow> x \<in> set unistd_table"
  "x \<in> set unistd_6 \<Longrightarrow> x \<in> set unistd_table"
  by (simp_all add: unistd_table_def)

lemmas traced_in_table =
  traced_entries(1,2) [THEN table_parts(1)] traced_entries(3-6) [THEN table_parts(2)]
  traced_entries(7-10) [THEN table_parts(3)] traced_entries(11) [THEN table_parts(4)]
  traced_entries(12) [THEN table_parts(5)]

lemma arm64_names:
  "syscall_name arm64_unistd NR_EPOLL_PWAIT = ''sys_epoll_pwait''"
  "syscall_name arm64_unistd NR_IOCTL = ''sys_ioctl''"
  "syscall_name arm64_unistd NR_OPENAT = ''sys_openat''"
  "syscall_name arm64_unistd NR_READ = ''sys_read''"
  "syscall_name arm64_unistd NR_WRITE = ''sys_write''"
  "syscall_name arm64_unistd NR_FUTEX = ''sys_futex''"
  "syscall_name arm64_unistd NR_BIND = ''sys_bind''"
  "syscall_name arm64_unistd NR_CONNECT = ''sys_connect''"
  "syscall_name arm64_unistd NR_SENDTO = ''sys_sendto''"
  "syscall_name arm64_unistd NR_RECVFROM = ''sys_recvfrom''"
  "syscall_name arm64_unistd NR_EXECVE = ''sys_execve''"
  "syscall_name arm64_unistd NR_OPENAT2 = ''sys_openat2''"
  using traced_in_table [THEN arm64_entry]
  by (simp_all add: arm64_unistd_def nr_defs)

lemma ret_text_whole:
  assumes "ret_text lib e = Some ret"
    and "0 \<le> sint (ev_ret e) \<or> length (lib_strerror lib (ucast (- ev_ret e))) \<le> 109"
  shows "length ret \<le> 127"
  using assms fmt_d_length [of "ev_ret e"] errno_name_bounds [of "ucast (- ev_ret e)"]
  by (auto simp: ret_text_def Let_def split: if_splits)

lemma handle_event_line:
  fixes cfg :: unistd_cfg
  assumes "text_library lib" and "printable e" and "length mem = 384" and "sint (ev_ret e) \<noteq> - (2 ^ 63)"
  defines "name \<equiv> strip_sys (syscall_name cfg (ev_syscall_id e))"
  shows "\<exists>call ret. call_text lib e name = Some call \<and> ret_text lib e = Some ret \<and>
    handle_event lib cfg (store_event e mem @ rest) =
      Some (0, ''pid='' @ fmt_d (ev_tgid e) @ '' tid='' @ fmt_d (ev_pid e) @ '' comm='' @ c_str (ev_comm e) @ '' '' @
        call @ '' = '' @ take 127 ret @ '' [id='' @ fmt_d (ev_syscall_id e) @ '']\<newline>'')"
proof -
  have wf: "wf_event e" and comm: "nul_terminated (ev_comm e)" using assms(2) by (simp_all add: printable_def)
  have "length name \<le> 40"
    using syscall_name_bounds [of cfg "ev_syscall_id e"] strip_sys_bounds(1) le_trans unfolding name_def by blast
  with assms(1,2) obtain call where call: "call_text lib e name = Some call" "length call < 512"
    using call_text_fits [of lib e name] by (auto simp: fits_def split: option.splits)
  obtain ret where "ret_text lib e = Some ret" using assms(4) by (cases "sint (ev_ret e) < 0") (simp_all add: ret_text_def Let_def)
  moreover have "load_event (store_event e mem @ rest) = e"
    using wf assms(3) by (simp add: load_event_append length_store_event load_store_event)
  moreover have "\<not> length (store_event e mem @ rest) < 384" using wf assms(3) by (simp add: length_store_event)
  ultimately show ?thesis
    using call comm
    by (simp add: handle_event_def Let_def name_def format_syscall_args_def snprintf_def array_str_def)
qed

section \<open>Properties\<close>

text \<open>
  (C23) \<open>format_openat_flags\<close> with its 256-byte buffer never writes outside it, whatever the flags, and produces the access
  mode from the two lowest bits, followed by \<open>O_CREAT\<close>, \<open>O_EXCL\<close>, \<open>O_NOCTTY\<close>, \<open>O_TRUNC\<close>, \<open>O_APPEND\<close>,
  \<open>O_NONBLOCK\<close>, \<open>O_DSYNC\<close>, \<open>O_SYNC\<close>, \<open>O_CLOEXEC\<close>, \<open>O_DIRECTORY\<close> and \<open>O_NOFOLLOW\<close>, in this order, each exactly when
  the word has a bit of it at the position arm64 gives it; for \<open>O_SYNC\<close> the bit of \<open>O_DSYNC\<close> is enough, so that \<open>O_DSYNC\<close>
  is never shown alone.  All other bits, such as those of \<open>O_PATH\<close>, \<open>O_DIRECT\<close> or \<open>O_TMPFILE\<close>, are never shown:
  two words that agree on the thirteen bits above give the same text.
\<close>

theorem openat_flags_text:
  "format_openat_flags flags 256 = Some (flags_text flags) \<and> length (flags_text flags) < 256 \<and>
   (\<forall>other :: u64. (\<forall>i \<in> {0, 1, 6, 7, 8, 9, 10, 11, 12, 14, 15, 19, 20}. bit other i = bit flags i) \<longrightarrow>
     format_openat_flags other 256 = format_openat_flags flags 256)"
proof (intro conjI allI impI)
  have eq: "format_openat_flags w 256 = Some (flags_text w)" for w by (rule format_openat_flags_eq) simp
  show "format_openat_flags flags 256 = Some (flags_text flags)" by (rule eq)
  show "length (flags_text flags) < 256" using flags_text_bounds [of flags] by simp
  fix other :: u64 assume "\<forall>i \<in> {0, 1, 6, 7, 8, 9, 10, 11, 12, 14, 15, 19, 20}. bit other i = bit flags i"
  then have "flags_text other = flags_text flags" by (simp add: flags_text_def flag_bits_def)
  then show "format_openat_flags other 256 = format_openat_flags flags 256" by (simp add: eq)
qed

theorem openat_flags_text_witness:
  "format_openat_flags 0x201042 256 = Some ''O_RDWR|O_CREAT|O_DSYNC|O_SYNC''"
proof -
  have "\<forall>i \<in> {0, 1, 6, 7, 8, 9, 10, 11, 12, 14, 15, 19, 20}. bit (0x201042 :: u64) i = bit (0x1042 :: u64) i" by simp
  with openat_flags_text [where flags = "0x1042"] have "format_openat_flags 0x201042 256 = Some (flags_text 0x1042)" by metis
  then show ?thesis by (simp add: flags_text_def flag_bits_def)
qed

text \<open>
  A \<open>O_DSYNC\<close> open is also reported as \<open>O_SYNC\<close>: the test \<open>flags & O_SYNC\<close> holds as soon as one of the two
  bits of \<open>O_SYNC\<close> is set, so the output cannot tell the two apart.
\<close>

theorem dsync_reported_as_sync:
  assumes "and flags (fcntl_val ''O_DSYNC'') \<noteq> 0"
  shows "{''O_DSYNC'', ''O_SYNC''} \<subseteq> set (filter (\<lambda>f. and flags (fcntl_val f) \<noteq> 0) openat_flag_names)"
proof -
  have v: "fcntl_val ''O_DSYNC'' = 0x1000" "fcntl_val ''O_SYNC'' = 0x101000"
    by (simp_all add: fcntl_val_def arm64_fcntl_h_def generic_fcntl_h_def)
  have "and (and flags 0x101000) 0x1000 = and flags 0x1000" by (simp add: and.assoc)
  then have "and flags 0x101000 \<noteq> 0" using assms v by auto
  with assms v show ?thesis by (simp add: openat_flag_names_def)
qed

theorem dsync_reported_as_sync_witness:
  "{''O_DSYNC'', ''O_SYNC''} \<subseteq> set (filter (\<lambda>f. and 0x1000 (fcntl_val f) \<noteq> 0) openat_flag_names)"
  by (rule dsync_reported_as_sync) (simp add: fcntl_val_def arm64_fcntl_h_def generic_fcntl_h_def)





text \<open>
  Errors.  A return value \<open>-v\<close> with \<open>v\<close> a positive \<open>int\<close> is printed as \<open>-1\<close> with the name and message of error
  \<open>v\<close>; a non-negative one is printed as a number from which it can be read back.
\<close>

theorem ret_text_correct:
  "(0 < v \<and> v < 2 ^ 31 \<and> sint (ev_ret e) = - v \<longrightarrow>
      ret_text lib e = Some (''-1 '' @ errno_name (of_int v) @ '' ('' @ lib_strerror lib (of_int v) @ '')'')) \<and>
   (0 \<le> sint (ev_ret e) \<longrightarrow> (\<exists>t. ret_text lib e = Some t \<and> int (digits_val 10 t) = sint (ev_ret e)))"
proof (intro conjI impI)
  have word_of_int_sint: "word_of_int (sint w) = w" for w :: i64 by simp
  assume v: "0 < v \<and> v < 2 ^ 31 \<and> sint (ev_ret e) = - v"
  then have "ev_ret e = of_int (- v)" using word_of_int_sint [of "ev_ret e"] by simp
  then have "ucast (- ev_ret e) = (of_int v :: i32)"
    by (simp add: unsigned_of_int ucast_eq word_of_int_eq_iff take_bit_take_bit min_def)
  with v show "ret_text lib e = Some (''-1 '' @ errno_name (of_int v) @ '' ('' @ lib_strerror lib (of_int v) @ '')'')"
    by (simp add: ret_text_def Let_def)
next
  assume "0 \<le> sint (ev_ret e)"
  then show "\<exists>t. ret_text lib e = Some t \<and> int (digits_val 10 t) = sint (ev_ret e)"
    by (simp add: ret_text_def fmt_d_def fmt_int_def digits_val_digits)
qed

theorem ret_text_correct_witness:
  "ret_text ref_text_lib (event_of 0 enter_state_zero (- 2)) = Some (''-1 '' @ errno_name 2 @ '' ('' @ ''Unknown error'' @ '')'')"
  using ret_text_correct [of 2 "event_of 0 enter_state_zero (- 2)" ref_text_lib]
  by (simp add: event_of_def ref_text_lib_def)

end
