(* ===== verification/Strace_Proc.thy ===== *)
theory Strace_Proc
  imports C_Lib
begin

text \<open>
  Finding the target in \<open>libbpfstrace.c\<close>: \<open>parse_pid\<close>, the readers of \<open>/proc\<close>, the
  name comparison and the scan over \<open>/proc\<close>.  The file system is a parameter (the
  contents behind a path, the entries of a directory); every function returns the
  open and close calls it made beside its result.
\<close>

section \<open>Files\<close>

record filesystem =
  fs_file :: "string \<Rightarrow> string option"
  fs_dir :: "string \<Rightarrow> string list option"

datatype file_call = Fopen string | Fclose | Opendir string | Closedir

text \<open>\<open>fgets (buf, n, fp)\<close> and \<open>fread (buf, 1, n, fp)\<close> at the start of a file.\<close>

definition fgets :: "nat \<Rightarrow> string \<Rightarrow> string option" where
  "fgets n content =
     (let rest = dropWhile (\<lambda>ch. ch \<noteq> CHR ''\<newline>'') content
      in if content = [] then None
         else Some (take (n - 1) (takeWhile (\<lambda>ch. ch \<noteq> CHR ''\<newline>'') content @ take 1 rest)))"

definition fread :: "nat \<Rightarrow> string \<Rightarrow> string" where
  "fread n content = take n content"

section \<open>The functions of the tracer\<close>

text \<open>The shared test on \<open>strtol\<close>'s answer in \<open>parse_pid\<close> and \<open>find_pid_by_name\<close>.\<close>

definition parse_pid :: "string \<Rightarrow> i32 option" where
  "parse_pid s =
     (let r = strtol s
      in if st_range r \<or> st_end r = 0 \<or> c_at s (st_end r) \<noteq> Some NUL \<or> st_val r \<le> 0 \<or> st_val r > 0x7fffffff
         then None else Some (of_int (st_val r)))"

definition read_proc_comm :: "filesystem \<Rightarrow> i32 \<Rightarrow> nat \<Rightarrow> file_call list \<times> string option" where
  "read_proc_comm fs pid buf_sz =
     (let path = snprintf 64 (''/proc/'' @ fmt_d pid @ ''/comm'')
      in case fs_file fs path of
           None \<Rightarrow> ([], None)
         | Some content \<Rightarrow>
             ([Fopen path, Fclose],
              case fgets buf_sz content of
                None \<Rightarrow> None
              | Some buf \<Rightarrow> Some (c_str (take (strcspn (c_str buf) (CHR ''\<newline>'')) buf))))"

definition read_proc_cmdline :: "filesystem \<Rightarrow> i32 \<Rightarrow> nat \<Rightarrow> file_call list \<times> string option" where
  "read_proc_cmdline fs pid buf_sz =
     (let path = snprintf 64 (''/proc/'' @ fmt_d pid @ ''/cmdline'')
      in case fs_file fs path of
           None \<Rightarrow> ([], None)
         | Some content \<Rightarrow>
             ([Fopen path, Fclose],
              let buf = fread (buf_sz - 1) content
              in if buf = [] then None else Some (c_str buf)))"

definition process_name_match :: "string \<Rightarrow> string \<Rightarrow> bool" where
  "process_name_match target name =
     (let len = length target
      in if target = name then True
         else if strncmp_eq target name len \<and> c_at name len = Some (CHR '':'') then True
         else False)"

definition name_matches :: "string \<Rightarrow> string option \<Rightarrow> bool" where
  "name_matches target r = (case r of None \<Rightarrow> False | Some name \<Rightarrow> process_name_match target name)"

text \<open>The \<open>readdir\<close> loop.\<close>

fun scan_entries :: "filesystem \<Rightarrow> string \<Rightarrow> string list \<Rightarrow> file_call list \<times> i32 option" where
  "scan_entries fs name [] = ([], None)"
| "scan_entries fs name (d_name # ds) =
     (case parse_pid d_name of
        None \<Rightarrow> scan_entries fs name ds
      | Some v \<Rightarrow>
          (let (log1, cmdline) = read_proc_cmdline fs v 512
           in if name_matches name cmdline then (log1, Some v)
              else let (log2, comm) = read_proc_comm fs v 256
                   in if name_matches name comm then (log1 @ log2, Some v)
                      else let (log3, r) = scan_entries fs name ds in (log1 @ log2 @ log3, r)))"

definition find_pid_by_name :: "filesystem \<Rightarrow> string \<Rightarrow> file_call list \<times> i32 option" where
  "find_pid_by_name fs name =
     (case fs_dir fs ''/proc'' of
        None \<Rightarrow> ([], None)
      | Some ds \<Rightarrow> let (log, r) = scan_entries fs name ds in (Opendir ''/proc'' # log @ [Closedir], r))"

section \<open>Lemmas\<close>

lemma c_at_end: "NUL \<notin> set s \<Longrightarrow> c_at s i = Some NUL \<longleftrightarrow> i = length s"
  by (auto simp: c_at_def) (metis nth_mem)

lemma sign_not_space: "isspace c \<Longrightarrow> c \<noteq> CHR ''+'' \<and> c \<noteq> CHR ''-''"
  by (auto simp: isspace_def)

lemma strtol_sign_pos:
  "strtol_sign t = (False, ds) \<longleftrightarrow> (t = CHR ''+'' # ds \<or> (t = ds \<and> (ds = [] \<or> hd ds \<notin> {CHR ''+'', CHR ''-''})))"
  by (cases t) auto

text \<open>\<open>strtol\<close> on blanks, an optional plus sign and digits.\<close>

lemma strtol_plain:
  assumes "\<forall>c \<in> set ws. isspace c" and "sign \<in> {[], ''+''}" and "ds \<noteq> []" and "\<forall>c \<in> set ds. isdigit c"
    and "int (digits_val 10 ds) \<le> LONG_MAX"
  shows "strtol (ws @ sign @ ds) =
    \<lparr>st_val = int (digits_val 10 ds), st_end = length (ws @ sign @ ds), st_range = False\<rparr>"
proof -
  obtain d ds' where ds: "ds = d # ds'" using assms(3) by (cases ds) auto
  then have d: "\<not> isspace d" "d \<noteq> CHR ''+''" "d \<noteq> CHR ''-''"
    using assms(4) isdigit_not_space_sign [of d] by auto
  have "\<not> isspace (CHR ''+'')" by (simp add: isspace_def)
  then have "dropWhile isspace (ws @ sign @ ds) = sign @ ds"
    using assms(1,2) d ds by (auto simp: dropWhile_append2)
  moreover have "strtol_sign (sign @ ds) = (False, ds)" using assms(2) d ds by auto
  moreover have digs: "takeWhile isdigit ds = ds" "dropWhile isdigit ds = []"
    using assms(4) by (simp_all add: takeWhile_eq_all_conv dropWhile_eq_Nil_conv)
  ultimately show ?thesis
    unfolding strtol_def using assms(3,5) by (simp add: digs LONG_MIN_def del: takeWhile_eq_all_conv)
qed

lemma strtol_positive:
  assumes "st_end (strtol s) = length s" and "0 < st_val (strtol s)" and "\<not> st_range (strtol s)"
  obtains ws sign ds where "s = ws @ sign @ ds" and "\<forall>c \<in> set ws. isspace c" and "sign \<in> {[], ''+''}"
    and "ds \<noteq> []" and "\<forall>c \<in> set ds. isdigit c" and "st_val (strtol s) = int (digits_val 10 ds)"
proof -
  let ?ws = "takeWhile isspace s" and ?t = "dropWhile isspace s"
  obtain neg s2 where sg: "strtol_sign ?t = (neg, s2)" by (cases "strtol_sign ?t")
  let ?ds = "takeWhile isdigit s2"
  have ds: "?ds \<noteq> []" "\<not> neg" and val: "st_val (strtol s) = int (digits_val 10 ?ds)"
    and len: "length s - length (dropWhile isdigit s2) = length s"
    using assms sg by (auto simp: strtol_def Let_def split: if_splits)
  have "s \<noteq> []" using ds(1) sg by auto
  with len have "dropWhile isdigit s2 = []" by (cases "dropWhile isdigit s2"; cases s) auto
  then have s2: "s2 = ?ds" by (metis append_Nil2 takeWhile_dropWhile_id)
  have "?t = ''+'' @ s2 \<or> ?t = [] @ s2" using sg ds(2) strtol_sign_pos [of ?t s2] by auto
  then obtain sign where sign: "?t = sign @ s2" "sign \<in> {[], ''+''}" by blast
  show thesis
  proof (rule that)
    show "s = ?ws @ sign @ s2" using sign(1) takeWhile_dropWhile_id [of isspace s] by simp
    show "\<forall>c \<in> set ?ws. isspace c" by (auto dest: set_takeWhileD)
    show "sign \<in> {[], ''+''}" by (rule sign(2))
    show "s2 \<noteq> []" using ds(1) s2 by auto
    show "\<forall>c \<in> set s2. isdigit c" using s2 by (metis set_takeWhileD)
    show "st_val (strtol s) = int (digits_val 10 s2)" using val s2 by simp
  qed
qed

definition pid_text :: "string \<Rightarrow> nat \<Rightarrow> bool" where
  "pid_text s n \<longleftrightarrow> (\<exists>ws sign ds. s = ws @ sign @ ds \<and> (\<forall>c \<in> set ws. isspace c) \<and> sign \<in> {[], ''+''} \<and>
     ds \<noteq> [] \<and> (\<forall>c \<in> set ds. isdigit c) \<and> digits_val 10 ds = n)"

lemma pid_text_digits: "pid_text (digits 10 n) n"
  unfolding pid_text_def
  by (rule exI [of _ "[]"], rule exI [of _ "[]"], rule exI [of _ "digits 10 n"])
    (auto simp: digits_val_digits intro: isdigit_digits)

lemma parse_pid_of_text:
  assumes "NUL \<notin> set s" and "pid_text s n" and "0 < n" and "n \<le> 0x7fffffff"
  shows "parse_pid s = Some (of_nat n)"
proof -
  obtain ws sign ds where s: "s = ws @ sign @ ds" "\<forall>c \<in> set ws. isspace c" "sign \<in> {[], ''+''}" "ds \<noteq> []"
    "\<forall>c \<in> set ds. isdigit c" "digits_val 10 ds = n" using assms(2) unfolding pid_text_def by blast
  have "strtol s = \<lparr>st_val = int n, st_end = length s, st_range = False\<rparr>"
    using strtol_plain [OF s(2-5)] s(1,6) assms(4) by (simp add: LONG_MAX_def)
  with assms s(1,4) show ?thesis by (simp add: parse_pid_def Let_def c_at_end)
qed

lemma parse_pid_Some:
  assumes "NUL \<notin> set s" and "parse_pid s = Some p"
  shows "\<exists>n. pid_text s n \<and> 0 < n \<and> n \<le> 0x7fffffff \<and> p = of_nat n"
proof -
  have r: "st_end (strtol s) = length s" "0 < st_val (strtol s)" "\<not> st_range (strtol s)"
    "st_val (strtol s) \<le> 0x7fffffff" "p = of_int (st_val (strtol s))"
    using assms by (auto simp: parse_pid_def Let_def c_at_end split: if_splits)
  from strtol_positive [OF r(1-3)] obtain ws sign ds where "s = ws @ sign @ ds" "\<forall>c \<in> set ws. isspace c"
    "sign \<in> {[], ''+''}" "ds \<noteq> []" "\<forall>c \<in> set ds. isdigit c" and v: "st_val (strtol s) = int (digits_val 10 ds)" .
  then have "pid_text s (digits_val 10 ds)" unfolding pid_text_def by blast
  with r v show ?thesis by (intro exI [of _ "digits_val 10 ds"]) simp
qed

lemma parse_pid_positive: "parse_pid s = Some p \<Longrightarrow> 0 < sint p"
proof -
  assume "parse_pid s = Some p"
  then have v: "0 < st_val (strtol s)" "st_val (strtol s) \<le> 0x7fffffff" "p = of_int (st_val (strtol s))"
    by (auto simp: parse_pid_def Let_def split: if_splits)
  have "sint p = st_val (strtol s)"
    unfolding v(3) using v(1,2) by (simp add: signed_of_int signed_take_bit_int_eq_self)
  with v(1) show "0 < sint p" by simp
qed

lemma process_name_match_iff:
  assumes "NUL \<notin> set target" and "NUL \<notin> set name"
  shows "process_name_match target name \<longleftrightarrow> name = target \<or> (\<exists>r. name = target @ CHR '':'' # r)"
proof -
  have "take (length target) name = target \<and> c_at name (length target) = Some (CHR '':'') \<longleftrightarrow>
      (\<exists>r. name = target @ CHR '':'' # r)"
  proof
    assume *: "take (length target) name = target \<and> c_at name (length target) = Some (CHR '':'')"
    then have "length target < length name" "name ! length target = CHR '':''"
      by (auto simp: c_at_def split: if_splits)
    then have "name = take (length target) name @ CHR '':'' # drop (Suc (length target)) name"
      using id_take_nth_drop by metis
    with * show "\<exists>r. name = target @ CHR '':'' # r" by metis
  qed (auto simp: c_at_def)
  then show ?thesis
    using strncmp_eq_prefix [OF assms] by (auto simp: process_name_match_def Let_def)
qed

definition entry_matches :: "filesystem \<Rightarrow> string \<Rightarrow> i32 \<Rightarrow> bool" where
  "entry_matches fs name pid \<longleftrightarrow>
     name_matches name (snd (read_proc_cmdline fs pid 512)) \<or> name_matches name (snd (read_proc_comm fs pid 256))"

lemma scan_entries_find:
  "snd (scan_entries fs name ds) = List.find (entry_matches fs name) (List.map_filter parse_pid ds)"
  by (induction ds) (auto simp: entry_matches_def map_filter_simps split: option.splits prod.splits)

text \<open>Open and close calls match: \<open>open_handles\<close> counts the handles left open.\<close>

fun handle_change :: "file_call \<Rightarrow> int" where
  "handle_change (Fopen p) = 1"
| "handle_change Fclose = -1"
| "handle_change (Opendir p) = 1"
| "handle_change Closedir = -1"

definition open_handles :: "file_call list \<Rightarrow> int" where
  "open_handles log = sum_list (map handle_change log)"

lemma open_handles_simps [simp]:
  "open_handles [] = 0" "open_handles (x # xs) = handle_change x + open_handles xs"
  "open_handles (xs @ ys) = open_handles xs + open_handles ys"
  by (simp_all add: open_handles_def)

lemma read_proc_handles [simp]:
  "open_handles (fst (read_proc_comm fs pid n)) = 0" "open_handles (fst (read_proc_cmdline fs pid n)) = 0"
  by (simp_all add: read_proc_comm_def read_proc_cmdline_def Let_def split: option.splits)

lemma scan_handles: "open_handles (fst (scan_entries fs name ds)) = 0"
  by (induction ds) (simp_all add: case_prod_beta Let_def split: option.split)

section \<open>Properties\<close>

text \<open>
  (C21) \<open>parse_pid\<close> accepts exactly the C strings made of blanks, an optional plus sign and decimal digits with a
  value between 1 and 2147483647, and returns that value; in particular it reads back every printed pid.
\<close>

theorem parse_pid_correct:
  assumes "NUL \<notin> set s"
  shows "(parse_pid s = Some p \<longleftrightarrow> (\<exists>n. pid_text s n \<and> 0 < n \<and> n \<le> 0x7fffffff \<and> p = of_nat n)) \<and>
    (\<forall>n. 0 < n \<and> n \<le> 0x7fffffff \<longrightarrow> parse_pid (digits 10 n) = Some (of_nat n))"
proof (intro conjI allI impI)
  show "parse_pid s = Some p \<longleftrightarrow> (\<exists>n. pid_text s n \<and> 0 < n \<and> n \<le> 0x7fffffff \<and> p = of_nat n)"
    using parse_pid_Some [OF assms] parse_pid_of_text [OF assms] by blast
  show "parse_pid (digits 10 n) = Some (of_nat n)" if "0 < n \<and> n \<le> 0x7fffffff" for n
    using parse_pid_of_text [OF _ pid_text_digits] that by simp
qed

theorem parse_pid_correct_witness:
  "parse_pid ''1234'' = Some 1234 \<longleftrightarrow> (\<exists>n. pid_text ''1234'' n \<and> 0 < n \<and> n \<le> 0x7fffffff \<and> (1234 :: i32) = of_nat n)"
  using parse_pid_correct [of "''1234''" 1234] by simp

text \<open>
  (C22) \<open>process_name_match\<close> accepts exactly the target name and the Android form with a colon and a suffix, and when
  it reads \<open>name[len]\<close> that index is inside the string or its terminator.
\<close>

theorem process_name_match_correct:
  assumes "NUL \<notin> set target" and "NUL \<notin> set name"
  shows "(process_name_match target name \<longleftrightarrow> name = target \<or> (\<exists>suffix. name = target @ '':'' @ suffix)) \<and>
    (strncmp_eq target name (length target) \<longrightarrow> c_at name (length target) \<noteq> None)"
proof
  show "process_name_match target name \<longleftrightarrow> name = target \<or> (\<exists>suffix. name = target @ '':'' @ suffix)"
    using process_name_match_iff [OF assms] by simp
  have "length target \<le> length name" if "take (length target) name = target"
    using that by (metis length_take min.cobounded1 min.commute)
  then show "strncmp_eq target name (length target) \<longrightarrow> c_at name (length target) \<noteq> None"
    using strncmp_eq_prefix [OF assms] by (auto simp: c_at_def)
qed

theorem process_name_match_correct_witness:
  "process_name_match ''com.app'' ''com.app:remote'' \<longleftrightarrow>
     ''com.app:remote'' = ''com.app'' \<or> (\<exists>suffix. ''com.app:remote'' = ''com.app'' @ '':'' @ suffix)"
  using process_name_match_correct [of "''com.app''" "''com.app:remote''"] by simp

text \<open>
  (C20) \<open>find_pid_by_name\<close> returns the first entry of \<open>/proc\<close>, in directory order, that is a pid and whose command
  line or name matches, and fails when there is none; on every path each file and directory it opened is closed.
\<close>

theorem find_pid_by_name_correct:
  "snd (find_pid_by_name fs name) =
     (case fs_dir fs ''/proc'' of None \<Rightarrow> None
      | Some ds \<Rightarrow> List.find (entry_matches fs name) (List.map_filter parse_pid ds)) \<and>
   open_handles (fst (find_pid_by_name fs name)) = 0"
  using scan_entries_find [of fs name] scan_handles [of fs name]
  by (auto simp: find_pid_by_name_def split: option.splits prod.splits) (metis fst_conv snd_conv)+

end
