(* ===== verification/Skel.thy ===== *)
theory Skel
  imports Prelude
begin

text \<open>
  The generated skeleton \<open>out/libbpfstrace.skel.h\<close>: allocation of the object and of
  its skeleton, opening, loading, attaching and destroying.  The functions of libbpf
  it calls are parameters (\<open>skel_lib\<close>: whether an allocation succeeds and what the
  calls return); each function returns the list of calls it made, and
  \<open>run_calls\<close> says what they do to the blocks that are live.
\<close>

section \<open>Blocks and calls\<close>

datatype skel_block = Blk_Obj | Blk_Skeleton | Blk_Maps | Blk_Progs | Blk_Bpf_Object

datatype skel_call =
  Calloc skel_block
| Open_Skeleton int
| Load_Skeleton int
| Attach_Skeleton int
| Detach_Skeleton
| Destroy_Skeleton bool \<comment> \<open>whether the argument is not \<open>NULL\<close>\<close>
| Free_Obj

record skel_lib =
  calloc_ok :: "skel_block \<Rightarrow> bool"
  open_skeleton_rc :: int
  load_skeleton_rc :: int
  attach_skeleton_rc :: int

text \<open>
  \<open>bpf_object__destroy_skeleton\<close> closes the object and frees the skeleton with its
  tables, and ignores \<open>NULL\<close>; \<open>None\<close> is a use of a block that is not live.
\<close>

fun skel_effect :: "skel_call \<Rightarrow> skel_block set \<Rightarrow> skel_block set option" where
  "skel_effect (Calloc b) live = (if b \<in> live then None else Some (insert b live))"
| "skel_effect (Open_Skeleton rc) live =
     (if Blk_Skeleton \<in> live then Some (if rc = 0 then insert Blk_Bpf_Object live else live) else None)"
| "skel_effect (Load_Skeleton rc) live = (if Blk_Bpf_Object \<in> live then Some live else None)"
| "skel_effect (Attach_Skeleton rc) live = (if Blk_Bpf_Object \<in> live then Some live else None)"
| "skel_effect Detach_Skeleton live = (if Blk_Bpf_Object \<in> live then Some live else None)"
| "skel_effect (Destroy_Skeleton present) live =
     (if \<not> present then Some live
      else if Blk_Skeleton \<in> live then Some (live - {Blk_Skeleton, Blk_Maps, Blk_Progs, Blk_Bpf_Object})
      else None)"
| "skel_effect Free_Obj live = (if Blk_Obj \<in> live then Some (live - {Blk_Obj}) else None)"

fun run_calls :: "skel_call list \<Rightarrow> skel_block set \<Rightarrow> skel_block set option" where
  "run_calls [] live = Some live"
| "run_calls (c # cs) live = (case skel_effect c live of None \<Rightarrow> None | Some live' \<Rightarrow> run_calls cs live')"

section \<open>The skeleton\<close>

record map_skel =
  ms_name :: string
  ms_map :: string \<comment> \<open>the member of \<open>obj->maps\<close> it fills\<close>
  ms_mmaped :: "string option"

record prog_skel =
  ps_name :: string
  ps_prog :: string
  ps_link :: string

record bpf_object_skeleton =
  sk_name :: string
  sk_maps :: "map_skel list"
  sk_progs :: "prog_skel list"
  sk_data_sz :: nat

record libbpfstrace_bpf =
  skeleton :: "bpf_object_skeleton option"
  rodata_target_tgid :: i32

definition ENOMEM :: int where "ENOMEM = 12"

definition strace_maps :: "map_skel list" where
  "strace_maps =
     [\<lparr>ms_name = ''inflight'', ms_map = ''inflight'', ms_mmaped = None\<rparr>,
      \<lparr>ms_name = ''events'', ms_map = ''events'', ms_mmaped = None\<rparr>,
      \<lparr>ms_name = ''libbpfst.rodata'', ms_map = ''rodata'', ms_mmaped = Some ''rodata''\<rparr>]"

definition strace_progs :: "prog_skel list" where
  "strace_progs =
     [\<lparr>ps_name = ''handle_sys_enter'', ps_prog = ''handle_sys_enter'', ps_link = ''handle_sys_enter''\<rparr>,
      \<lparr>ps_name = ''handle_sys_exit'', ps_prog = ''handle_sys_exit'', ps_link = ''handle_sys_exit''\<rparr>]"

definition libbpfstrace_bpf__create_skeleton ::
  "skel_lib \<Rightarrow> libbpfstrace_bpf \<Rightarrow> skel_call list \<times> int \<times> libbpfstrace_bpf" where
  "libbpfstrace_bpf__create_skeleton lib obj =
     (if \<not> calloc_ok lib Blk_Skeleton then ([Destroy_Skeleton False], - ENOMEM, obj)
      else if \<not> calloc_ok lib Blk_Maps then ([Calloc Blk_Skeleton, Destroy_Skeleton True], - ENOMEM, obj)
      else if \<not> calloc_ok lib Blk_Progs then
        ([Calloc Blk_Skeleton, Calloc Blk_Maps, Destroy_Skeleton True], - ENOMEM, obj)
      else ([Calloc Blk_Skeleton, Calloc Blk_Maps, Calloc Blk_Progs], 0,
            obj\<lparr>skeleton := Some \<lparr>sk_name = ''libbpfstrace_bpf'', sk_maps = strace_maps, sk_progs = strace_progs,
                                   sk_data_sz = 15088\<rparr>\<rparr>))"

definition libbpfstrace_bpf__destroy :: "libbpfstrace_bpf option \<Rightarrow> skel_call list" where
  "libbpfstrace_bpf__destroy p =
     (case p of
        None \<Rightarrow> []
      | Some obj \<Rightarrow> (if skeleton obj \<noteq> None then [Destroy_Skeleton True] else []) @ [Free_Obj])"

text \<open>\<open>open_opts\<close>: the calls, the object (\<open>None\<close> is \<open>NULL\<close>) and the \<open>errno\<close> it sets, if any.\<close>

definition libbpfstrace_bpf__open :: "skel_lib \<Rightarrow> skel_call list \<times> libbpfstrace_bpf option \<times> int option" where
  "libbpfstrace_bpf__open lib =
     (if \<not> calloc_ok lib Blk_Obj then ([], None, Some ENOMEM)
      else let (log, err, obj) =
                 libbpfstrace_bpf__create_skeleton lib \<lparr>skeleton = None, rodata_target_tgid = 0\<rparr>
           in if err \<noteq> 0 then (Calloc Blk_Obj # log @ libbpfstrace_bpf__destroy (Some obj), None, Some (- err))
              else let err = open_skeleton_rc lib
                   in if err \<noteq> 0
                      then (Calloc Blk_Obj # log @ [Open_Skeleton err] @ libbpfstrace_bpf__destroy (Some obj),
                            None, Some (- err))
                      else (Calloc Blk_Obj # log @ [Open_Skeleton err], Some obj, None))"

definition libbpfstrace_bpf__load :: "skel_lib \<Rightarrow> skel_call list \<times> int" where
  "libbpfstrace_bpf__load lib = ([Load_Skeleton (load_skeleton_rc lib)], load_skeleton_rc lib)"

definition libbpfstrace_bpf__open_and_load ::
  "skel_lib \<Rightarrow> skel_call list \<times> libbpfstrace_bpf option \<times> int option" where
  "libbpfstrace_bpf__open_and_load lib =
     (let (log, obj, en) = libbpfstrace_bpf__open lib
      in case obj of
           None \<Rightarrow> (log, None, en)
         | Some obj \<Rightarrow>
             let (log2, err) = libbpfstrace_bpf__load lib
             in if err \<noteq> 0 then (log @ log2 @ libbpfstrace_bpf__destroy (Some obj), None, Some (- err))
                else (log @ log2, Some obj, None))"

definition libbpfstrace_bpf__attach :: "skel_lib \<Rightarrow> skel_call list \<times> int" where
  "libbpfstrace_bpf__attach lib = ([Attach_Skeleton (attach_skeleton_rc lib)], attach_skeleton_rc lib)"

definition libbpfstrace_bpf__detach :: "skel_call list" where
  "libbpfstrace_bpf__detach = [Detach_Skeleton]"

section \<open>Lemmas\<close>

lemma run_calls_append:
  "run_calls (xs @ ys) live = (case run_calls xs live of None \<Rightarrow> None | Some l \<Rightarrow> run_calls ys l)"
  by (induction xs arbitrary: live) (simp_all split: option.split)

definition opened_blocks :: "skel_block set" where
  "opened_blocks = {Blk_Obj, Blk_Skeleton, Blk_Maps, Blk_Progs, Blk_Bpf_Object}"

lemmas skel_defs =
  libbpfstrace_bpf__create_skeleton_def libbpfstrace_bpf__destroy_def libbpfstrace_bpf__open_def
  libbpfstrace_bpf__load_def libbpfstrace_bpf__open_and_load_def libbpfstrace_bpf__attach_def opened_blocks_def

lemma open_live:
  assumes "libbpfstrace_bpf__open lib = (log, obj, en)"
  shows "run_calls log {} = Some (if obj = None then {} else opened_blocks)"
    and "obj = None \<longleftrightarrow> \<not> (calloc_ok lib Blk_Obj \<and> calloc_ok lib Blk_Skeleton \<and> calloc_ok lib Blk_Maps \<and>
      calloc_ok lib Blk_Progs \<and> open_skeleton_rc lib = 0)"
  using assms by (auto simp: skel_defs Let_def ENOMEM_def split: if_splits)

lemma open_skeleton_set: "libbpfstrace_bpf__open lib = (log, Some obj, en) \<Longrightarrow> skeleton obj \<noteq> None"
  by (auto simp: skel_defs Let_def ENOMEM_def split: if_splits)

lemma destroy_live: "skeleton obj \<noteq> None \<Longrightarrow> run_calls (libbpfstrace_bpf__destroy (Some obj)) opened_blocks = Some {}"
  by (auto simp: skel_defs)

lemma load_live: "run_calls (fst (libbpfstrace_bpf__load lib)) opened_blocks = Some opened_blocks"
  and attach_live: "run_calls (fst (libbpfstrace_bpf__attach lib)) opened_blocks = Some opened_blocks"
  by (simp_all add: skel_defs)

section \<open>Properties\<close>

text \<open>
  (C15) The skeleton neither leaks nor frees twice.  Whatever allocation or libbpf call fails, \<open>open\<close>, which the tracer
  calls, and \<open>open_and_load\<close> return \<open>NULL\<close> with no block left and \<open>errno\<close> set to the error; when they succeed, which
  they do exactly when every allocation and every call of libbpf they make succeeds, exactly the object, the skeleton, its
  two tables and the BPF object are live, and \<open>destroy\<close> releases each of them once.
\<close>

theorem skeleton_no_leaks:
  assumes "libbpfstrace_bpf__open lib = (log, obj, en)" and "libbpfstrace_bpf__open_and_load lib = (log', obj', en')"
  defines "blocks \<equiv> {Blk_Obj, Blk_Skeleton, Blk_Maps, Blk_Progs, Blk_Bpf_Object}"
    and "allocated \<equiv> \<forall>b \<in> {Blk_Obj, Blk_Skeleton, Blk_Maps, Blk_Progs}. calloc_ok lib b"
  shows "run_calls log {} = Some (if obj = None then {} else blocks) \<and>
    run_calls (log @ libbpfstrace_bpf__destroy obj) {} = Some {} \<and>
    (obj \<noteq> None \<longleftrightarrow> allocated \<and> open_skeleton_rc lib = 0) \<and>
    en = (if \<not> allocated then Some 12 else if open_skeleton_rc lib \<noteq> 0 then Some (- open_skeleton_rc lib) else None) \<and>
    run_calls log' {} = Some (if obj' = None then {} else blocks) \<and>
    run_calls (log' @ libbpfstrace_bpf__destroy obj') {} = Some {} \<and>
    (obj' \<noteq> None \<longleftrightarrow> obj \<noteq> None \<and> load_skeleton_rc lib = 0) \<and>
    en' = (if obj = None then en else if load_skeleton_rc lib \<noteq> 0 then Some (- load_skeleton_rc lib) else None)"
proof -
  have live: "run_calls log {} = Some (if obj = None then {} else opened_blocks)" by (rule open_live(1) [OF assms(1)])
  have b: "blocks = opened_blocks" by (simp add: blocks_def opened_blocks_def)
  have o: "(obj \<noteq> None \<longleftrightarrow> allocated \<and> open_skeleton_rc lib = 0) \<and>
      en = (if \<not> allocated then Some 12 else if open_skeleton_rc lib \<noteq> 0 then Some (- open_skeleton_rc lib) else None)"
    using assms(1) by (auto simp: allocated_def skel_defs Let_def ENOMEM_def split: if_splits)
  show ?thesis
  proof (cases obj)
    case None
    with assms(1,2) have "log' = log" "obj' = None" "en' = en" by (simp_all add: libbpfstrace_bpf__open_and_load_def)
    with None live o show ?thesis by (auto simp: libbpfstrace_bpf__destroy_def)
  next
    case (Some sk)
    have d: "run_calls (libbpfstrace_bpf__destroy (Some sk)) opened_blocks = Some {}"
      using open_skeleton_set assms(1) Some by (intro destroy_live) simp
    have l: "run_calls (log @ [Load_Skeleton (load_skeleton_rc lib)]) {} = Some opened_blocks"
      using live Some load_live [of lib] by (simp add: run_calls_append libbpfstrace_bpf__load_def)
    have "load_skeleton_rc lib = 0 \<and> log' = log @ [Load_Skeleton 0] \<and> obj' = Some sk \<and> en' = None \<or>
      load_skeleton_rc lib \<noteq> 0 \<and> obj' = None \<and> en' = Some (- load_skeleton_rc lib) \<and>
      log' = (log @ [Load_Skeleton (load_skeleton_rc lib)]) @ libbpfstrace_bpf__destroy (Some sk)"
      using assms(1,2) Some
      by (auto simp: libbpfstrace_bpf__open_and_load_def libbpfstrace_bpf__load_def Let_def split: if_splits)
    then show ?thesis
      using live Some o d l unfolding b
      by (elim disjE conjE) (simp_all add: run_calls_append libbpfstrace_bpf__destroy_def [of None] opened_blocks_def)
  qed
qed

theorem skeleton_no_leaks_witness:
  "run_calls [Calloc Blk_Obj, Calloc Blk_Skeleton, Destroy_Skeleton True, Free_Obj] {} = Some {}"
  using skeleton_no_leaks [of "\<lparr>calloc_ok = (\<lambda>b. b \<noteq> Blk_Maps), open_skeleton_rc = 0, load_skeleton_rc = 0,
    attach_skeleton_rc = 0\<rparr>" "[Calloc Blk_Obj, Calloc Blk_Skeleton, Destroy_Skeleton True, Free_Obj]" None "Some ENOMEM"
    "[Calloc Blk_Obj, Calloc Blk_Skeleton, Destroy_Skeleton True, Free_Obj]" None "Some ENOMEM"]
  by (simp add: skel_defs Let_def ENOMEM_def)

end
