(* ===== verification/Poll_Loop.thy ===== *)
theory Poll_Loop
  imports Prelude
begin

text \<open>
  The main loop \<open>libbpfstrace\<close> and \<open>libbpfso\<close> share: poll the ring buffer until a
  signal sets \<open>exiting\<close> or a poll fails.  Time is the number of polls so far: the
  parameters give what the \<open>t\<close>-th read of \<open>exiting\<close> sees, and which records the
  \<open>t\<close>-th \<open>ring_buffer__poll\<close> hands to the callback before it returns.  The loop may
  run for ever, so it is a partial function; \<open>None\<close> is not returning.  The variable
  \<open>err\<close> is an option because C lets it start indeterminate.
\<close>

definition EINTR :: int where "EINTR = 4"

partial_function (option) poll_loop ::
  "(nat \<Rightarrow> bool) \<Rightarrow> (nat \<Rightarrow> bytes list \<times> int) \<Rightarrow> (bytes \<Rightarrow> 'o) \<Rightarrow> nat \<Rightarrow> int option \<Rightarrow> 'o list \<Rightarrow>
   (int option \<times> 'o list) option" where
  "poll_loop exiting poll cb t err out =
     (if exiting t then Some (err, out)
      else let (recs, r) = poll t; out' = out @ map cb recs
           in if r = - EINTR then poll_loop exiting poll cb (Suc t) (Some r) out'
              else if r < 0 then Some (Some r, out')
              else poll_loop exiting poll cb (Suc t) (Some r) out')"

text \<open>A poll that ends the loop.\<close>

definition poll_fatal :: "int \<Rightarrow> bool" where
  "poll_fatal r \<longleftrightarrow> r < 0 \<and> r \<noteq> - EINTR"

text \<open>The contract of a run that stops after \<open>n\<close> polls because of \<open>exiting\<close>, or in poll \<open>n\<close>.\<close>

definition polls_until :: "(nat \<Rightarrow> bool) \<Rightarrow> (nat \<Rightarrow> bytes list \<times> int) \<Rightarrow> nat \<Rightarrow> nat \<Rightarrow> bool" where
  "polls_until exiting poll t n \<longleftrightarrow> t \<le> n \<and> (\<forall>k. t \<le> k \<and> k < n \<longrightarrow> \<not> exiting k \<and> \<not> poll_fatal (snd (poll k)))"

lemma polls_until_Suc:
  "polls_until exiting poll t n \<Longrightarrow> t \<noteq> n \<Longrightarrow> \<not> exiting t \<and> \<not> poll_fatal (snd (poll t)) \<and> polls_until exiting poll (Suc t) n"
  by (auto simp: polls_until_def)

lemma poll_loop_step:
  "\<not> exiting t \<Longrightarrow> \<not> poll_fatal (snd (poll t)) \<Longrightarrow>
   poll_loop exiting poll cb t err out =
     poll_loop exiting poll cb (Suc t) (Some (snd (poll t))) (out @ map cb (fst (poll t)))"
  by (subst poll_loop.simps) (auto simp: poll_fatal_def Let_def split: prod.splits)

lemma poll_loop_prefix:
  assumes "polls_until exiting poll t n"
  shows "poll_loop exiting poll cb t err out =
    poll_loop exiting poll cb n (if t = n then err else Some (snd (poll (n - 1))))
      (out @ map cb (concat (map (fst \<circ> poll) [t..<n])))"
  using assms
proof (induction "n - t" arbitrary: t err out)
  case 0
  then show ?case by (simp add: polls_until_def)
next
  case (Suc d)
  then have "t \<noteq> n" "t < n" by auto
  with Suc.prems have step: "\<not> exiting t" "\<not> poll_fatal (snd (poll t))" "polls_until exiting poll (Suc t) n"
    using polls_until_Suc by blast+
  have "d = n - Suc t" using Suc.hyps(2) by simp
  note IH = Suc.hyps(1) [OF this step(3)]
  have "Suc t = n \<Longrightarrow> t = n - 1" by simp
  then show ?case
    using \<open>t < n\<close> by (subst poll_loop_step [of exiting t poll, OF step(1,2)], subst IH) (auto simp: upt_conv_Cons)
qed

lemma poll_loop_exiting:
  assumes "polls_until exiting poll t n" and "exiting n"
  shows "poll_loop exiting poll cb t err out =
    Some (if t = n then err else Some (snd (poll (n - 1))), out @ map cb (concat (map (fst \<circ> poll) [t..<n])))"
  by (subst poll_loop_prefix [OF assms(1)], subst poll_loop.simps) (simp add: assms(2))

lemma poll_loop_failed:
  assumes "polls_until exiting poll t n" and "\<not> exiting n" and "poll_fatal (snd (poll n))"
  shows "poll_loop exiting poll cb t err out =
    Some (Some (snd (poll n)), out @ map cb (concat (map (fst \<circ> poll) [t..<Suc n])))"
proof -
  have "poll_loop exiting poll cb n e o' = Some (Some (snd (poll n)), o' @ map cb (fst (poll n)))" for e o'
    using assms(2,3) by (subst poll_loop.simps) (auto simp: poll_fatal_def Let_def split: prod.splits)
  then show ?thesis
    by (subst poll_loop_prefix [OF assms(1)]) (use assms(1) in \<open>simp add: polls_until_def\<close>)
qed

text \<open>The loop returns as soon as \<open>exiting\<close> is seen or a poll fails, and it polls nothing after that.\<close>

lemma first_stop:
  assumes "exiting n \<or> poll_fatal (snd (poll n))" and "t \<le> n"
  obtains k where "polls_until exiting poll t k" and "k \<le> n" and "exiting k \<or> poll_fatal (snd (poll k))"
proof -
  let ?P = "\<lambda>k. t \<le> k \<and> (exiting k \<or> poll_fatal (snd (poll k)))"
  define k where "k = (LEAST k. ?P k)"
  have "?P k" unfolding k_def using assms by (intro LeastI [of ?P n]) simp
  moreover have "k \<le> n" unfolding k_def using assms by (intro Least_le) simp
  moreover have "\<not> ?P j" if "j < k" for j using that not_less_Least unfolding k_def by blast
  ultimately show thesis using that [of k] by (auto simp: polls_until_def)
qed

lemma poll_loop_returns:
  assumes "exiting n \<or> poll_fatal (snd (poll n))" and "t \<le> n"
  shows "poll_loop exiting poll cb t err out \<noteq> None"
proof -
  obtain k where "polls_until exiting poll t k" "exiting k \<or> poll_fatal (snd (poll k))"
    using first_stop [of exiting n poll t] assms by blast
  then show ?thesis
    using poll_loop_exiting [of exiting poll t k cb err out] poll_loop_failed [of exiting poll t k cb err out]
    by (cases "exiting k") auto
qed

lemma poll_loop_stopped:
  assumes "poll_loop exiting poll cb t err out = Some y"
  shows "\<exists>k \<ge> t. exiting k \<or> poll_fatal (snd (poll k))"
proof (rule poll_loop.raw_induct [OF _ assms,
      where P = "\<lambda>ex po cb t err out y. \<exists>k \<ge> t. ex k \<or> poll_fatal (snd (po k))"])
  fix rec ex po cb t err out y
  assume IH: "\<And>ex po cb t err out y. rec ex po cb t err out = Some y \<Longrightarrow> \<exists>k \<ge> t. ex k \<or> poll_fatal (snd (po k))"
    and body: "(if ex t then Some (err, out)
      else let (recs, r) = po t; out' = out @ map cb recs
           in if r = - EINTR then rec ex po cb (Suc t) (Some r) out'
              else if r < 0 then Some (Some r, out') else rec ex po cb (Suc t) (Some r) out') = Some y"
  show "\<exists>k \<ge> t. ex k \<or> poll_fatal (snd (po k))"
  proof (cases "ex t \<or> poll_fatal (snd (po t))")
    case False
    then have "rec ex po cb (Suc t) (Some (snd (po t))) (out @ map cb (fst (po t))) = Some y"
      using body by (cases "po t") (auto simp: poll_fatal_def Let_def split: if_splits)
    from IH [OF this] obtain k where "Suc t \<le> k" "ex k \<or> poll_fatal (snd (po k))" by auto
    then show ?thesis by (intro exI [of _ k]) simp
  qed blast
qed

lemma poll_loop_output:
  assumes "poll_loop ex po cb t err out = Some (e, o')"
  obtains recs where "o' = out @ map cb recs"
proof -
  obtain n where "t \<le> n" "ex n \<or> poll_fatal (snd (po n))" using poll_loop_stopped [OF assms] by blast
  then obtain k where "polls_until ex po t k" "ex k \<or> poll_fatal (snd (po k))"
    using first_stop [of ex n po t] by blast
  then show thesis
    using poll_loop_exiting [of ex po t k cb err out] poll_loop_failed [of ex po t k cb err out] assms that
    by (cases "ex k") auto
qed

end
