(* ===== verification/Strace_Main.thy ===== *)
theory Strace_Main
  imports Strace_Output Strace_Proc Skel Poll_Loop
begin

text \<open>
  \<open>main\<close> of \<open>libbpfstrace.c\<close>: find the target, open, configure, load and attach the
  skeleton, poll the ring buffer, release everything.  The environment gives what
  each read of \<open>exiting\<close>, each scan of \<open>/proc\<close>, each libbpf call and each poll
  answers; the result is the exit status and the list of calls in program order.
  The loops may run for ever, then the result is \<open>None\<close>.
\<close>

section \<open>Environment and calls\<close>

record strace_env =
  wait_exiting :: "nat \<Rightarrow> bool"            \<comment> \<open>\<open>exiting\<close> in the loop that waits for the process\<close>
  after_wait_exiting :: bool               \<comment> \<open>\<open>exiting\<close> in the test after that loop\<close>
  proc_at :: "nat \<Rightarrow> filesystem"           \<comment> \<open>\<open>/proc\<close> at the \<open>t\<close>-th scan\<close>
  skel_env :: skel_lib
  rb_new_errno :: "int option"             \<comment> \<open>\<open>errno\<close> when \<open>ring_buffer__new\<close> returns \<open>NULL\<close>\<close>
  poll_exiting :: "nat \<Rightarrow> bool"            \<comment> \<open>\<open>exiting\<close> in the main loop\<close>
  poll_at :: "nat \<Rightarrow> bytes list \<times> int"     \<comment> \<open>records and result of the \<open>t\<close>-th poll\<close>

datatype main_call =
  Print string
| Eprint string
| Install_Signals
| Scan "file_call list"
| Sleep
| Libbpf_Init
| Skel_Calls "skel_call list"
| Set_Target i32
| Rb_New bool
| Event_Output "string option"
| Rb_Free bool

section \<open>The messages\<close>

definition msg_usage :: "string \<Rightarrow> string" where
  "msg_usage prog = ''Usage: '' @ prog @ '' <pid|process_name>\<newline>''"

definition quoted :: "string \<Rightarrow> string" where
  "quoted s = [CHR 0x27] @ s @ [CHR 0x27]"

definition msg_waiting :: "string \<Rightarrow> string" where
  "msg_waiting arg = ''waiting for process name '' @ quoted arg @ '' ...\<newline>''"

definition msg_interrupted :: "string \<Rightarrow> string" where
  "msg_interrupted arg = ''interrupted before process '' @ quoted arg @ '' started\<newline>''"

definition msg_found :: "string \<Rightarrow> i32 \<Rightarrow> string" where
  "msg_found arg p = ''found process '' @ quoted arg @ '' with pid='' @ fmt_d p @ ''\<newline>''"

definition msg_open_failed :: string where
  "msg_open_failed = ''failed to open skeleton\<newline>''"

definition msg_failed :: "string \<Rightarrow> string \<Rightarrow> string" where
  "msg_failed what why = ''failed to '' @ what @ '': '' @ why @ ''\<newline>''"

definition msg_started :: "bool \<Rightarrow> string \<Rightarrow> i32 \<Rightarrow> string" where
  "msg_started is_pid arg p =
     (if is_pid then ''libbpfstrace started, tracing pid='' @ fmt_d p @ ''\<newline>''
      else ''libbpfstrace started, tracing process '' @ quoted arg @ '' pid='' @ fmt_d p @ ''\<newline>'')"

section \<open>The program\<close>

partial_function (option) wait_loop ::
  "strace_env \<Rightarrow> string \<Rightarrow> nat \<Rightarrow> main_call list \<Rightarrow> (main_call list \<times> i32) option" where
  "wait_loop env name t log =
     (if wait_exiting env t then Some (log, 0)
      else let (calls, r) = find_pid_by_name (proc_at env t) name
           in case r of
                Some p \<Rightarrow> Some (log @ [Scan calls], p)
              | None \<Rightarrow> wait_loop env name (Suc t) (log @ [Scan calls, Sleep]))"

definition cleanup :: "bool \<Rightarrow> libbpfstrace_bpf \<Rightarrow> int option \<Rightarrow> main_call list \<Rightarrow> int \<times> main_call list" where
  "cleanup rb skel err log =
     (if err = Some 0 then 0 else 1, log @ [Rb_Free rb, Skel_Calls (libbpfstrace_bpf__destroy (Some skel))])"

definition strace_callback :: "text_lib \<Rightarrow> unistd_cfg \<Rightarrow> bytes \<Rightarrow> main_call" where
  "strace_callback lib cfg data = Event_Output (map_option snd (handle_event lib cfg data))"

definition poll_message :: "int option \<Rightarrow> main_call list" where
  "poll_message err =
     (case err of
        None \<Rightarrow> []
      | Some r \<Rightarrow> if poll_fatal r then [Eprint (''ring_buffer__poll failed: '' @ fmt_int r @ ''\<newline>'')] else [])"

text \<open>From \<open>libbpf_set_strict_mode\<close> to the end.\<close>

definition trace_target ::
  "text_lib \<Rightarrow> unistd_cfg \<Rightarrow> strace_env \<Rightarrow> string \<Rightarrow> bool \<Rightarrow> i32 \<Rightarrow> main_call list \<Rightarrow> (int \<times> main_call list) option" where
  "trace_target lib cfg env arg is_pid target_pid log =
     (let (calls, skel, en) = libbpfstrace_bpf__open (skel_env env);
          log = log @ [Libbpf_Init, Skel_Calls calls]
      in case skel of
           None \<Rightarrow> Some (1, log @ [Eprint msg_open_failed])
         | Some skel \<Rightarrow>
             (let skel = skel\<lparr>rodata_target_tgid := target_pid\<rparr>;
                  (calls, err) = libbpfstrace_bpf__load (skel_env env);
                  log = log @ [Set_Target (rodata_target_tgid skel), Skel_Calls calls]
              in if err \<noteq> 0 then
                   Some (cleanup False skel (Some err)
                     (log @ [Eprint (msg_failed ''load BPF object'' (fmt_int err))]))
                 else let (calls, err) = libbpfstrace_bpf__attach (skel_env env); log = log @ [Skel_Calls calls]
                 in if err \<noteq> 0 then
                   Some (cleanup False skel (Some err)
                     (log @ [Eprint (msg_failed ''attach BPF programs'' (fmt_int err))]))
                 else case rb_new_errno env of
                   Some en \<Rightarrow>
                     Some (cleanup False skel (Some (- en))
                       (log @ [Rb_New False,
                         Eprint (msg_failed ''create ring buffer'' (lib_strerror lib (of_int en)))]))
                 | None \<Rightarrow>
                     (let log = log @ [Rb_New True, Print (msg_started is_pid arg target_pid)]
                      in case poll_loop (poll_exiting env) (poll_at env) (strace_callback lib cfg) 0 (Some err) [] of
                           None \<Rightarrow> None
                         | Some (err, out) \<Rightarrow> Some (cleanup True skel err (log @ out @ poll_message err)))))"

definition main :: "text_lib \<Rightarrow> unistd_cfg \<Rightarrow> strace_env \<Rightarrow> string list \<Rightarrow> (int \<times> main_call list) option" where
  "main lib cfg env argv =
     (if length argv \<noteq> 2 then
        Some (1, [Eprint (msg_usage (argv ! 0))])
      else let arg = argv ! 1
      in case parse_pid arg of
           Some p \<Rightarrow> trace_target lib cfg env arg True p [Install_Signals]
         | None \<Rightarrow>
             (case wait_loop env arg 0
                 [Install_Signals, Print (msg_waiting arg)] of
                None \<Rightarrow> None
              | Some (log, p) \<Rightarrow>
                  if after_wait_exiting env \<or> sint p \<le> 0 then
                    Some (1, log @ [Eprint (msg_interrupted arg)])
                  else trace_target lib cfg env arg False p
                    (log @ [Print (msg_found arg p)])))"

section \<open>What a run leaves behind\<close>

fun skel_part :: "main_call \<Rightarrow> skel_call list" where
  "skel_part (Skel_Calls cs) = cs"
| "skel_part _ = []"

fun file_part :: "main_call \<Rightarrow> file_call list" where
  "file_part (Scan cs) = cs"
| "file_part _ = []"

fun rb_part :: "main_call \<Rightarrow> int" where
  "rb_part (Rb_New ok) = (if ok then 1 else 0)"
| "rb_part (Rb_Free ok) = (if ok then -1 else 0)"
| "rb_part _ = 0"

definition skel_calls :: "main_call list \<Rightarrow> skel_call list" where
  "skel_calls log = concat (map skel_part log)"

definition file_handles :: "main_call list \<Rightarrow> int" where
  "file_handles log = open_handles (concat (map file_part log))"

definition rb_count :: "main_call list \<Rightarrow> int" where
  "rb_count log = sum_list (map rb_part log)"

lemma parts_simps [simp]:
  "skel_calls [] = []" "skel_calls (x # xs) = skel_part x @ skel_calls xs"
  "skel_calls (xs @ ys) = skel_calls xs @ skel_calls ys"
  "file_handles [] = 0" "file_handles (x # xs) = open_handles (file_part x) + file_handles xs"
  "file_handles (xs @ ys) = file_handles xs + file_handles ys"
  "rb_count [] = 0" "rb_count (x # xs) = rb_part x + rb_count xs" "rb_count (xs @ ys) = rb_count xs + rb_count ys"
  by (simp_all add: skel_calls_def file_handles_def rb_count_def)

text \<open>No skeleton block, no file handle and no ring buffer is left, and none was released twice.\<close>

definition released :: "main_call list \<Rightarrow> bool" where
  "released log \<longleftrightarrow> run_calls (skel_calls log) {} = Some {} \<and> file_handles log = 0 \<and> rb_count log = 0"

text \<open>A log with no lasting effect.\<close>

definition neutral :: "main_call list \<Rightarrow> bool" where
  "neutral log \<longleftrightarrow> skel_calls log = [] \<and> file_handles log = 0 \<and> rb_count log = 0"

lemma neutral_append [simp]: "neutral xs \<Longrightarrow> neutral ys \<Longrightarrow> neutral (xs @ ys)"
  by (simp add: neutral_def)

lemma neutral_simps [simp]:
  "neutral []" "neutral [Print s]" "neutral [Eprint s]" "neutral [Install_Signals]" "neutral [Install_Signals, Print s]"
  "neutral (poll_message e)"
  by (simp_all add: neutral_def poll_message_def split: option.splits)

lemma neutral_callbacks: "neutral (map (strace_callback lib cfg) recs)"
  by (induction recs) (auto simp: neutral_def strace_callback_def)

lemma find_handles: "open_handles (fst (find_pid_by_name fs name)) = 0"
  using scan_handles [of fs name]
  by (auto simp: find_pid_by_name_def split: option.splits prod.splits) (metis fst_conv)

lemma find_positive: "snd (find_pid_by_name fs name) = Some p \<Longrightarrow> 0 < sint p"
proof -
  assume "snd (find_pid_by_name fs name) = Some p"
  then obtain ds where "snd (scan_entries fs name ds) = Some p"
    by (auto simp: find_pid_by_name_def split: option.splits prod.splits) (metis snd_conv)
  then have "p \<in> set (List.map_filter parse_pid ds)"
    unfolding scan_entries_find by (auto simp: find_Some_iff)
  then obtain d where "parse_pid d = Some p" by (auto simp: List.map_filter_def)
  then show "0 < sint p" by (rule parse_pid_positive)
qed

lemma wait_loop_result:
  assumes "wait_loop env name t log = Some y"
  shows "(snd y = 0 \<or> (\<exists>k. snd (find_pid_by_name (proc_at env k) name) = Some (snd y))) \<and>
    (neutral log \<longrightarrow> neutral (fst y)) \<and> (\<forall>q. Set_Target q \<in> set (fst y) \<longrightarrow> Set_Target q \<in> set log)"
proof (rule wait_loop.raw_induct [OF _ assms, where P = "\<lambda>env name t log y.
    (snd y = 0 \<or> (\<exists>k. snd (find_pid_by_name (proc_at env k) name) = Some (snd y))) \<and>
    (neutral log \<longrightarrow> neutral (fst y)) \<and> (\<forall>q. Set_Target q \<in> set (fst y) \<longrightarrow> Set_Target q \<in> set log)"])
  fix rec env name t log y
  assume IH: "\<And>env name t log y. rec env name t log = Some y \<Longrightarrow>
      (snd y = 0 \<or> (\<exists>k. snd (find_pid_by_name (proc_at env k) name) = Some (snd y))) \<and>
      (neutral log \<longrightarrow> neutral (fst y)) \<and> (\<forall>q. Set_Target q \<in> set (fst y) \<longrightarrow> Set_Target q \<in> set log)"
    and body: "(if wait_exiting env t then Some (log, 0)
      else let (calls, r) = find_pid_by_name (proc_at env t) name
           in case r of Some p \<Rightarrow> Some (log @ [Scan calls], p)
              | None \<Rightarrow> rec env name (Suc t) (log @ [Scan calls, Sleep])) = Some y"
  obtain calls r where f: "find_pid_by_name (proc_at env t) name = (calls, r)"
    by (cases "find_pid_by_name (proc_at env t) name")
  have n: "neutral [Scan calls]" "neutral [Scan calls, Sleep]"
    using find_handles [of "proc_at env t" name] f by (simp_all add: neutral_def)
  consider "y = (log, 0)" | p where "r = Some p" "y = (log @ [Scan calls], p)"
    | "rec env name (Suc t) (log @ [Scan calls, Sleep]) = Some y"
    using body unfolding f by (cases "wait_exiting env t"; cases r) auto
  then show "(snd y = 0 \<or> (\<exists>k. snd (find_pid_by_name (proc_at env k) name) = Some (snd y))) \<and>
      (neutral log \<longrightarrow> neutral (fst y)) \<and> (\<forall>q. Set_Target q \<in> set (fst y) \<longrightarrow> Set_Target q \<in> set log)"
  proof cases
    case 2
    then show ?thesis using f n(1) by (auto intro: exI [of _ t])
  next
    case 3
    from IH [OF this] show ?thesis using n(2) by auto
  qed simp
qed

lemma wait_loop_returns:
  assumes "wait_exiting env n" and "t \<le> n"
  shows "wait_loop env name t log \<noteq> None"
  using assms(2)
proof (induction "n - t" arbitrary: t log)
  case 0
  with assms(1) show ?case by (subst wait_loop.simps) simp
next
  case (Suc d)
  show ?case
  proof (cases "t = n")
    case True with assms(1) show ?thesis by (subst wait_loop.simps) simp
  next
    case False
    with Suc.prems have "Suc t \<le> n" by simp
    with Suc have "wait_loop env name (Suc t) l \<noteq> None" for l by simp
    then show ?thesis by (subst wait_loop.simps) (auto split: prod.splits option.splits)
  qed
qed

text \<open>The ways through \<open>trace_target\<close> after a successful \<open>open\<close> all end in \<open>cleanup\<close>.\<close>

definition ended :: "strace_env \<Rightarrow> i32 \<Rightarrow> skel_call list \<Rightarrow> libbpfstrace_bpf \<Rightarrow> main_call list \<Rightarrow> main_call list \<Rightarrow> bool" where
  "ended env p calls skel log log' \<longleftrightarrow> (\<exists>xs b.
     log' = log @ [Libbpf_Init, Skel_Calls calls, Set_Target p, Skel_Calls (fst (libbpfstrace_bpf__load (skel_env env)))] @
       xs @ [Rb_Free b, Skel_Calls (libbpfstrace_bpf__destroy (Some (skel\<lparr>rodata_target_tgid := p\<rparr>)))] \<and>
     skel_calls xs \<in> {[], fst (libbpfstrace_bpf__attach (skel_env env))} \<and> file_handles xs = 0 \<and>
     rb_count xs = (if b then 1 else 0) \<and> (\<forall>q. Set_Target q \<notin> set xs))"

lemma endedI:
  "log' = log @ [Libbpf_Init, Skel_Calls calls, Set_Target p, Skel_Calls (fst (libbpfstrace_bpf__load (skel_env env)))] @
       xs @ [Rb_Free b, Skel_Calls (libbpfstrace_bpf__destroy (Some (skel\<lparr>rodata_target_tgid := p\<rparr>)))] \<Longrightarrow>
   skel_calls xs \<in> {[], fst (libbpfstrace_bpf__attach (skel_env env))} \<Longrightarrow> file_handles xs = 0 \<Longrightarrow>
   rb_count xs = (if b then 1 else 0) \<Longrightarrow> (\<And>q. Set_Target q \<notin> set xs) \<Longrightarrow> ended env p calls skel log log'"
  unfolding ended_def by blast

lemma trace_target_ended:
  assumes run: "trace_target lib cfg env arg is_pid p log = Some (code, log')"
    and o: "libbpfstrace_bpf__open (skel_env env) = (calls, Some skel, en)"
  shows "ended env p calls skel log log'"
proof -
  note unf = trace_target_def o libbpfstrace_bpf__load_def libbpfstrace_bpf__attach_def cleanup_def Let_def
  consider "load_skeleton_rc (skel_env env) \<noteq> 0"
    | "load_skeleton_rc (skel_env env) = 0" "attach_skeleton_rc (skel_env env) \<noteq> 0"
    | en where "load_skeleton_rc (skel_env env) = 0" "attach_skeleton_rc (skel_env env) = 0" "rb_new_errno env = Some en"
    | "load_skeleton_rc (skel_env env) = 0" "attach_skeleton_rc (skel_env env) = 0" "rb_new_errno env = None"
    by (cases "rb_new_errno env") auto
  then show ?thesis
  proof cases
    case 1
    with run show ?thesis by (intro endedI [where b = False]) (auto simp: unf)
  next
    case 2
    with run show ?thesis by (intro endedI [where b = False]) (auto simp: unf)
  next
    case (3 en)
    with run show ?thesis by (intro endedI [where b = False]) (auto simp: unf)
  next
    case 4
    then obtain e out started where
      pl: "poll_loop (poll_exiting env) (poll_at env) (strace_callback lib cfg) 0 (Some 0) [] = Some (e, out)"
      and log': "log' = log @ [Libbpf_Init, Skel_Calls calls, Set_Target p,
        Skel_Calls (fst (libbpfstrace_bpf__load (skel_env env)))] @
        ([Skel_Calls (fst (libbpfstrace_bpf__attach (skel_env env))), Rb_New True, Print started] @ out @ poll_message e) @
        [Rb_Free True, Skel_Calls (libbpfstrace_bpf__destroy (Some (skel\<lparr>rodata_target_tgid := p\<rparr>)))]"
      using run by (auto simp: unf split: option.splits prod.splits)
    obtain recs where "out = [] @ map (strace_callback lib cfg) recs" using poll_loop_output [OF pl] .
    then have out: "neutral out" "Set_Target q \<notin> set out" for q
      by (auto simp: neutral_callbacks strace_callback_def)
    have "Set_Target q \<notin> set (poll_message e)" for q by (simp add: poll_message_def split: option.splits)
    with out neutral_simps(6) [of e] show ?thesis
      by (intro endedI [OF log']) (auto simp: neutral_def)
  qed
qed

lemma trace_target_released:
  assumes "trace_target lib cfg env arg is_pid p log = Some (code, log')" and "neutral log"
  shows "released log'" and "Set_Target q \<in> set log' \<Longrightarrow> q = p \<or> Set_Target q \<in> set log"
proof -
  obtain calls skel en where o: "libbpfstrace_bpf__open (skel_env env) = (calls, skel, en)"
    by (cases "libbpfstrace_bpf__open (skel_env env)")
  have live: "run_calls calls {} = Some (if skel = None then {} else opened_blocks)" by (rule open_live(1) [OF o])
  have "released log' \<and> (Set_Target q \<in> set log' \<longrightarrow> q = p \<or> Set_Target q \<in> set log)"
  proof (cases skel)
    case None
    with assms o live show ?thesis by (auto simp: trace_target_def released_def neutral_def)
  next
    case (Some sk)
    have d: "run_calls (libbpfstrace_bpf__destroy (Some (sk\<lparr>rodata_target_tgid := p\<rparr>))) opened_blocks = Some {}"
      using open_skeleton_set [of "skel_env env" calls sk en] o Some by (intro destroy_live) simp
    have "ended env p calls sk log log'" using trace_target_ended [OF assms(1)] o Some by simp
    with assms(2) live Some d show ?thesis
      by (auto simp: ended_def released_def neutral_def run_calls_append load_live attach_live)
  qed
  then show "released log'" and "Set_Target q \<in> set log' \<Longrightarrow> q = p \<or> Set_Target q \<in> set log" by blast+
qed

lemma main_cases:
  assumes "main lib cfg env argv = Some (code, log)"
  obtains (usage) "length argv \<noteq> 2" "neutral log" "\<And>q. Set_Target q \<notin> set log"
  | (interrupted) "neutral log" "\<And>q. Set_Target q \<notin> set log"
  | (traced) is_pid p log0 where "trace_target lib cfg env (argv ! 1) is_pid p log0 = Some (code, log)" "neutral log0"
      "\<And>q. Set_Target q \<notin> set log0" "0 < sint p" "length argv = 2"
      "parse_pid (argv ! 1) = Some p \<or>
        (parse_pid (argv ! 1) = None \<and> (\<exists>t. snd (find_pid_by_name (proc_at env t) (argv ! 1)) = Some p))"
proof (cases "length argv = 2")
  case False
  with assms show thesis by (intro usage) (auto simp: main_def)
next
  case True
  show thesis
  proof (cases "parse_pid (argv ! 1)")
    case (Some p)
    with assms True parse_pid_positive show thesis
      by (intro traced [of True p "[Install_Signals]"]) (auto simp: main_def)
  next
    case None
    let ?start = "[Install_Signals, Print (msg_waiting (argv ! 1))]"
    from assms True None obtain wl p where w: "wait_loop env (argv ! 1) 0 ?start = Some (wl, p)"
      by (auto simp: main_def Let_def split: option.splits)
    from wait_loop_result [OF w] have n: "neutral wl" and no: "Set_Target q \<notin> set wl"
      and p: "p = 0 \<or> (\<exists>k. snd (find_pid_by_name (proc_at env k) (argv ! 1)) = Some p)" for q
      by auto
    show thesis
    proof (cases "after_wait_exiting env \<or> sint p \<le> 0")
      case True
      with assms \<open>length argv = 2\<close> None w n no show thesis by (intro interrupted) (auto simp: main_def)
    next
      case False
      let ?found = "Print (msg_found (argv ! 1) p)"
      show thesis
      proof (rule traced [of False p "wl @ [?found]"])
        show "trace_target lib cfg env (argv ! 1) False p (wl @ [?found]) = Some (code, log)"
          using assms True None w False by (simp add: main_def Let_def)
        show "parse_pid (argv ! 1) = Some p \<or>
            (parse_pid (argv ! 1) = None \<and> (\<exists>t. snd (find_pid_by_name (proc_at env t) (argv ! 1)) = Some p))"
          using None p False by auto
      qed (use n no False True in auto)
    qed
  qed
qed

lemma filter_callbacks:
  "filter (\<lambda>c. \<exists>r. c = Event_Output r) (map (strace_callback lib cfg) recs) = map (strace_callback lib cfg) recs"
  by (simp add: filter_id_conv strace_callback_def)

lemma filter_poll_message: "filter (\<lambda>c. \<exists>r. c = Event_Output r) (poll_message e) = []"
  by (simp add: poll_message_def split: option.splits)

section \<open>A concrete run\<close>

text \<open>Every call succeeds; the first poll times out, the second is interrupted by the signal.\<close>

definition demo_run :: strace_env where
  "demo_run =
     \<lparr>wait_exiting = (\<lambda>_. True), after_wait_exiting = False,
      proc_at = (\<lambda>_. \<lparr>fs_file = (\<lambda>_. None), fs_dir = (\<lambda>_. None)\<rparr>),
      skel_env = \<lparr>calloc_ok = (\<lambda>_. True), open_skeleton_rc = 0, load_skeleton_rc = 0, attach_skeleton_rc = 0\<rparr>,
      rb_new_errno = None, poll_exiting = (\<lambda>t. 2 \<le> t), poll_at = (\<lambda>t. ([], if t = 0 then 0 else - EINTR))\<rparr>"

lemma demo_pid: "parse_pid ''1234'' = Some 1234"
  by code_simp

lemma demo_polls: "polls_until (poll_exiting demo_run) (poll_at demo_run) 0 2"
  by (auto simp: polls_until_def demo_run_def poll_fatal_def EINTR_def)

lemma demo_skel:
  "libbpfstrace_bpf__open_and_load (skel_env demo_run) =
     ([Calloc Blk_Obj, Calloc Blk_Skeleton, Calloc Blk_Maps, Calloc Blk_Progs, Open_Skeleton 0, Load_Skeleton 0],
      Some \<lparr>skeleton = Some \<lparr>sk_name = ''libbpfstrace_bpf'', sk_maps = strace_maps, sk_progs = strace_progs,
              sk_data_sz = 15088\<rparr>, rodata_target_tgid = 0\<rparr>, None)"
  by (simp add: demo_run_def skel_defs Let_def)

lemma demo_session:
  "\<exists>log. main ref_text_lib arm64_unistd demo_run [''strace'', ''1234''] = Some (1, log) \<and> Set_Target 1234 \<in> set log"
proof -
  have "poll_loop (poll_exiting demo_run) (poll_at demo_run) (strace_callback ref_text_lib arm64_unistd) 0 (Some 0) [] =
      Some (Some (- EINTR), [])"
    using poll_loop_exiting [OF demo_polls, of "strace_callback ref_text_lib arm64_unistd" "Some 0" "[]"]
    by (simp add: demo_run_def)
  then show ?thesis
    by (simp add: main_def demo_pid trace_target_def cleanup_def Let_def)
      (simp add: demo_run_def skel_defs cleanup_def EINTR_def Let_def)
qed

section \<open>Properties\<close>

text \<open>
  (C6) Clean-up.  Whenever \<open>main\<close> returns, on every path and whatever failed, all files and directories it opened,
  the ring buffer and every block of the skeleton have been released exactly once.
\<close>

theorem main_releases_everything:
  assumes "main lib cfg env argv = Some (code, log)"
  shows "run_calls (skel_calls log) {} = Some {} \<and> file_handles log = 0 \<and> rb_count log = 0"
proof -
  have "released log"
    using assms
  proof (cases rule: main_cases)
    case (traced is_pid p log0)
    then show ?thesis by (intro trace_target_released(1))
  qed (simp_all add: released_def neutral_def)
  then show ?thesis by (simp add: released_def)
qed

theorem main_releases_everything_witness:
  "\<exists>log. main ref_text_lib arm64_unistd demo_run [''strace'', ''1234''] = Some (1, log) \<and>
     run_calls (skel_calls log) {} = Some {} \<and> rb_count log = 0"
proof -
  obtain log where run: "main ref_text_lib arm64_unistd demo_run [''strace'', ''1234''] = Some (1, log)"
    using demo_session by blast
  from main_releases_everything [OF run] run show ?thesis by blast
qed

text \<open>
  (C12) Target.  The BPF programs are only ever configured with one positive target: the pid given on the command
  line or, if the argument is no pid, a process \<open>find_pid_by_name\<close> found; so the filter of the programs is never
  switched off.
\<close>

theorem main_target_is_requested_process:
  assumes "main lib cfg env argv = Some (code, log)" and "Set_Target p \<in> set log"
  shows "0 < sint p \<and> p \<noteq> 0 \<and> length argv = 2 \<and>
    (parse_pid (argv ! 1) = Some p \<or>
       (parse_pid (argv ! 1) = None \<and> (\<exists>t. snd (find_pid_by_name (proc_at env t) (argv ! 1)) = Some p)))"
  using assms(1)
proof (cases rule: main_cases)
  case (traced is_pid q log0)
  with trace_target_released(2) [OF traced(1,2) assms(2)] have "p = q" by auto
  with traced show ?thesis by auto
qed (use assms(2) in auto)

theorem main_target_is_requested_process_witness:
  "0 < sint (1234 :: i32) \<and> parse_pid ''1234'' = Some 1234"
proof -
  obtain log where run: "main ref_text_lib arm64_unistd demo_run [''strace'', ''1234''] = Some (1, log)"
    and tgt: "Set_Target 1234 \<in> set log" using demo_session by blast
  from main_target_is_requested_process [OF run tgt] show ?thesis by (simp add: demo_pid)
qed

text \<open>
  (C10) Termination.  \<open>main\<close> returns as soon as \<open>exiting\<close> is seen in the loop it is in: if a signal is eventually
  seen by both loops, or the argument is a pid and a poll eventually fails, the run ends.
\<close>

theorem main_terminates:
  assumes "parse_pid (argv ! 1) \<noteq> None \<or> wait_exiting env m"
    and "poll_exiting env n \<or> poll_fatal (snd (poll_at env n))"
  shows "\<exists>code log. main lib cfg env argv = Some (code, log)"
proof -
  have "poll_loop (poll_exiting env) (poll_at env) (strace_callback lib cfg) 0 err [] \<noteq> None" for err
    using poll_loop_returns [of "poll_exiting env" n "poll_at env" 0] assms(2) by simp
  then have "poll_loop (poll_exiting env) (poll_at env) (strace_callback lib cfg) 0 (Some 0) [] \<noteq> None" .
  then have t: "trace_target lib cfg env arg b p log \<noteq> None" for arg b p log
    by (auto simp: trace_target_def Let_def split: option.splits prod.splits)
  have w: "parse_pid (argv ! 1) = None \<Longrightarrow> wait_loop env (argv ! 1) 0 [Install_Signals, Print (msg_waiting (argv ! 1))] \<noteq> None"
    using wait_loop_returns [of env m 0] assms(1) by simp
  have "main lib cfg env argv \<noteq> None"
    unfolding main_def using t w by (auto simp: Let_def split: option.splits prod.splits)
  then show ?thesis by auto
qed

theorem main_terminates_witness:
  "\<exists>code log. main ref_text_lib arm64_unistd demo_run [''strace'', ''com.app''] = Some (code, log)"
  by (rule main_terminates [where m = 0 and n = 2]) (simp_all add: demo_run_def)

text \<open>
  (C11) A full session.  With a pid as argument and all of libbpf's calls succeeding, a run that polls \<open>n\<close> times and
  then sees \<open>exiting\<close> prints exactly what the callback prints for the records delivered, in order, and sets the
  target before loading.  Its exit status is 1 whenever the last poll did not return 0, so also after an ordinary
  Ctrl-C that interrupted a poll (\<open>-EINTR\<close>).
\<close>

theorem main_session:
  assumes "length argv = 2" and "parse_pid (argv ! 1) = Some p"
    and "libbpfstrace_bpf__open_and_load (skel_env env) = (calls, Some skel, None)"
    and "attach_skeleton_rc (skel_env env) = 0" and "rb_new_errno env = None"
    and "polls_until (poll_exiting env) (poll_at env) 0 n" and "poll_exiting env n"
  shows "\<exists>log. main lib cfg env argv = Some (if n = 0 \<or> snd (poll_at env (n - 1)) = 0 then 0 else 1, log) \<and>
    filter (\<lambda>c. \<exists>r. c = Event_Output r) log =
      map (\<lambda>data. Event_Output (map_option snd (handle_event lib cfg data))) (concat (map (fst \<circ> poll_at env) [0..<n])) \<and>
    (\<exists>pre post. log = pre @ [Set_Target p, Skel_Calls [Load_Skeleton 0]] @ post)"
proof -
  from assms(3) obtain ocalls en where o: "libbpfstrace_bpf__open (skel_env env) = (ocalls, Some skel, en)"
    and load: "load_skeleton_rc (skel_env env) = 0"
    by (auto simp: libbpfstrace_bpf__open_and_load_def libbpfstrace_bpf__load_def split: prod.splits option.splits if_splits)
  let ?out = "map (strace_callback lib cfg) (concat (map (fst \<circ> poll_at env) [0..<n]))"
  let ?err = "if n = 0 then Some 0 else Some (snd (poll_at env (n - 1)))"
  let ?pre = "[Install_Signals, Libbpf_Init, Skel_Calls ocalls]"
  let ?post = "[Skel_Calls [Attach_Skeleton 0], Rb_New True, Print (msg_started True (argv ! 1) p)] @ ?out @ poll_message ?err @
    [Rb_Free True, Skel_Calls (libbpfstrace_bpf__destroy (Some (skel\<lparr>rodata_target_tgid := p\<rparr>)))]"
  have pl: "poll_loop (poll_exiting env) (poll_at env) (strace_callback lib cfg) 0 (Some 0) [] = Some (?err, ?out)"
    using poll_loop_exiting [OF assms(6,7), of "strace_callback lib cfg" "Some 0" "[]"] by simp
  have "main lib cfg env argv =
      Some (if ?err = Some 0 then 0 else 1, ?pre @ [Set_Target p, Skel_Calls [Load_Skeleton 0]] @ ?post)"
    using assms(1,2,4,5) load pl
    by (simp add: main_def trace_target_def o libbpfstrace_bpf__load_def libbpfstrace_bpf__attach_def cleanup_def Let_def)
  moreover have "filter (\<lambda>c. \<exists>r. c = Event_Output r) (?pre @ [Set_Target p, Skel_Calls [Load_Skeleton 0]] @ ?post) = ?out"
    by (simp add: filter_callbacks filter_poll_message)
  moreover have "(if ?err = Some 0 then 0 else 1 :: int) = (if n = 0 \<or> snd (poll_at env (n - 1)) = 0 then 0 else 1)"
    by simp
  moreover have "strace_callback lib cfg = (\<lambda>data. Event_Output (map_option snd (handle_event lib cfg data)))"
    by (simp add: fun_eq_iff strace_callback_def)
  ultimately show ?thesis
    by (intro exI [of _ "?pre @ [Set_Target p, Skel_Calls [Load_Skeleton 0]] @ ?post"] conjI exI [of _ ?pre] exI [of _ ?post])
      (simp_all only:)
qed


theorem main_session_witness:
  "\<exists>log. main ref_text_lib arm64_unistd demo_run [''strace'', ''1234''] = Some (1, log)"
  using main_session [of "[''strace'', ''1234'']" 1234 demo_run _ _ 2 ref_text_lib arm64_unistd, OF _ _ demo_skel]
  by (simp add: demo_pid demo_polls) (auto simp: demo_run_def EINTR_def)

end
