(* ===== verification/Strace_Protocol.thy ===== *)
theory Strace_Protocol
  imports Strace_Main "HOL-Library.Sublist"
begin

text \<open>
  The order in which libbpf has to be used, as a state machine over the calls of a program: an object is opened,
  configured (its read-only data are frozen by loading), loaded and attached; a ring buffer lives between
  \<open>ring_buffer__new\<close> and \<open>ring_buffer__free\<close>, and the callback runs only then; after the first failure nothing but the
  clean-up happens.  \<open>main\<close> of \<open>libbpfstrace\<close> is shown to keep to it.
\<close>

section \<open>The state machine\<close>

datatype api =
  Skel skel_call
| Target
| New_Ring bool
| Callback
| Free_Ring bool

fun api_of :: "main_call \<Rightarrow> api list" where
  "api_of (Skel_Calls cs) = map Skel cs"
| "api_of (Set_Target p) = [Target]"
| "api_of (Rb_New ok) = [New_Ring ok]"
| "api_of (Event_Output s) = [Callback]"
| "api_of (Rb_Free ok) = [Free_Ring ok]"
| "api_of _ = []"

definition api_log :: "main_call list \<Rightarrow> api list" where
  "api_log log = concat (map api_of log)"

datatype phase = Closed | Opened | Configured | Loaded | Attached | Running | Stopping | Destroyed

inductive api_step :: "phase \<Rightarrow> api \<Rightarrow> phase \<Rightarrow> bool" where
  alloc: "api_step Closed (Skel (Calloc b)) Closed"
| undo_skeleton: "api_step Closed (Skel (Destroy_Skeleton present)) Closed"
| undo_object: "api_step Closed (Skel Free_Obj) Closed"
| open_ok: "api_step Closed (Skel (Open_Skeleton 0)) Opened"
| open_fail: "rc \<noteq> 0 \<Longrightarrow> api_step Closed (Skel (Open_Skeleton rc)) Closed"
| configure: "api_step Opened Target Configured"
| load_ok: "api_step Configured (Skel (Load_Skeleton 0)) Loaded"
| load_fail: "rc \<noteq> 0 \<Longrightarrow> api_step Configured (Skel (Load_Skeleton rc)) Stopping"
| attach_ok: "api_step Loaded (Skel (Attach_Skeleton 0)) Attached"
| attach_fail: "rc \<noteq> 0 \<Longrightarrow> api_step Loaded (Skel (Attach_Skeleton rc)) Stopping"
| ring_ok: "api_step Attached (New_Ring True) Running"
| ring_fail: "api_step Attached (New_Ring False) Stopping"
| callback: "api_step Running Callback Running"
| ring_freed: "api_step Running (Free_Ring True) Stopping"
| ring_null: "api_step Stopping (Free_Ring False) Stopping"
| destroy: "api_step Stopping (Skel (Destroy_Skeleton True)) Destroyed"
| release: "api_step Destroyed (Skel Free_Obj) Closed"

inductive api_run :: "phase \<Rightarrow> api list \<Rightarrow> phase \<Rightarrow> bool" where
  stop: "api_run p [] p"
| step: "api_step p a q \<Longrightarrow> api_run q as r \<Longrightarrow> api_run p (a # as) r"

inductive_simps api_run_Nil [simp]: "api_run p [] q"
inductive_simps api_run_Cons [simp]: "api_run p (a # as) q"

inductive_simps api_step_simps [simp]:
  "api_step p (Skel (Calloc b)) q" "api_step p (Skel (Destroy_Skeleton present)) q" "api_step p (Skel Free_Obj) q"
  "api_step p (Skel (Open_Skeleton rc)) q" "api_step p (Skel (Load_Skeleton rc)) q" "api_step p (Skel (Attach_Skeleton rc)) q"
  "api_step p Target q" "api_step p (New_Ring ok) q" "api_step p Callback q" "api_step p (Free_Ring ok) q"

lemma api_run_append: "api_run p (xs @ ys) r \<longleftrightarrow> (\<exists>q. api_run p xs q \<and> api_run q ys r)"
  by (induction xs arbitrary: p) auto

lemma api_log_simps [simp]:
  "api_log [] = []" "api_log (x # xs) = api_of x @ api_log xs" "api_log (xs @ ys) = api_log xs @ api_log ys"
  by (simp_all add: api_log_def)

text \<open>The calls that have to precede a phase; by rule induction they do.\<close>

definition set_up :: "api list" where
  "set_up = [Skel (Open_Skeleton 0), Target, Skel (Load_Skeleton 0), Skel (Attach_Skeleton 0), New_Ring True]"

fun level :: "phase \<Rightarrow> nat" where
  "level Opened = 1"
| "level Configured = 2"
| "level Loaded = 3"
| "level Attached = 4"
| "level Running = 5"
| "level _ = 0"

definition required :: "phase \<Rightarrow> api list" where
  "required p = take (level p) set_up"

lemma step_required:
  assumes "api_step p a q" and "subseq (required p) xs"
  shows "subseq (required q) (xs @ [a])"
proof -
  have "required q = required p @ [a] \<or> required q = required p \<or> required q = []"
    using assms(1) by cases (simp_all add: required_def set_up_def numeral_eq_Suc)
  then show ?thesis using assms(2) by (auto intro: list_emb_append_mono list_emb_append2)
qed

lemma run_required:
  "api_run p xs q \<Longrightarrow> subseq (required p) ys \<Longrightarrow> subseq (required q) (ys @ xs)"
proof (induction arbitrary: ys rule: api_run.induct)
  case (step p a q as r)
  from step.IH [OF step_required [OF step.hyps(1) step.prems]] show ?case by simp
qed simp

section \<open>\<open>main\<close> keeps to the protocol\<close>

text \<open>Logs without calls of libbpf, such as those of the waiting loop.\<close>

lemma wait_loop_api: "wait_loop env name t log = Some y \<Longrightarrow> api_log (fst y) = api_log log"
proof (rule wait_loop.raw_induct [where P = "\<lambda>env name t log y. api_log (fst y) = api_log log"])
  fix rec env name t log y
  assume IH: "\<And>env name t log y. rec env name t log = Some y \<Longrightarrow> api_log (fst y) = api_log log"
    and body: "(if wait_exiting env t then Some (log, 0)
      else let (calls, r) = find_pid_by_name (proc_at env t) name
           in case r of Some p \<Rightarrow> Some (log @ [Scan calls], p)
              | None \<Rightarrow> rec env name (Suc t) (log @ [Scan calls, Sleep])) = Some y"
  show "api_log (fst y) = api_log log"
    using body IH by (auto split: if_splits prod.splits option.splits dest!: IH)
qed assumption

lemma open_api:
  assumes "libbpfstrace_bpf__open lib = (calls, obj, en)"
  shows "api_run Closed (map Skel calls) (if obj = None then Closed else Opened)"
  using assms by (auto simp: skel_defs Let_def ENOMEM_def split: if_splits)

lemma destroy_api: "skeleton obj \<noteq> None \<Longrightarrow> api_run Stopping (map Skel (libbpfstrace_bpf__destroy (Some obj))) Closed"
  by (auto simp: skel_defs)

lemma callbacks_api: "api_run Running (api_log (map (strace_callback lib cfg) recs)) Running"
  by (induction recs) (auto simp: strace_callback_def)

lemma poll_message_api: "api_log (poll_message e) = []"
  by (simp add: poll_message_def split: option.splits)

lemma trace_target_api:
  assumes run: "trace_target lib cfg env arg is_pid p log = Some (code, log')" and "api_log log = []"
  shows "api_run Closed (api_log log') Closed"
proof -
  obtain calls obj en where o: "libbpfstrace_bpf__open (skel_env env) = (calls, obj, en)"
    by (cases "libbpfstrace_bpf__open (skel_env env)")
  note open' = open_api [OF o]
  note unf = trace_target_def o libbpfstrace_bpf__load_def libbpfstrace_bpf__attach_def cleanup_def Let_def
  show ?thesis
  proof (cases obj)
    case None
    with run open' assms(2) show ?thesis by (auto simp: unf)
  next
    case (Some sk)
    let ?sk = "sk\<lparr>rodata_target_tgid := p\<rparr>"
    have d: "api_run Stopping (map Skel (libbpfstrace_bpf__destroy (Some ?sk))) Closed"
      using open_skeleton_set [of "skel_env env" calls sk en] o Some by (intro destroy_api) simp
    have o': "api_run Closed (map Skel calls) Opened" using open' Some by simp
    consider "load_skeleton_rc (skel_env env) \<noteq> 0 \<or> attach_skeleton_rc (skel_env env) \<noteq> 0 \<or> rb_new_errno env \<noteq> None"
      | "load_skeleton_rc (skel_env env) = 0" "attach_skeleton_rc (skel_env env) = 0" "rb_new_errno env = None" by blast
    then show ?thesis
    proof cases
      case 1
      with run Some o' d assms(2) show ?thesis
        by (auto simp: unf api_run_append split: if_splits)
    next
      case 2
      then obtain e out where
        pl: "poll_loop (poll_exiting env) (poll_at env) (strace_callback lib cfg) 0 (Some 0) [] = Some (e, out)"
        and log': "api_log log' = map Skel calls @ [Target, Skel (Load_Skeleton 0), Skel (Attach_Skeleton 0), New_Ring True] @
          api_log out @ [Free_Ring True] @ map Skel (libbpfstrace_bpf__destroy (Some ?sk))"
        using run Some assms(2) by (auto simp: unf poll_message_api split: option.splits prod.splits)
      obtain recs where "out = [] @ map (strace_callback lib cfg) recs" using poll_loop_output [OF pl] .
      then have "api_run Running (api_log out) Running" by (simp add: callbacks_api)
      with o' d show ?thesis unfolding log' by (auto simp: api_run_append)
    qed
  qed
qed

lemma callback_when_running:
  assumes "api_run Closed (xs @ Callback # ys) q"
  shows "api_run Closed xs Running" and "subseq set_up xs"
proof -
  show r: "api_run Closed xs Running" using assms by (auto simp: api_run_append)
  show "subseq set_up xs" using run_required [OF r, of "[]"] by (simp add: required_def set_up_def)
qed

lemma load_when_configured:
  assumes "api_run Closed (xs @ Skel (Load_Skeleton rc) # ys) q"
  shows "subseq [Skel (Open_Skeleton 0), Target] xs"
proof -
  have r: "api_run Closed xs Configured" using assms by (auto simp: api_run_append)
  show ?thesis using run_required [OF r, of "[]"] by (simp add: required_def set_up_def numeral_eq_Suc)
qed

section \<open>Properties\<close>

text \<open>
  (C13) Protocol.  Every run of \<open>main\<close> that returns uses libbpf in the documented order and ends with everything closed: the
  BPF object is loaded only after it was opened and its target was set, and the callback runs only after loading,
  attaching and creating the ring buffer all succeeded and before the ring buffer is freed.
\<close>

theorem main_follows_protocol:
  assumes "main lib cfg env argv = Some (code, log)"
  shows "api_run Closed (api_log log) Closed \<and>
    (\<forall>xs rc ys. api_log log = xs @ Skel (Load_Skeleton rc) # ys \<longrightarrow> subseq [Skel (Open_Skeleton 0), Target] xs) \<and>
    (\<forall>xs s ys. log = xs @ Event_Output s # ys \<longrightarrow> api_run Closed (api_log xs) Running \<and> subseq set_up (api_log xs))"
proof -
  have run: "api_run Closed (api_log log) Closed"
  proof (cases "length argv = 2")
    case False
    with assms show ?thesis by (auto simp: main_def)
  next
    case True
    show ?thesis
    proof (cases "parse_pid (argv ! 1)")
      case (Some p)
      with assms True show ?thesis by (auto simp: main_def Let_def intro: trace_target_api)
    next
      case None
      then obtain wlog p where w: "wait_loop env (argv ! 1) 0 [Install_Signals, Print (msg_waiting (argv ! 1))] = Some (wlog, p)"
        using assms True by (auto simp: main_def Let_def split: option.splits)
      have "api_log wlog = []" using wait_loop_api [OF w] by simp
      with assms True None w show ?thesis by (auto simp: main_def Let_def split: if_splits intro: trace_target_api)
    qed
  qed
  have "subseq [Skel (Open_Skeleton 0), Target] xs" if "api_log log = xs @ Skel (Load_Skeleton rc) # ys" for xs rc ys
    using load_when_configured run that by simp
  moreover have "api_run Closed (api_log xs) Running \<and> subseq set_up (api_log xs)"
    if "log = xs @ Event_Output s # ys" for xs s ys
    using callback_when_running [of "api_log xs" "api_log ys" Closed] run that by simp
  ultimately show ?thesis using run by blast
qed

theorem main_follows_protocol_witness:
  "\<exists>log. main ref_text_lib arm64_unistd demo_run [''strace'', ''1234''] = Some (1, log) \<and>
     api_run Closed (api_log log) Closed"
proof -
  obtain log where run: "main ref_text_lib arm64_unistd demo_run [''strace'', ''1234''] = Some (1, log)"
    using demo_session by blast
  from main_follows_protocol [OF run] run show ?thesis by blast
qed

end
