(* ===== verification/So.thy ===== *)
theory So
  imports Tracing C_Layout Poll_Loop
begin

text \<open>
  \<open>libbpfso\<close>: the uprobe on \<open>android_dlopen_ext\<close> that reports every library a process
  loads, its event record, and the user-space program with its callback and \<open>main\<close>.
  The skeleton of this tool is not in the repository, so what its functions and
  libbpf answer are parameters of \<open>main\<close>; \<open>err\<close> is an option because \<open>main\<close> leaves
  it uninitialised on two paths.
\<close>

section \<open>The event\<close>

definition SO_COMM_LEN :: nat where "SO_COMM_LEN = 16"

record so_event =
  so_pid :: i32
  so_comm :: string
  so_filename :: string

definition wf_so_event :: "so_event \<Rightarrow> bool" where
  "wf_so_event e \<longleftrightarrow> length (so_comm e) = SO_COMM_LEN \<and> length (so_filename e) = 256"

definition so_event_layout :: layout where
  "so_event_layout = [(''pid'', 4, 4), (''comm'', 16, 1), (''filename'', 256, 1)]"

abbreviation so_off :: "string \<Rightarrow> nat" where
  "so_off \<equiv> offset_of so_event_layout"

definition store_so_event :: "so_event \<Rightarrow> bytes \<Rightarrow> bytes" where
  "store_so_event e mem =
     store_fields
       [(so_off ''pid'', le_store 4 (so_pid e)),
        (so_off ''comm'', map byte_of_char (so_comm e)),
        (so_off ''filename'', map byte_of_char (so_filename e))] mem"

definition load_so_event :: "bytes \<Rightarrow> so_event" where
  "load_so_event mem =
     \<lparr>so_pid = le_word (chunk (so_off ''pid'') 4 mem),
      so_comm = map char_of_byte (chunk (so_off ''comm'') 16 mem),
      so_filename = map char_of_byte (chunk (so_off ''filename'') 256 mem)\<rparr>"

section \<open>The BPF program\<close>

text \<open>\<open>rsv\<close>: \<open>bpf_ringbuf_reserve\<close>'s answer, as in \<open>Strace_Bpf\<close>; the result are the submitted events.\<close>

definition dlopen_body :: "kenv \<Rightarrow> so_event option \<Rightarrow> u64 \<Rightarrow> int \<times> so_event list" where
  "dlopen_body env rsv filename =
     (if filename = 0 then (0, [])
      else case rsv of
        None \<Rightarrow> (0, [])
      | Some e \<Rightarrow>
          (let i = k_pid_tgid env;
               e = e\<lparr>so_pid := ucast (drop_bit 32 i)\<rparr>;
               e = e\<lparr>so_comm := snd (k_comm env SO_COMM_LEN (so_comm e))\<rparr>;
               e = e\<lparr>so_filename := replicate 256 NUL\<rparr>;
               (ret, buf) = k_read_user_str env 256 (so_filename e) filename;
               e = e\<lparr>so_filename := buf\<rparr>;
               e = (if ret < 0 then e\<lparr>so_filename := overwrite buf ''<failed>''\<rparr> else e)
           in (0, [e])))"

definition handle_andrid_dlopen_ext :: "kenv \<Rightarrow> so_event option \<Rightarrow> pt_regs \<Rightarrow> (int \<times> so_event list) option" where
  "handle_andrid_dlopen_ext env rsv ctx = BPF_KPROBE arm64_regs 1 (\<lambda>ctx args. dlopen_body env rsv (args ! 0)) ctx"

section \<open>User space\<close>

text \<open>The callback does not look at \<open>size\<close>; \<open>None\<close> is an array read past its end.\<close>

definition so_handle_event :: "bytes \<Rightarrow> (int \<times> string) option" where
  "so_handle_event data =
     (let e = load_so_event data
      in if nul_terminated (so_comm e) \<and> nul_terminated (so_filename e)
         then Some (0, ''dlopen_ext called by pid '' @ fmt_d (so_pid e) @ '' ('' @ c_str (so_comm e) @
                ''), filename: '' @ c_str (so_filename e) @ ''\<newline>'')
         else None)"

record so_env =
  so_setrlimit :: int
  so_skel_ok :: bool                     \<comment> \<open>\<open>open_and_load\<close> did not return \<open>NULL\<close>\<close>
  so_attach_errno :: "int option"        \<comment> \<open>\<open>errno\<close> when attaching returned \<open>NULL\<close>\<close>
  so_strerror :: "int \<Rightarrow> string"
  so_rb_ok :: bool
  so_exiting :: "nat \<Rightarrow> bool"
  so_poll :: "nat \<Rightarrow> bytes list \<times> int"

datatype so_call =
  So_Strict_Mode | So_Set_Print | So_Setrlimit | So_Perror string | So_Eprint string | So_Print string
| So_Skel_New bool | So_Attach_Uprobe i32 string string bool | So_Link_New bool | So_Rb_New bool | So_Signals
| So_Output "(int \<times> string) option" | So_Rb_Free | So_Link_Destroy | So_Skel_Destroy

definition libdl_path :: string where
  "libdl_path = ''/system/lib64/libdl.so''"

definition so_cleanup :: "bool \<Rightarrow> bool \<Rightarrow> so_call list" where
  "so_cleanup rb link =
     (if rb then [So_Rb_Free] else []) @ (if link then [So_Link_Destroy] else []) @ [So_Skel_Destroy]"

text \<open>The exit status is \<open>None\<close> when it depends on the indeterminate value of \<open>err\<close>.\<close>

definition exit_status :: "int option \<Rightarrow> int option" where
  "exit_status err = map_option (\<lambda>e. if e \<noteq> 0 then 1 else 0) err"

text \<open>What is printed after the loop: the message of a poll that failed.\<close>

definition so_poll_message :: "int option \<Rightarrow> so_call list" where
  "so_poll_message err =
     (case err of
        None \<Rightarrow> []
      | Some r \<Rightarrow> if poll_fatal r then [So_Eprint (''ring_buffer__poll failed: '' @ fmt_int r @ ''\<newline>'')] else [])"

text \<open>The uprobe is attached for every process (pid -1), by symbol name, at the entry of the function.\<close>

definition so_main :: "so_env \<Rightarrow> (int option \<times> so_call list) option" where
  "so_main env =
     (let log = [So_Strict_Mode, So_Set_Print, So_Setrlimit]
      in if so_setrlimit env \<noteq> 0 then Some (Some 1, log @ [So_Perror ''setrlimit''])
      else if \<not> so_skel_ok env then
        Some (Some 1, log @ [So_Skel_New False, So_Eprint ''failed to open and load skeleton\<newline>''])
      else let log = log @ [So_Skel_New True, So_Attach_Uprobe (-1) libdl_path ''android_dlopen_ext'' False]
      in case so_attach_errno env of
        Some en \<Rightarrow>
          Some (exit_status (Some (- en)),
            log @ [So_Link_New False, So_Eprint (''failed to attach uprobe: '' @ so_strerror env en @ ''\<newline>'')] @
            so_cleanup False False)
      | None \<Rightarrow>
          if \<not> so_rb_ok env then
            Some (exit_status None,
              log @ [So_Link_New True, So_Rb_New False, So_Eprint ''failed to create ring buffer\<newline>''] @
              so_cleanup False True)
          else
            (let log = log @ [So_Link_New True, So_Rb_New True, So_Signals,
                   So_Print (''Started uprobe on '' @ libdl_path @ '':android_dlopen_ext, Ctrl+C to exit\<newline>'')]
             in case poll_loop (so_exiting env) (so_poll env) (\<lambda>d. So_Output (so_handle_event d)) 0 None [] of
                  None \<Rightarrow> None
                | Some (err, out) \<Rightarrow>
                    Some (exit_status err, log @ out @ so_poll_message err @ so_cleanup True True)))"

section \<open>Lemmas\<close>

lemma so_offsets [simp]: "so_off ''pid'' = 0" "so_off ''comm'' = 4" "so_off ''filename'' = 20"
  by (simp_all add: offset_of_def so_event_layout_def align_up_def)

lemma sizeof_so_event [simp]: "size_of so_event_layout = 276"
  by (simp add: size_of_def layout_align_def so_event_layout_def align_up_def)

lemma so_fields_ok:
  "wf_so_event e \<Longrightarrow> length mem = 276 \<Longrightarrow>
   fields_ok 0 [(0, le_store 4 (so_pid e)), (4, map byte_of_char (so_comm e)), (20, map byte_of_char (so_filename e))]
     (length mem)"
  by (simp add: wf_so_event_def SO_COMM_LEN_def)

lemma length_store_so_event: "wf_so_event e \<Longrightarrow> length mem = 276 \<Longrightarrow> length (store_so_event e mem) = 276"
  using length_store_fields [OF so_fields_ok, of e mem] by (simp add: store_so_event_def)

lemma load_store_so_event:
  assumes "wf_so_event e" and "length mem = 276"
  shows "load_so_event (store_so_event e mem) = e"
proof -
  have "chunk 0 4 (store_so_event e mem) = le_store 4 (so_pid e)"
    "chunk 4 16 (store_so_event e mem) = map byte_of_char (so_comm e)"
    "chunk 20 256 (store_so_event e mem) = map byte_of_char (so_filename e)"
    unfolding store_so_event_def so_offsets
    by (rule load_field_n [OF so_fields_ok [OF assms]]; use assms(1) in \<open>simp add: wf_so_event_def SO_COMM_LEN_def\<close>)+
  then show ?thesis by (simp add: load_so_event_def le_simps del: map_map)
qed

interpretation so_codec: event_codec "size_of so_event_layout" wf_so_event store_so_event load_so_event
proof
  fix e and mem :: bytes
  assume "wf_so_event e" and "length mem = size_of so_event_layout"
  then show "length (store_so_event e mem) = size_of so_event_layout"
    by (simp add: length_store_so_event)
next
  fix e and mem rest :: bytes
  assume *: "wf_so_event e" "length mem = size_of so_event_layout"
  have "load_so_event (store_so_event e mem @ rest) = load_so_event (store_so_event e mem)"
    using * by (simp add: load_so_event_def chunk_append_left length_store_so_event)
  with * show "load_so_event (store_so_event e mem @ rest) = e" by (simp add: load_store_so_event)
qed

text \<open>
  The file name in the event: what was read or, over the first eight bytes of whatever the failed read left in the array,
  \<open><failed>\<close>, which the program copies without a terminator.
\<close>

definition reported_name :: "int \<Rightarrow> string \<Rightarrow> string" where
  "reported_name r buf = (if r < 0 then ''<failed>'' @ drop 8 buf else buf)"

lemma c_str_append: "NUL \<notin> set xs \<Longrightarrow> c_str (xs @ ys) = xs @ c_str ys"
  by (auto simp: c_str_def takeWhile_append)

context bpf_helpers
begin

lemma dlopen_event:
  assumes "wf_so_event e0" and "p \<noteq> 0" and "k_read_user_str env 256 (replicate 256 NUL) p = (r, buf)"
  shows "\<exists>e. dlopen_body env (Some e0) p = (0, [e]) \<and> wf_so_event e \<and> nul_terminated (so_comm e) \<and>
    so_pid e = ucast (drop_bit 32 (k_pid_tgid env)) \<and> so_comm e = snd (k_comm env SO_COMM_LEN (so_comm e0)) \<and>
    so_filename e = reported_name r buf \<and>
    (0 \<le> r \<longrightarrow> nul_terminated buf \<and> c_str buf = c_str (mem_chars umem p 255))"
proof -
  let ?comm = "snd (k_comm env SO_COMM_LEN (so_comm e0))"
  let ?e = "e0\<lparr>so_pid := ucast (drop_bit 32 (k_pid_tgid env)), so_comm := ?comm, so_filename := reported_name r buf\<rparr>"
  have len: "length buf = 256" using str_length [of 256 "replicate 256 NUL" p] assms(3) by simp
  have "overwrite buf ''<failed>'' = ''<failed>'' @ drop 8 buf" by (simp add: overwrite_def numeral_eq_Suc)
  then have body: "dlopen_body env (Some e0) p = (0, [?e])"
    using assms(2,3) by (simp add: dlopen_body_def reported_name_def Let_def)
  have comm: "length ?comm = SO_COMM_LEN" "nul_terminated ?comm"
    using comm_length [of SO_COMM_LEN "so_comm e0"] comm_ok [of SO_COMM_LEN "so_comm e0"] assms(1)
    by (auto simp: wf_so_event_def SO_COMM_LEN_def nul_terminated_def dest: in_set_takeD)
  have "nul_terminated buf \<and> c_str buf = c_str (mem_chars umem p 255)" if "0 \<le> r"
    using that str_text [of 256 "replicate 256 NUL" p r buf] str_result [of 256 "replicate 256 NUL" p r buf] assms(3) len
      c_str_prefix [of umem p "nat r - 1" 255]
    by auto
  then show ?thesis
    by (intro exI [of _ ?e]) (use body comm len in \<open>simp add: wf_so_event_def reported_name_def\<close>)
qed

end

section \<open>Properties\<close>

text \<open>
  (C26) Library loads.  A call of \<open>android_dlopen_ext\<close> whose first argument register is a non-null pointer submits
  exactly one event when the ring buffer has room.  If the file name can be read, the user-space callback prints the
  process, its name as the kernel gave it and the file name as the caller passed it, cut at 255 characters.  If it cannot,
  the callback prints \<open><failed>\<close> followed by what the helper left in the array after the first eight bytes, up to the
  first NUL; when it left none there, the name has no end in the array and the callback reads past it, which is
  undefined.  A helper that leaves the cleared array as it is thus gives exactly \<open><failed>\<close>.
\<close>

theorem dlopen_is_reported:
  assumes "bpf_helpers env umem kmem" and "wf_so_event e0"
    and "ctx (PT_PARM1_REG arm64_regs) = Some p" and "p \<noteq> 0" and "length mem = 276"
    and "k_read_user_str env 256 (replicate 256 NUL) p = (r, buf)"
  defines "line \<equiv> (\<lambda>name. ''dlopen_ext called by pid '' @ fmt_d (ucast (drop_bit 32 (k_pid_tgid env)) :: i32) @ '' ('' @
      c_str (snd (k_comm env 16 (so_comm e0))) @ ''), filename: '' @ name @ ''\<newline>'')"
  shows "\<exists>e. handle_andrid_dlopen_ext env (Some e0) ctx = Some (0, [e]) \<and>
    so_handle_event (store_so_event e mem @ rest) =
      (if 0 \<le> r then Some (0, line (c_str (mem_chars umem p 255)))
       else if NUL \<in> set (drop 8 buf) then Some (0, line (''<failed>'' @ c_str (drop 8 buf)))
       else None) \<and>
    (r < 0 \<and> buf = replicate 256 NUL \<longrightarrow> so_handle_event (store_so_event e mem @ rest) = Some (0, line ''<failed>''))"
proof -
  obtain e where e: "dlopen_body env (Some e0) p = (0, [e])" "wf_so_event e" "nul_terminated (so_comm e)"
    "so_pid e = ucast (drop_bit 32 (k_pid_tgid env))" "so_comm e = snd (k_comm env 16 (so_comm e0))"
    "so_filename e = reported_name r buf" "0 \<le> r \<longrightarrow> nul_terminated buf \<and> c_str buf = c_str (mem_chars umem p 255)"
    using bpf_helpers.dlopen_event [OF assms(1,2,4,6)] by (auto simp: SO_COMM_LEN_def)
  have "bpf_kprobe_args arm64_regs 1 ctx = Some [p]"
    using assms(3) by (simp add: bpf_kprobe_args_def PT_REGS_PARMS_def)
  then have run: "handle_andrid_dlopen_ext env (Some e0) ctx = Some (0, [e])"
    using e(1) by (simp add: handle_andrid_dlopen_ext_def BPF_KPROBE_def)
  have load: "load_so_event (store_so_event e mem @ rest) = e"
    using so_codec.dec_enc [of e mem rest] e(2) assms(5) by simp
  have out: "so_handle_event (store_so_event e mem @ rest) =
      (if nul_terminated (reported_name r buf) then Some (0, line (c_str (reported_name r buf))) else None)"
    using e(3-6) by (simp add: so_handle_event_def load line_def)
  have name: "c_str (''<failed>'' @ ys) = ''<failed>'' @ c_str ys" "nul_terminated (''<failed>'' @ ys) \<longleftrightarrow> NUL \<in> set ys" for ys
    by (rule c_str_append) (simp_all add: nul_terminated_def)
  have clear: "c_str (drop 8 buf) = []" "NUL \<in> set (drop 8 buf)" if "buf = replicate 256 NUL"
    using that by (simp_all add: c_str_def numeral_eq_Suc)
  show ?thesis
  proof (cases "0 \<le> r")
    case True
    then have "so_handle_event (store_so_event e mem @ rest) = Some (0, line (c_str (mem_chars umem p 255)))"
      using out e(7) by (simp add: reported_name_def)
    with run True show ?thesis by (intro exI [of _ e]) simp
  next
    case False
    then have "reported_name r buf = ''<failed>'' @ drop 8 buf" by (simp add: reported_name_def)
    with out have failed: "so_handle_event (store_so_event e mem @ rest) =
        (if NUL \<in> set (drop 8 buf) then Some (0, line (''<failed>'' @ c_str (drop 8 buf))) else None)"
      by (simp only: name)
    with clear have "buf = replicate 256 NUL \<Longrightarrow> so_handle_event (store_so_event e mem @ rest) = Some (0, line ''<failed>'')"
      by (simp only: if_True append_Nil2)
    with run failed False show ?thesis by (intro exI [of _ e] conjI) (simp_all only: if_False simp_thms, blast)
  qed
qed

theorem dlopen_is_reported_witness:
  "\<exists>e. handle_andrid_dlopen_ext (ref_kenv (\<lambda>_. True) (push_bit 32 42) 0 ''app'' (\<lambda>_. 65) (\<lambda>_. 0))
      (Some \<lparr>so_pid = 0, so_comm = replicate 16 NUL, so_filename = replicate 256 NUL\<rparr>) (\<lambda>r. Some 4096) = Some (0, [e])"
proof -
  let ?env = "ref_kenv (\<lambda>_. True) (push_bit 32 42) 0 ''app'' (\<lambda>_. 65) (\<lambda>_. 0)"
  have "bpf_helpers ?env (\<lambda>_. 65) (\<lambda>_. 0)" by unfold_locales
  moreover have "wf_so_event \<lparr>so_pid = 0, so_comm = replicate 16 NUL, so_filename = replicate 256 NUL\<rparr>"
    by (simp add: wf_so_event_def SO_COMM_LEN_def)
  ultimately show ?thesis
    using dlopen_is_reported [of ?env "\<lambda>_. 65" "\<lambda>_. 0" "\<lparr>so_pid = 0, so_comm = replicate 16 NUL, so_filename = replicate 256 NUL\<rparr>"
        "\<lambda>r. Some 4096" 4096 "replicate 276 0", OF _ _ refl _ _ prod.collapse [symmetric]]
    by auto
qed

text \<open>
  (C27) \<open>libbpfso\<close> returns an indeterminate exit status exactly when attaching succeeded and either
  \<open>ring_buffer__new\<close> failed or the loop was left before the first poll: \<open>err\<close> is then never assigned.  On every
  path that returns, ring buffer, link and skeleton are released once each, in this order, if they were created.
\<close>

theorem so_main_exit_status:
  assumes "so_main env = Some (status, calls)"
  shows "(status = None \<longleftrightarrow> so_setrlimit env = 0 \<and> so_skel_ok env \<and> so_attach_errno env = None \<and>
      (\<not> so_rb_ok env \<or> so_exiting env 0)) \<and>
    filter (\<lambda>c. c \<in> {So_Rb_Free, So_Link_Destroy, So_Skel_Destroy}) calls =
      (if So_Rb_New True \<in> set calls then [So_Rb_Free] else []) @
      (if So_Link_New True \<in> set calls then [So_Link_Destroy] else []) @
      (if So_Skel_New True \<in> set calls then [So_Skel_Destroy] else [])"
proof -
  let ?cb = "\<lambda>d. So_Output (so_handle_event d)"
  have loop: "err = None \<longleftrightarrow> so_exiting env 0"
    if pl: "poll_loop (so_exiting env) (so_poll env) ?cb 0 None [] = Some (err, out)" for err out
  proof -
    obtain n where "so_exiting env n \<or> poll_fatal (snd (so_poll env n))" using poll_loop_stopped [OF pl] by blast
    then obtain k where k: "polls_until (so_exiting env) (so_poll env) 0 k" "so_exiting env k \<or> poll_fatal (snd (so_poll env k))"
      using first_stop [of "so_exiting env" n "so_poll env" 0] by blast
    have no: "0 < k \<Longrightarrow> \<not> so_exiting env 0" using k(1) by (auto simp: polls_until_def)
    show ?thesis
      using poll_loop_exiting [OF k(1), of ?cb None "[]"] poll_loop_failed [OF k(1), of ?cb None "[]"] k(2) pl no
      by (cases "so_exiting env k"; cases "k = 0") auto
  qed
  have out: "filter (\<lambda>c. c \<in> {So_Rb_Free, So_Link_Destroy, So_Skel_Destroy}) out = [] \<and>
      So_Rb_New True \<notin> set out \<and> So_Link_New True \<notin> set out \<and> So_Skel_New True \<notin> set out"
    if pl: "poll_loop (so_exiting env) (so_poll env) ?cb 0 None [] = Some (err, out)" for err out
  proof -
    obtain recs where "out = [] @ map ?cb recs" using poll_loop_output [OF pl] .
    then show ?thesis by (auto simp: filter_empty_conv)
  qed
  have msg: "filter (\<lambda>c. c \<in> {So_Rb_Free, So_Link_Destroy, So_Skel_Destroy}) (so_poll_message err) = [] \<and>
      So_Rb_New True \<notin> set (so_poll_message err) \<and> So_Link_New True \<notin> set (so_poll_message err) \<and>
      So_Skel_New True \<notin> set (so_poll_message err)" for err
    by (auto simp: so_poll_message_def split: option.splits)
  show ?thesis
  proof (cases "so_attach_errno env")
    case None
    then show ?thesis
      using assms loop out msg
      by (auto simp: so_main_def Let_def so_cleanup_def exit_status_def split: if_splits option.splits)
  next
    case (Some en)
    then have "so_setrlimit env \<noteq> 0 \<or> \<not> so_skel_ok env \<or> status = exit_status (Some (- en))"
      using assms by (auto simp: so_main_def Let_def split: if_splits)
    then show ?thesis
      using assms Some
      by (auto simp: so_main_def Let_def so_cleanup_def exit_status_def simp del: not_None_eq split: if_splits)
  qed
qed

theorem so_main_exit_status_witness:
  "so_main \<lparr>so_setrlimit = 0, so_skel_ok = True, so_attach_errno = None,
      so_strerror = (\<lambda>_. []), so_rb_ok = False, so_exiting = (\<lambda>_. False),
      so_poll = (\<lambda>_. ([], 0))\<rparr> =
     Some (None, [So_Strict_Mode, So_Set_Print, So_Setrlimit, So_Skel_New True,
       So_Attach_Uprobe (-1) libdl_path ''android_dlopen_ext'' False, So_Link_New True, So_Rb_New False,
       So_Eprint ''failed to create ring buffer\<newline>'', So_Link_Destroy, So_Skel_Destroy])"
proof -
  let ?env = "\<lparr>so_setrlimit = 0, so_skel_ok = True, so_attach_errno = None,
      so_strerror = (\<lambda>_. []), so_rb_ok = False, so_exiting = (\<lambda>_. False),
      so_poll = (\<lambda>_. ([], 0))\<rparr> :: so_env"
  obtain status calls where run: "so_main ?env = Some (status, calls)"
    and calls: "calls = [So_Strict_Mode, So_Set_Print, So_Setrlimit, So_Skel_New True,
       So_Attach_Uprobe (-1) libdl_path ''android_dlopen_ext'' False, So_Link_New True, So_Rb_New False,
       So_Eprint ''failed to create ring buffer\<newline>'', So_Link_Destroy, So_Skel_Destroy]"
    by (simp add: so_main_def so_cleanup_def Let_def)
  from so_main_exit_status [OF run] have "status = None" by simp
  with run calls show ?thesis by simp
qed

end
