(* ===== verification/Bpf_Print.thy ===== *)
theory Bpf_Print
  imports Prelude
begin

text \<open>
  The variadic macros of \<open>bpf_helpers.h\<close> behind \<open>bpf_printk\<close>, \<open>BPF_SNPRINTF\<close> and
  \<open>BPF_SEQ_PRINTF\<close>: counting the arguments, choosing the helper, and filling the array of
  parameters.  A macro argument list is a list; a call that does not compile is \<open>None\<close>.
\<close>

section \<open>Counting arguments\<close>

text \<open>A preprocessor token: an argument of the caller, or one the macro itself wrote.\<close>

datatype ('a, 'm) token = Arg 'a | Own 'm | Blank

text \<open>\<open>___bpf_nth (_, _1, \<dots>, _c, N, \<dots>)\<close> expands to \<open>N\<close>, the fourteenth of its arguments.\<close>

definition bpf_nth :: "('a, 'm) token list \<Rightarrow> ('a, 'm) token option" where
  "bpf_nth ts = (if length ts < 14 then None else Some (ts ! 13))"

text \<open>With an empty argument list the comma before \<open>##__VA_ARGS__\<close> disappears.\<close>

definition bpf_narg :: "'a list \<Rightarrow> nat option" where
  "bpf_narg args =
     (case bpf_nth (Blank # map Arg args @ map Own [12, 11, 10, 9, 8, 7, 6, 5, 4, 3, 2, 1, 0]) of
        Some (Own n) \<Rightarrow> Some n
      | _ \<Rightarrow> None)"

section \<open>The array of parameters\<close>

text \<open>\<open>___bpf_fill\<open>n\<close> (arr, p, x, args\<dots>)\<close> assigns \<open>arr[p]\<close> and goes on with \<open>p + 1\<close>.\<close>

fun bpf_fill_from :: "u64 list \<Rightarrow> nat \<Rightarrow> u64 list \<Rightarrow> u64 list" where
  "bpf_fill_from arr p [] = arr"
| "bpf_fill_from arr p (x # args) = bpf_fill_from (arr[p := x]) (p + 1) args"

definition bpf_fill :: "u64 list \<Rightarrow> u64 list \<Rightarrow> u64 list option" where
  "bpf_fill arr args = (case bpf_narg args of None \<Rightarrow> None | Some n \<Rightarrow> Some (bpf_fill_from arr 0 args))"

text \<open>\<open>___param [___bpf_narg (args)]\<close>, uninitialised (\<open>undef\<close>) and then filled.\<close>

definition bpf_params :: "(nat \<Rightarrow> u64) \<Rightarrow> u64 list \<Rightarrow> u64 list option" where
  "bpf_params undef args =
     (case bpf_narg args of None \<Rightarrow> None | Some n \<Rightarrow> bpf_fill (map undef [0..<n]) args)"

section \<open>The wrappers\<close>

text \<open>Format, its size with the terminator, the values; for an array also its size in bytes.\<close>

datatype print_call =
  Trace_Printk string nat "u64 list"
| Trace_Vprintk string nat "u64 list" nat
| Seq_Printf u64 string nat "u64 list" nat
| Snprintf u64 u32 string "u64 list" nat

definition BPF_SEQ_PRINTF :: "(nat \<Rightarrow> u64) \<Rightarrow> u64 \<Rightarrow> string \<Rightarrow> u64 list \<Rightarrow> print_call option" where
  "BPF_SEQ_PRINTF undef seq fmt args =
     map_option (\<lambda>ps. Seq_Printf seq fmt (length fmt + 1) ps (8 * length ps)) (bpf_params undef args)"

definition BPF_SNPRINTF :: "(nat \<Rightarrow> u64) \<Rightarrow> u64 \<Rightarrow> u32 \<Rightarrow> string \<Rightarrow> u64 list \<Rightarrow> print_call option" where
  "BPF_SNPRINTF undef out out_size fmt args =
     map_option (\<lambda>ps. Snprintf out out_size fmt ps (8 * length ps)) (bpf_params undef args)"

definition bpf_printk_short :: "string \<Rightarrow> u64 list \<Rightarrow> print_call option" where
  "bpf_printk_short fmt args = Some (Trace_Printk fmt (length fmt + 1) args)"

definition bpf_vprintk :: "(nat \<Rightarrow> u64) \<Rightarrow> string \<Rightarrow> u64 list \<Rightarrow> print_call option" where
  "bpf_vprintk undef fmt args =
     map_option (\<lambda>ps. Trace_Vprintk fmt (length fmt + 1) ps (8 * length ps)) (bpf_params undef args)"

datatype printk_macro = Use_Printk | Use_Vprintk

definition bpf_pick_printk :: "'a list \<Rightarrow> printk_macro option" where
  "bpf_pick_printk args =
     (case bpf_nth (Blank # map Arg args @ map Own (replicate 9 Use_Vprintk @ replicate 4 Use_Printk)) of
        Some (Own f) \<Rightarrow> Some f
      | _ \<Rightarrow> None)"

definition bpf_printk :: "(nat \<Rightarrow> u64) \<Rightarrow> string \<Rightarrow> u64 list \<Rightarrow> print_call option" where
  "bpf_printk undef fmt args =
     (case bpf_pick_printk args of
        None \<Rightarrow> None
      | Some Use_Printk \<Rightarrow> bpf_printk_short fmt args
      | Some Use_Vprintk \<Rightarrow> bpf_vprintk undef fmt args)"

section \<open>Lemmas\<close>

lemma nth_after_args:
  assumes "length own = 13"
  shows "bpf_nth (Blank # map Arg args @ map Own own) =
    Some (if length args \<le> 12 then Own (own ! (12 - length args)) else Arg (args ! 12))"
  using assms by (auto simp: bpf_nth_def nth_append nth_Cons')

lemma narg_length: "bpf_narg args = (if length args \<le> 12 then Some (length args) else None)"
proof -
  let ?own = "[12, 11, 10, 9, 8, 7, 6, 5, 4, 3, 2, 1, 0] :: nat list"
  have "?own = rev [0..<13]" by (simp add: upt_rec)
  then have "?own ! (12 - n) = n" if "n \<le> 12" for n :: nat
    using that by (simp add: rev_nth)
  with nth_after_args [of ?own args] show ?thesis by (simp add: bpf_narg_def)
qed

lemma pick_printk_count:
  "bpf_pick_printk args =
     (if length args \<le> 3 then Some Use_Printk else if length args \<le> 12 then Some Use_Vprintk else None)"
  using nth_after_args [of "replicate 9 Use_Vprintk @ replicate 4 Use_Printk" args]
  by (auto simp: bpf_pick_printk_def nth_append)

lemma fill_from:
  "length arr = length pre + length args \<Longrightarrow> take (length pre) arr = pre \<Longrightarrow>
   bpf_fill_from arr (length pre) args = pre @ args"
proof (induction args arbitrary: arr pre)
  case Nil
  then show ?case by simp
next
  case (Cons x args)
  have "take (length (pre @ [x])) (arr[length pre := x]) = pre @ [x]"
    using Cons.prems by (simp add: take_Suc_conv_app_nth)
  from Cons.IH [OF _ this] Cons.prems(1) show ?case by simp
qed

lemma params_args: "bpf_params undef args = (if length args \<le> 12 then Some args else None)"
  using fill_from [of "map undef [0..<length args]" "[]" args] by (simp add: bpf_params_def bpf_fill_def narg_length)

section \<open>Properties\<close>

text \<open>
  Printing macros.  With up to twelve arguments every wrapper calls its helper once with all arguments in order,
  whatever the uninitialised array held, and with the sizes of format and array; \<open>bpf_printk\<close> uses
  \<open>bpf_trace_printk\<close> for at most three arguments and \<open>bpf_trace_vprintk\<close> otherwise; with more than twelve none of them
  compiles.
\<close>

theorem printing_macros_pass_arguments:
  "bpf_printk undef fmt args =
     (if length args \<le> 3 then Some (Trace_Printk fmt (length fmt + 1) args)
      else if length args \<le> 12 then Some (Trace_Vprintk fmt (length fmt + 1) args (8 * length args)) else None) \<and>
   BPF_SNPRINTF undef out out_size fmt args =
     (if length args \<le> 12 then Some (Snprintf out out_size fmt args (8 * length args)) else None) \<and>
   BPF_SEQ_PRINTF undef seq fmt args =
     (if length args \<le> 12 then Some (Seq_Printf seq fmt (length fmt + 1) args (8 * length args)) else None)"
  by (simp add: bpf_printk_def pick_printk_count bpf_printk_short_def bpf_vprintk_def BPF_SNPRINTF_def
      BPF_SEQ_PRINTF_def params_args)

end
