(* ===== verification/App.thy ===== *)
theory App
  imports Bpf_Env Strace_Event C_Lib Bpf_Print
begin

text \<open>
  \<open>libbpfapp\<close>: the tracepoint program on \<open>sys_enter_execve\<close>, which builds its event in
  a scratch entry of the hash map \<open>execs\<close>, reports it with \<open>bpf_printk\<close> and removes
  the entry again, and the user-space \<open>main\<close>.  The skeleton of this tool is not in
  the repository; what its functions answer are parameters of \<open>main\<close>.
\<close>

section \<open>The BPF program\<close>

record app_event =
  ae_pid :: i32
  ae_ppid :: i32
  ae_uid :: u32
  ae_comm :: string
  ae_args :: string

definition empty_event :: app_event where
  "empty_event = \<lparr>ae_pid = 0, ae_ppid = 0, ae_uid = 0, ae_comm = replicate 16 NUL, ae_args = replicate 128 NUL\<rparr>"

datatype printk_arg = Num u64 | Text string
datatype printk = Printk string "printk_arg list"

text \<open>Helpers this program calls beside those of \<open>kenv\<close>.\<close>

record app_env =
  a_env :: kenv
  a_task :: u64
  a_tgid_off :: u64 \<comment> \<open>offset of \<open>tgid\<close> in \<open>struct task_struct\<close>\<close>
  a_ktime_ns :: u64
  a_ktime_boot_ns :: u64
  a_prandom :: u32
  a_cpu :: u32
  a_task_pt_regs :: u64

definition app_fill :: "app_env \<Rightarrow> u64 list \<Rightarrow> app_event \<Rightarrow> app_event" where
  "app_fill env ctx_args e =
     (let i = k_pid_tgid (a_env env);
          e = e\<lparr>ae_pid := ucast (drop_bit 32 i)\<rparr>;
          e = e\<lparr>ae_uid := ucast (k_uid_gid (a_env env))\<rparr>;
          e = e\<lparr>ae_comm := snd (k_comm (a_env env) 16 (ae_comm e))\<rparr>
      in e\<lparr>ae_args := snd (k_read_user_str (a_env env) 127 (ae_args e) (ctx_args ! 0))\<rparr>)"

definition app_report :: "app_env \<Rightarrow> app_event \<Rightarrow> printk list" where
  "app_report env e =
     (let i = k_pid_tgid (a_env env); pid = (ucast i :: i32);
          pid2 = (le_word (snd (k_read_kernel (a_env env) 4 (replicate 4 0) (a_task env + a_tgid_off env))) :: i32)
      in [Printk ''BPF triggerd from PID %d.\<newline>'' [Num (scast pid)],
          Printk ''BPF bpf_ktime_get_ns(): %ld.\<newline>'' [Num (a_ktime_ns env)],
          Printk ''BPF bpf_ktime_get_boot_ns(): %ld.\<newline>'' [Num (a_ktime_boot_ns env)],
          Printk ''BPF bpf_get_current_uid_gid(): 0x%lx.\<newline>'' [Num (k_uid_gid (a_env env))],
          Printk ''BPF bpf_get_current_pid_tgid(): 0x%lx.\<newline>'' [Num i],
          Printk ''BPF bpf_probe_read_user_str(): comm:%s, args:%s\<newline>'' [Text (c_str (ae_comm e)), Text (c_str (ae_args e))],
          Printk ''BPF bpf_get_current_task pid: 0x%lx.\<newline>'' [Num (scast pid2)],
          Printk ''BPF bpf_get_prandom_u32: 0x%lx.\<newline>'' [Num (ucast (a_prandom env))],
          Printk ''BPF bpf_get_smp_processor_id: 0x%lx.\<newline>'' [Num (ucast (a_cpu env))],
          Printk ''BPF bpf_task_pt_regs: 0x%lx.\<newline>'' [Num (a_task_pt_regs env)]])"

text \<open>\<open>my_pid\<close> is what \<open>my_pid_map\<close> holds at index 0; the result is the status, the map and the trace lines.\<close>

definition sys_enter_execve ::
  "('m, i32, app_event) map_ops \<Rightarrow> i32 option \<Rightarrow> app_env \<Rightarrow> u64 list \<Rightarrow> 'm \<Rightarrow> int \<times> 'm \<times> printk list" where
  "sys_enter_execve ops my_pid env ctx_args m =
     (let log = (case my_pid of None \<Rightarrow> [] | Some p \<Rightarrow> [Printk ''my pid is %d\<newline>'' [Num (scast p)]]);
          pid = (ucast (k_pid_tgid (a_env env)) :: i32);
          (r, m1) = map_update_elem ops m pid empty_event BPF_NOEXIST
      in if r \<noteq> 0 then (0, m1, log)
         else case map_lookup_elem ops m1 pid of
           None \<Rightarrow> (0, m1, log)
         | Some e \<Rightarrow>
             (let e' = app_fill env ctx_args e; m2 = map_store ops m1 pid e'
              in (0, snd (map_delete_elem ops m2 pid), log @ app_report env e')))"

section \<open>User space\<close>

record app_main_env =
  am_skel_ok :: bool \<comment> \<open>\<open>open_and_load\<close> did not return \<open>NULL\<close>\<close>
  am_pid :: i32      \<comment> \<open>\<open>getpid\<close>\<close>
  am_update_rc :: int
  am_strerror :: "int \<Rightarrow> string"
  am_attach_rc :: int

datatype app_call =
  App_Strict_Mode | App_Set_Print | App_Eprint string | App_Print string | App_Skel_New
| App_Update_My_Pid u32 i32 u64 | App_Attach | App_System string | App_Skel_Destroy

definition app_main :: "app_main_env \<Rightarrow> int \<times> app_call list" where
  "app_main env =
     (let log = [App_Strict_Mode, App_Set_Print]
      in if \<not> am_skel_ok env then (1, log @ [App_Eprint ''failed to open and load skeleton\<newline>''])
      else let err = am_update_rc env; log = log @ [App_Skel_New, App_Update_My_Pid 0 (am_pid env) BPF_ANY]
      in if err < 0 then
        (- err, log @ [App_Eprint (''Error updating map with pid: '' @ am_strerror env err @ ''\<newline>''), App_Skel_Destroy])
      else let err = am_attach_rc env; log = log @ [App_Attach]
      in if err \<noteq> 0 then
        (- err, log @ [App_Eprint (''failed to attach: '' @ fmt_int err @ ''\<newline>''), App_Skel_Destroy])
      else
        (- err, log @ [App_Print ''Successfully started!\<newline>'', App_System ''cat /sys/kernel/tracing/trace_pipe'',
                       App_Skel_Destroy]))"

text \<open>
  The element of the one-element array \<open>my_pid_map\<close> after some calls: zero at first, as in every array map, then what was
  stored last.
\<close>

fun my_pid_after :: "app_call list \<Rightarrow> i32 \<Rightarrow> i32" where
  "my_pid_after [] v = v"
| "my_pid_after (App_Update_My_Pid i p fl # cs) v = my_pid_after cs (if i = 0 then p else v)"
| "my_pid_after (c # cs) v = my_pid_after cs v"

section \<open>Lemmas\<close>

context bpf_map
begin

lemma noexist_lookup: "map_update_elem ops m k v BPF_NOEXIST = (0, m1) \<Longrightarrow> map_lookup_elem ops m1 k = Some v"
  using update_ok by fastforce

end

lemma app_fill_fields [simp]:
  "ae_pid (app_fill env ctx e) = ucast (drop_bit 32 (k_pid_tgid (a_env env)))"
  "ae_uid (app_fill env ctx e) = ucast (k_uid_gid (a_env env))"
  by (simp_all add: app_fill_def Let_def)

lemma execve_success:
  assumes "bpf_map ops" and "map_update_elem ops m (ucast (k_pid_tgid (a_env env))) empty_event BPF_NOEXIST = (0, m1)"
  shows "sys_enter_execve ops my_pid env ctx m =
    (0, snd (map_delete_elem ops (map_store ops m1 (ucast (k_pid_tgid (a_env env))) (app_fill env ctx empty_event))
              (ucast (k_pid_tgid (a_env env)))),
     (case my_pid of None \<Rightarrow> [] | Some p \<Rightarrow> [Printk ''my pid is %d\<newline>'' [Num (scast p)]]) @
       app_report env (app_fill env ctx empty_event))"
  using assms(2) bpf_map.noexist_lookup [OF assms]
  by (simp add: sys_enter_execve_def Let_def split: option.split)

text \<open>No trace line has more than three values, so each \<open>bpf_printk\<close> is a call of \<open>bpf_trace_printk\<close>.\<close>

lemma trace_lines_short:
  "list_all (\<lambda>line. case line of Printk fmt args \<Rightarrow> bpf_pick_printk args = Some Use_Printk)
     (snd (snd (sys_enter_execve ops my_pid env ctx m)))"
  by (simp add: sys_enter_execve_def app_report_def Let_def pick_printk_count split: option.split prod.split)

section \<open>Properties\<close>

text \<open>
  Scratch entries.  Whatever the map and whether or not the entry could be created, a run of the \<open>execve\<close> program
  leaves \<open>execs\<close> with the contents it had, so entries never accumulate and the map cannot fill up.
\<close>

theorem execve_leaves_map_unchanged:
  assumes "bpf_map ops"
  shows "map_lookup_elem ops (fst (snd (sys_enter_execve ops my_pid env ctx m))) = map_lookup_elem ops m"
proof -
  let ?pid = "ucast (k_pid_tgid (a_env env)) :: i32"
  obtain r m1 where u: "map_update_elem ops m ?pid empty_event BPF_NOEXIST = (r, m1)"
    by (cases "map_update_elem ops m ?pid empty_event BPF_NOEXIST")
  show ?thesis
  proof (cases "r = 0")
    case True
    with u have u0: "map_update_elem ops m ?pid empty_event BPF_NOEXIST = (0, m1)" by simp
    show ?thesis
      unfolding execve_success [OF assms u0] using bpf_map.scratch_entry [OF assms u0] by simp
  next
    case False
    with u bpf_map.update_fail [OF assms u] show ?thesis by (simp add: sys_enter_execve_def)
  qed
qed

theorem execve_leaves_map_unchanged_witness:
  "map_lookup_elem (hash_ops 1) (fst (snd (sys_enter_execve (hash_ops 1) None
      \<lparr>a_env = ref_kenv (\<lambda>_. True) 7 0 ''sh'' (\<lambda>_. 0) (\<lambda>_. 0), a_task = 0, a_tgid_off = 0, a_ktime_ns = 0,
       a_ktime_boot_ns = 0, a_prandom = 0, a_cpu = 0, a_task_pt_regs = 0\<rparr> [4096, 0] []))) = map_lookup_elem (hash_ops 1) []"
  by (rule execve_leaves_map_unchanged [OF hash_map.bpf_map_axioms])

text \<open>
  (C28) Reported file name.  When the entry can be created and the string read, the line with the arguments shows the
  terminated process name and the file name passed to \<open>execve\<close>, cut at 126 characters so that it always ends
  inside the 128-byte array.
\<close>

theorem execve_reports_file_name:
  assumes "bpf_map ops" and "bpf_helpers (a_env env) umem kmem"
    and "map_update_elem ops m (ucast (k_pid_tgid (a_env env))) empty_event BPF_NOEXIST = (0, m1)"
    and "0 \<le> fst (k_read_user_str (a_env env) 127 (replicate 128 NUL) (ctx ! 0))"
  defines "e \<equiv> app_fill env ctx empty_event"
  shows "Printk ''BPF bpf_probe_read_user_str(): comm:%s, args:%s\<newline>''
      [Text (c_str (ae_comm e)), Text (c_str (mem_chars umem (ctx ! 0) 126))]
      \<in> set (snd (snd (sys_enter_execve ops my_pid env ctx m))) \<and>
    nul_terminated (ae_comm e) \<and> nul_terminated (ae_args e) \<and> length (ae_args e) = 128"
proof -
  have len: "127 \<le> length (replicate 128 NUL)" by simp
  have e: "ae_args e = snd (k_read_user_str (a_env env) 127 (replicate 128 NUL) (ctx ! 0))"
    "ae_comm e = snd (k_comm (a_env env) 16 (replicate 16 NUL))"
    by (simp_all add: e_def app_fill_def empty_event_def Let_def)
  have "c_str (ae_args e) = c_str (mem_chars umem (ctx ! 0) 126)"
    using bpf_helpers.read_user_str_text(1) [OF assms(2) _ len assms(4)] by (simp add: e)
  moreover have "nul_terminated (ae_args e)"
    unfolding e(1) using bpf_helpers.str_text(3) [OF assms(2) len prod.collapse [symmetric] assms(4)] .
  moreover have "length (ae_args e) = 128"
    unfolding e(1) using bpf_helpers.str_length [OF assms(2) len] by simp
  moreover have "nul_terminated (ae_comm e)"
    unfolding e(2) using bpf_helpers.comm_ok [OF assms(2), of 16 "replicate 16 NUL"]
    by (auto simp: nul_terminated_def dest: in_set_takeD)
  ultimately show ?thesis
    unfolding execve_success [OF assms(1,3)] by (simp add: app_report_def Let_def e_def)
qed

theorem execve_reports_file_name_witness:
  "Printk ''BPF bpf_probe_read_user_str(): comm:%s, args:%s\<newline>'' [Text ''sh'', Text []] \<in>
     set (snd (snd (sys_enter_execve (hash_ops 1) None
      \<lparr>a_env = ref_kenv (\<lambda>_. True) 7 0 ''sh'' (\<lambda>_. 0) (\<lambda>_. 0), a_task = 0, a_tgid_off = 0, a_ktime_ns = 0,
       a_ktime_boot_ns = 0, a_prandom = 0, a_cpu = 0, a_task_pt_regs = 0\<rparr> [4096, 0] [])))"
proof -
  let ?env = "\<lparr>a_env = ref_kenv (\<lambda>_. True) 7 0 ''sh'' (\<lambda>_. 0) (\<lambda>_. 0), a_task = 0, a_tgid_off = 0, a_ktime_ns = 0,
       a_ktime_boot_ns = 0, a_prandom = 0, a_cpu = 0, a_task_pt_regs = 0\<rparr>"
  have h: "bpf_helpers (a_env ?env) (\<lambda>_. 0) (\<lambda>_. 0)" using ref_kenv.bpf_helpers_axioms by simp
  have u: "map_update_elem (hash_ops 1) [] (ucast (k_pid_tgid (a_env ?env)) :: i32) empty_event BPF_NOEXIST =
      (0, [(ucast (k_pid_tgid (a_env ?env)), empty_event)])"
    by (simp add: hash_ops_def BPF_NOEXIST_def BPF_EXIST_def)
  have "char_of_byte 0 = NUL" by (simp add: char_of_byte_def char_of_def)
  then have "c_str (mem_chars (\<lambda>_. 0) 4096 126) = []"
    by (simp add: mem_chars_def mem_bytes_def upt_conv_Cons)
  moreover have "c_str (ae_comm (app_fill ?env [4096, 0] empty_event)) = ''sh''"
    by (simp add: app_fill_def empty_event_def ref_kenv_def overwrite_def c_str_def Let_def)
  ultimately show ?thesis
    using execve_reports_file_name [OF hash_map.bpf_map_axioms h u, of "[4096, 0]" None]
    by (simp add: ref_kenv_def Let_def)
qed



end
