(* ===== verification/Libbpf_Log.thy ===== *)
theory Libbpf_Log
  imports Prelude
begin

text \<open>
  The callbacks the three tools give to \<open>libbpf_set_print\<close>.  libbpf calls them with a level, a format and its arguments;
  \<open>vfprintf\<close> on \<open>stderr\<close> is a parameter that gives the result and the text written.
\<close>

datatype libbpf_print_level = LIBBPF_WARN | LIBBPF_INFO | LIBBPF_DEBUG

type_synonym ('f, 'v) vprint = "'f \<Rightarrow> 'v \<Rightarrow> int \<times> string"

definition strace_print_fn :: "('f, 'v) vprint \<Rightarrow> libbpf_print_level \<Rightarrow> ('f, 'v) vprint" where
  "strace_print_fn vfprintf level fmt args = (if level = LIBBPF_DEBUG then (0, []) else vfprintf fmt args)"

definition so_print_fn :: "('f, 'v) vprint \<Rightarrow> libbpf_print_level \<Rightarrow> ('f, 'v) vprint" where
  "so_print_fn vfprintf level fmt args = vfprintf fmt args"

definition app_print :: "('f, 'v) vprint \<Rightarrow> libbpf_print_level \<Rightarrow> ('f, 'v) vprint" where
  "app_print vfprintf level fmt args = vfprintf fmt args"

text \<open>What appears on \<open>stderr\<close> for the messages of a run.\<close>

definition log_text :: "(libbpf_print_level \<Rightarrow> ('f, 'v) vprint) \<Rightarrow> (libbpf_print_level \<times> 'f \<times> 'v) list \<Rightarrow> string" where
  "log_text callback msgs = concat (map (\<lambda>(level, fmt, args). snd (callback level fmt args)) msgs)"

text \<open>\<open>libbpfstrace\<close> drops exactly the debugging messages; the other two tools print everything.\<close>

lemma log_text_levels:
  "log_text (strace_print_fn vp) msgs = log_text (so_print_fn vp) (filter (\<lambda>m. fst m \<noteq> LIBBPF_DEBUG) msgs)"
  "log_text (app_print vp) msgs = log_text (so_print_fn vp) msgs"
  by (induction msgs) (auto simp: log_text_def strace_print_fn_def so_print_fn_def app_print_def)

end
