(* ===== verification/Linux_Arith.thy ===== *)
theory Linux_Arith
  imports Prelude "HOL-Library.Signed_Division"
begin

text \<open>
  The arithmetic of the SDK's \<open>linux/err.h\<close>, \<open>linux/kernel.h\<close> and \<open>linux/overflow.h\<close>: errors encoded in pointers,
  rounding, and the multiplication with overflow check that is used where the compiler has no built-in one.  A C integer
  type of \<open>n\<close> bits is an \<open>n\<close>-bit word with a flag that says whether it is signed; \<open>unsigned long\<close> and pointers have 64
  bits on both targets.
\<close>

section \<open>Errors in pointers: \<open>err.h\<close>\<close>

definition MAX_ERRNO :: i64 where
  "MAX_ERRNO = 4095"

definition IS_ERR_VALUE :: "u64 \<Rightarrow> bool" where
  "IS_ERR_VALUE x \<longleftrightarrow> x \<ge> - MAX_ERRNO"

definition ERR_PTR :: "i64 \<Rightarrow> u64" where
  "ERR_PTR error = error"

definition PTR_ERR :: "u64 \<Rightarrow> i64" where
  "PTR_ERR ptr = ptr"

definition IS_ERR :: "u64 \<Rightarrow> bool" where
  "IS_ERR ptr \<longleftrightarrow> IS_ERR_VALUE ptr"

definition IS_ERR_OR_NULL :: "u64 \<Rightarrow> bool" where
  "IS_ERR_OR_NULL ptr \<longleftrightarrow> ptr = 0 \<or> IS_ERR_VALUE ptr"

definition PTR_ERR_OR_ZERO :: "u64 \<Rightarrow> i64" where
  "PTR_ERR_OR_ZERO ptr = (if IS_ERR ptr then PTR_ERR ptr else 0)"

section \<open>Rounding: \<open>kernel.h\<close>\<close>

definition roundup :: "'a::len word \<Rightarrow> 'a word \<Rightarrow> 'a word" where
  "roundup x y = ((x + (y - 1)) div y) * y"

definition DIV_ROUND_UP :: "'a::len word \<Rightarrow> 'a word \<Rightarrow> 'a word" where
  "DIV_ROUND_UP n d = (n + d - 1) div d"

section \<open>Types and their limits: \<open>overflow.h\<close>\<close>

text \<open>The comparison \<open><\<close> of a type; \<open>sg\<close> tells whether the type is signed.\<close>

definition c_less :: "bool \<Rightarrow> 'a::len word \<Rightarrow> 'a word \<Rightarrow> bool" where
  "c_less sg a b = (if sg then sint a < sint b else a < b)"

definition is_signed_type :: "bool \<Rightarrow> 'a::len itself \<Rightarrow> bool" where
  "is_signed_type sg T = c_less sg (- 1 :: 'a word) 1"

definition type_half_max :: "bool \<Rightarrow> 'a::len word" where
  "type_half_max sg = push_bit (LENGTH('a) - 1 - of_bool (is_signed_type sg TYPE('a))) 1"

definition type_max :: "bool \<Rightarrow> 'a::len word" where
  "type_max sg = (type_half_max sg - 1) + type_half_max sg"

definition type_min :: "bool \<Rightarrow> 'a::len word" where
  "type_min sg = - type_max sg - 1"

section \<open>Multiplication with overflow check\<close>

text \<open>
  The product \<open>__a * __b\<close> of two unsigned operands: those narrower than \<open>int\<close> are promoted to it, and a product that
  does not fit \<open>int\<close> is undefined (\<open>None\<close>); wider ones are multiplied in their own type, which wraps.
\<close>

definition unsigned_product :: "'a::len word \<Rightarrow> 'a word \<Rightarrow> 'a word option" where
  "unsigned_product a b =
     (if LENGTH('a) < 32 then if uint a * uint b < 2 ^ 31 then Some (word_of_int (uint a * uint b)) else None
      else Some (a * b))"

text \<open>Result and value stored in \<open>*d\<close>; \<open>const\<close> is \<open>__builtin_constant_p (b)\<close>.\<close>

definition unsigned_mul_overflow :: "bool \<Rightarrow> 'a::len word \<Rightarrow> 'a word \<Rightarrow> (bool \<times> 'a word) option" where
  "unsigned_mul_overflow const a b =
     map_option (Pair (if const then b > 0 \<and> a > type_max False div b else a > 0 \<and> b > type_max False div a))
       (unsigned_product a b)"

text \<open>Division of signed values truncates towards 0; the product is taken in \<open>__u64\<close> and converted.\<close>

definition signed_mul_overflow :: "'a::len word \<Rightarrow> 'a word \<Rightarrow> bool \<times> 'a word" where
  "signed_mul_overflow a b =
     (let a' = sint a; b' = sint b; tmax = sint (type_max True :: 'a word); tmin = sint (type_min True :: 'a word)
      in (b' > 0 \<and> (a' > tmax sdiv b' \<or> a' < tmin sdiv b') \<or>
          b' < - 1 \<and> (a' > tmin sdiv b' \<or> a' < tmax sdiv b') \<or>
          b' = - 1 \<and> a' = tmin,
          ucast ((scast a :: u64) * scast b)))"

definition check_mul_overflow :: "bool \<Rightarrow> bool \<Rightarrow> 'a::len word \<Rightarrow> 'a word \<Rightarrow> (bool \<times> 'a word) option" where
  "check_mul_overflow sg const a b =
     (if is_signed_type sg TYPE('a) then Some (signed_mul_overflow a b) else unsigned_mul_overflow const a b)"

text \<open>
  \<open>__builtin_mul_overflow\<close> as the compiler documents it: the exact product does not fit the type; the stored value is the
  product reduced to the type.
\<close>

definition builtin_mul_overflow :: "bool \<Rightarrow> 'a::len word \<Rightarrow> 'a word \<Rightarrow> bool \<times> 'a word" where
  "builtin_mul_overflow sg a b =
     (let p = (if sg then sint a * sint b else uint a * uint b)
      in (p \<noteq> (if sg then sint (word_of_int p :: 'a word) else uint (word_of_int p :: 'a word)), word_of_int p))"

section \<open>Limits\<close>

lemma sint_of_int_range:
  assumes "- (2 ^ (LENGTH('a) - 1)) \<le> k" and "k < 2 ^ (LENGTH('a) - 1)"
  shows "sint (word_of_int k :: 'a::len word) = k"
proof -
  have "signed_take_bit (LENGTH('a) - 1) k = k" using assms by (intro signed_take_bit_int_eq_self) simp_all
  then show ?thesis by (simp add: sint_sbintrunc')
qed

lemma unat_uint_numeral:
  "unat x < numeral k \<longleftrightarrow> uint x < numeral k" "unat x \<le> numeral k \<longleftrightarrow> uint x \<le> numeral k"
  by (simp_all flip: nat_uint_eq add: nat_less_iff nat_le_iff)

lemma uint_unat: "uint x = int (unat x)"
  by simp

lemma sint_cases: "sint (x :: i32) = (if unat x < 2 ^ 31 then int (unat x) else int (unat x) - 2 ^ 32)"
proof (cases "unat x < 2 ^ 31")
  case True
  moreover have "- (2 ^ 31) \<le> uint x" by (rule order_trans [OF _ unsigned_greater_eq]) simp
  ultimately show ?thesis using sint_of_int_range [of "uint x", where 'a = 32] by (simp add: unat_uint_numeral)
next
  case False
  have e: "word_of_int (uint x - 2 ^ 32) = x" by simp
  have "sint (word_of_int (uint x - 2 ^ 32) :: i32) = uint x - 2 ^ 32"
    using False uint_lt2p [of x] by (intro sint_of_int_range) (simp_all add: unat_uint_numeral)
  then have "sint x = uint x - 2 ^ 32" by (simp only: e)
  with False show ?thesis by simp
qed

lemma sint_nonneg: "0 \<le> sint (x :: i32) \<Longrightarrow> sint x = int (unat x)"
  using uint_lt2p [of x] by (simp add: sint_cases split: if_splits)

lemma is_signed_type_eq:
  assumes "2 \<le> LENGTH('a::len)"
  shows "is_signed_type sg TYPE('a) = sg"
proof -
  have "sint (1 :: 'a word) = 1" using assms by simp
  then show ?thesis by (auto simp: is_signed_type_def c_less_def)
qed

lemma unsigned_limits:
  assumes "2 \<le> LENGTH('a::len)"
  shows "type_max False = (- 1 :: 'a word)" and "type_min False = (0 :: 'a word)"
proof -
  have "push_bit (LENGTH('a) - 1) (1 :: 'a word) + push_bit (LENGTH('a) - 1) 1 = 2 ^ LENGTH('a)"
    using assms by (simp add: push_bit_eq_mult flip: power_Suc mult_2)
  then show m: "type_max False = (- 1 :: 'a word)"
    using assms by (simp add: type_max_def type_half_max_def is_signed_type_eq algebra_simps)
  show "type_min False = (0 :: 'a word)" by (simp add: type_min_def m)
qed

lemma signed_limits:
  assumes "2 \<le> LENGTH('a::len)"
  shows "sint (type_max True :: 'a word) = 2 ^ (LENGTH('a) - 1) - 1" and "sint (type_min True :: 'a word) = - (2 ^ (LENGTH('a) - 1))"
proof -
  let ?n = "LENGTH('a) - 2"
  have n: "LENGTH('a) - 1 = Suc ?n" using assms by simp
  have p: "(1 :: int) \<le> 2 ^ ?n" by simp
  have mx: "type_max True = (word_of_int (2 ^ Suc ?n - 1) :: 'a word)"
    using assms by (simp add: type_max_def type_half_max_def is_signed_type_eq push_bit_eq_mult numeral_2_eq_2)
  then have mn: "type_min True = (word_of_int (- (2 ^ Suc ?n)) :: 'a word)"
    by (simp add: type_min_def)
  have "sint (word_of_int (2 ^ Suc ?n - 1) :: 'a word) = 2 ^ Suc ?n - 1"
    using p by (intro sint_of_int_range) (simp_all only: n, simp_all)
  then show "sint (type_max True :: 'a word) = 2 ^ (LENGTH('a) - 1) - 1" by (simp only: mx n)
  have "sint (word_of_int (- (2 ^ Suc ?n)) :: 'a word) = - (2 ^ Suc ?n)"
    using p by (intro sint_of_int_range) (simp_all only: n, simp_all)
  then show "sint (type_min True :: 'a word) = - (2 ^ (LENGTH('a) - 1))" by (simp only: mn n)
qed

section \<open>Exactness of the checks\<close>

lemma int_div_less:
  "0 < m \<Longrightarrow> k div m < x \<longleftrightarrow> k < x * m" for k m x :: int
proof
  assume m: "0 < m" "k div m < x"
  have "k < k div m * m + m" using m(1) pos_mod_bound [of m k] div_mult_mod_eq [of k m] by linarith
  also have "\<dots> = (k div m + 1) * m" by (simp add: algebra_simps)
  also have "\<dots> \<le> x * m" using m by (intro mult_right_mono) simp_all
  finally show "k < x * m" .
next
  assume m: "0 < m" "k < x * m"
  have "k div m * m \<le> k" using m(1) by (simp add: minus_mod_eq_div_mult [symmetric])
  then have "k div m * m < x * m" using m(2) by simp
  then show "k div m < x" using m(1) by simp
qed

lemma sdiv_bounds:
  fixes a b mx mn :: int
  assumes "0 \<le> mx" and "mn \<le> 0"
  shows "0 < b \<Longrightarrow> mx sdiv b < a \<longleftrightarrow> mx < a * b" and "0 < b \<Longrightarrow> a < mn sdiv b \<longleftrightarrow> a * b < mn"
    and "b < 0 \<Longrightarrow> mn sdiv b < a \<longleftrightarrow> a * b < mn" and "b < 0 \<Longrightarrow> a < mx sdiv b \<longleftrightarrow> mx < a * b"
proof -
  have pos: "x sdiv y = x div y" if "0 \<le> x" "0 < y" for x y :: int
    using that by (auto simp: signed_divide_int_def sgn_if)
  have neg: "x sdiv y = - (\<bar>x\<bar> div \<bar>y\<bar>)" if "x \<le> 0 \<and> 0 < y \<or> 0 \<le> x \<and> y < 0" for x y :: int
    using that by (auto simp: signed_divide_int_def sgn_if)
  have both: "x sdiv y = (- x) div (- y)" if "x \<le> 0" "y < 0" for x y :: int
    using that by (auto simp: signed_divide_int_def sgn_if)
  show "0 < b \<Longrightarrow> mx sdiv b < a \<longleftrightarrow> mx < a * b" using assms by (simp add: pos int_div_less)
  show "0 < b \<Longrightarrow> a < mn sdiv b \<longleftrightarrow> a * b < mn"
    using assms int_div_less [of b "- mn" "- a"] by (simp add: neg) linarith
  show "b < 0 \<Longrightarrow> mn sdiv b < a \<longleftrightarrow> a * b < mn"
    using assms int_div_less [of "- b" "- mn" a] by (simp add: both)
  show "b < 0 \<Longrightarrow> a < mx sdiv b \<longleftrightarrow> mx < a * b"
    using assms int_div_less [of "- b" mx "- a"] by (simp add: neg) linarith
qed

lemma signed_check_exact:
  fixes a b :: "'a::len word"
  assumes "2 \<le> LENGTH('a)"
  shows "fst (signed_mul_overflow a b) \<longleftrightarrow>
    sint a * sint b < - (2 ^ (LENGTH('a) - 1)) \<or> 2 ^ (LENGTH('a) - 1) \<le> sint a * sint b"
proof -
  let ?N = "2 ^ (LENGTH('a) - 1) :: int"
  have N: "1 \<le> ?N" by simp
  then have lim: "0 \<le> ?N - 1" "- ?N \<le> 0" by linarith+
  have a: "- ?N \<le> sint a" "sint a < ?N" by (rule sint_ge, rule sint_lt)
  note b = sdiv_bounds [OF lim, of "sint b" "sint a"]
  consider "0 < sint b" | "sint b = 0" | "sint b = - 1" | "sint b < - 1" by linarith
  then show ?thesis
    unfolding signed_mul_overflow_def Let_def fst_conv signed_limits [OF assms]
    using a b N by cases auto
qed

lemma unsigned_check_exact:
  fixes a b :: "'a::len word"
  assumes "2 \<le> LENGTH('a)"
  shows "(if const then b > 0 \<and> a > type_max False div b else a > 0 \<and> b > type_max False div a) \<longleftrightarrow>
    2 ^ LENGTH('a) \<le> uint a * uint b"
proof -
  have step: "y > 0 \<and> x > (- 1) div y \<longleftrightarrow> 2 ^ LENGTH('a) \<le> uint x * uint y" for x y :: "'a word"
  proof (cases "y = 0")
    case False
    then have pos: "0 < uint y" by (simp add: less_le uint_0_iff)
    have "x > (- 1) div y \<longleftrightarrow> (2 ^ LENGTH('a) - 1) div uint y < uint x"
      by (simp add: word_less_def uint_div_distrib uint_word_ariths(5) mask_eq_exp_minus_1 unsigned_minus_1_eq_mask)
    also have "\<dots> \<longleftrightarrow> 2 ^ LENGTH('a) \<le> uint x * uint y" by (subst int_div_less [OF pos]) linarith
    finally show ?thesis using False by (simp add: word_gt_0)
  qed simp
  show ?thesis using step [of b a] step [of a b] assms
    by (simp add: unsigned_limits mult.commute)
qed

lemma product_word:
  fixes a b :: "'a::len word"
  assumes "LENGTH('a) \<le> 64"
  shows "ucast ((scast a :: u64) * scast b) = a * b"
proof -
  have "(scast a :: u64) * scast b = word_of_int (sint a * sint b)" by (simp only: scast_eq wi_hom_mult)
  then have "ucast ((scast a :: u64) * scast b) = (word_of_int (take_bit 64 (sint a * sint b)) :: 'a word)"
    by (simp only: unsigned_of_int) simp
  also have "\<dots> = word_of_int (sint a * sint b)"
    unfolding word_of_int_eq_iff take_bit_take_bit using assms by (simp add: min_def)
  finally show ?thesis by simp
qed

lemma signed_builtin:
  fixes a b :: "'a::len word"
  assumes "2 \<le> LENGTH('a)" and "LENGTH('a) \<le> 64"
  shows "signed_mul_overflow a b = builtin_mul_overflow True a b"
proof -
  let ?p = "sint a * sint b"
  have "?p \<noteq> sint (word_of_int ?p :: 'a word) \<longleftrightarrow> ?p < - (2 ^ (LENGTH('a) - 1)) \<or> 2 ^ (LENGTH('a) - 1) \<le> ?p"
    using sint_of_int_range [of ?p] sint_ge [of "word_of_int ?p :: 'a word"] sint_lt [of "word_of_int ?p :: 'a word"]
    by (metis linorder_not_le)
  moreover have "snd (signed_mul_overflow a b) = a * b"
    using product_word [OF assms(2), of a b] by (simp add: signed_mul_overflow_def Let_def)
  ultimately show ?thesis
    using signed_check_exact [OF assms(1), of a b] by (simp add: builtin_mul_overflow_def Let_def prod_eq_iff)
qed

lemma unsigned_builtin:
  fixes a b :: "'a::len word"
  assumes "2 \<le> LENGTH('a)"
  shows "unsigned_mul_overflow const a b =
    (if LENGTH('a) < 32 \<and> 2 ^ 31 \<le> uint a * uint b then None else Some (builtin_mul_overflow False a b))"
proof -
  let ?p = "uint a * uint b"
  have "?p \<noteq> uint (word_of_int ?p :: 'a word) \<longleftrightarrow> 2 ^ LENGTH('a) \<le> ?p"
  proof -
    have "0 \<le> ?p" by simp
    then have "?p mod 2 ^ LENGTH('a) = ?p \<longleftrightarrow> ?p < 2 ^ LENGTH('a)"
      using pos_mod_bound [of "2 ^ LENGTH('a)" ?p] by (metis mod_pos_pos_trivial zero_less_numeral zero_less_power)
    then show ?thesis by (simp only: uint_word_of_int) linarith
  qed
  then show ?thesis
    unfolding unsigned_mul_overflow_def unsigned_check_exact [OF assms]
    by (simp add: unsigned_product_def builtin_mul_overflow_def Let_def not_le)
qed

lemma byte_product: "0 \<le> x \<Longrightarrow> x < 256 \<Longrightarrow> 0 \<le> y \<Longrightarrow> y < 256 \<Longrightarrow> x * y < 2 ^ 31" for x y :: int
  using mult_mono [of x 255 y 255] by simp

lemma is_err_sint: "IS_ERR_VALUE p \<longleftrightarrow> - 4095 \<le> sint p \<and> sint p < 0"
proof -
  have v: "IS_ERR_VALUE p \<longleftrightarrow> 0xfffffffffffff001 \<le> uint p"
    by (simp add: IS_ERR_VALUE_def MAX_ERRNO_def word_le_def)
  have "sint p = (if uint p < 0x8000000000000000 then uint p else uint p - 0x10000000000000000)"
  proof (cases "uint p < 0x8000000000000000")
    case True
    then show ?thesis using int_word_sint [of "uint p", where ?'a = 64] by (simp add: mod_pos_pos_trivial)
  next
    case False
    have "(uint p + 0x8000000000000000) mod 0x10000000000000000 = (uint p - 0x8000000000000000) mod 0x10000000000000000"
      using minus_mod_self2 [of "uint p + 0x8000000000000000" "0x10000000000000000"] by simp
    with False show ?thesis
      using int_word_sint [of "uint p", where ?'a = 64] uint_lt2p [of p] by (simp add: mod_pos_pos_trivial)
  qed
  then show ?thesis using v uint_lt2p [of p] unsigned_greater_eq [of p] by auto
qed

section \<open>Properties\<close>

text \<open>
  (C36) Overflow check.  For every integer type of 2 to 64 bits, signed or not, and whether or not an operand is constant,
  \<open>check_mul_overflow\<close> without compiler support gives what the compiler's built-in function gives, with one exception: it
  reports an overflow exactly when the true product is outside the type, and it stores the product reduced to the type.
  The exception are unsigned operands narrower than \<open>int\<close> whose product exceeds \<open>INT_MAX\<close>: they are multiplied as
  \<open>int\<close>, and the overflow the macro should report makes it undefined.  This cannot happen with 8, 32 or 64 bits, but it
  does with \<open>unsigned short\<close>.
\<close>

theorem mul_overflow_exact:
  fixes a b :: "'a::len word"
  assumes "2 \<le> LENGTH('a)" and "LENGTH('a) \<le> 64"
  shows "check_mul_overflow sg const a b =
      (if \<not> sg \<and> LENGTH('a) < 32 \<and> 2 ^ 31 \<le> uint a * uint b then None else Some (builtin_mul_overflow sg a b)) \<and>
    (sg \<or> LENGTH('a) \<in> {8, 32, 64} \<longrightarrow> check_mul_overflow sg const a b = Some (builtin_mul_overflow sg a b)) \<and>
    check_mul_overflow False const (0xffff :: u16) 0xffff = None"
proof -
  have main: "check_mul_overflow sg const a b =
      (if \<not> sg \<and> LENGTH('a) < 32 \<and> 2 ^ 31 \<le> uint a * uint b then None else Some (builtin_mul_overflow sg a b))"
    by (cases sg) (simp_all add: check_mul_overflow_def is_signed_type_eq [OF assms(1)] signed_builtin [OF assms] unsigned_builtin [OF assms(1)])
  have "uint a * uint b < 2 ^ 31" if "LENGTH('a) = 8"
    using byte_product [of "uint a" "uint b"] uint_lt2p [of a] uint_lt2p [of b] that by simp
  moreover have "check_mul_overflow False const (0xffff :: u16) 0xffff = None"
    by (simp add: check_mul_overflow_def is_signed_type_eq unsigned_mul_overflow_def unsigned_product_def)
  ultimately show ?thesis unfolding main by auto
qed

theorem mul_overflow_exact_witness:
  "check_mul_overflow True True (- 0x80000000 :: i32) (- 1) = Some (builtin_mul_overflow True (- 0x80000000 :: i32) (- 1)) \<and>
   check_mul_overflow False True (0x10000 :: u32) 0xffff = Some (builtin_mul_overflow False 0x10000 0xffff)"
  using mul_overflow_exact [of True True "- 0x80000000 :: i32" "- 1"] mul_overflow_exact [of False True "0x10000 :: u32" "0xffff"]
  by simp

text \<open>
  Rounding.  If \<open>x + (y - 1)\<close> does not wrap, \<open>roundup\<close> returns the least multiple of \<open>y\<close> that is not below \<open>x\<close>, and
  \<open>__KERNEL_DIV_ROUND_UP\<close> its quotient.
\<close>

theorem roundup_correct:
  fixes x y :: "'a::len word"
  assumes "y \<noteq> 0" and "unat x + (unat y - 1) < 2 ^ LENGTH('a)"
  shows "unat (roundup x y) = unat (DIV_ROUND_UP x y) * unat y \<and> unat x \<le> unat (roundup x y) \<and>
    unat (roundup x y) < unat x + unat y"
proof -
  let ?s = "unat x + (unat y - 1)"
  have pos: "0 < unat y" using assms(1) by (simp add: unat_gt_0)
  have "unat (y - 1) = unat y - 1" using assms(1) by (rule unat_minus_one)
  then have sum: "unat (x + (y - 1)) = ?s" using assms(2) by (subst unat_add_lem [THEN iffD1]) simp_all
  have q: "unat (DIV_ROUND_UP x y) = ?s div unat y"
    by (simp add: DIV_ROUND_UP_def unat_div add_diff_eq [symmetric] sum)
  have le: "?s div unat y * unat y \<le> ?s" by simp
  have r: "unat (roundup x y) = ?s div unat y * unat y"
    unfolding roundup_def using le_less_trans [OF le assms(2)]
    by (subst unat_mult_lem [THEN iffD1]) (simp_all add: unat_div sum)
  have "?s < ?s div unat y * unat y + unat y" using pos by (metis add_strict_left_mono div_mult_mod_eq mod_less_divisor)
  then have "unat x \<le> ?s div unat y * unat y" using pos by linarith
  moreover have "?s div unat y * unat y < unat x + unat y" using le pos by linarith
  ultimately show ?thesis by (simp only: q r)
qed

theorem roundup_correct_witness: "unat (roundup (13 :: u32) 8) = 16"
  using roundup_correct [of "8 :: u32" 13] by (simp add: DIV_ROUND_UP_def)

text \<open>
  Errors in pointers.  A pointer is an error exactly when, read as a number, it lies between -4095 and -1; every
  error in this range survives the way through a pointer, and the null pointer is no error but is caught by
  \<open>IS_ERR_OR_NULL\<close>.
\<close>

theorem err_ptr_roundtrip:
  "(IS_ERR ptr \<longleftrightarrow> - 4095 \<le> sint (PTR_ERR ptr) \<and> sint (PTR_ERR ptr) < 0) \<and>
   PTR_ERR (ERR_PTR e) = e \<and> (IS_ERR (ERR_PTR e) \<longleftrightarrow> - 4095 \<le> sint e \<and> sint e < 0) \<and>
   (IS_ERR_OR_NULL ptr \<longleftrightarrow> ptr = 0 \<or> IS_ERR ptr) \<and>
   PTR_ERR_OR_ZERO ptr = (if - 4095 \<le> sint (PTR_ERR ptr) \<and> sint (PTR_ERR ptr) < 0 then PTR_ERR ptr else 0)"
  using is_err_sint by (simp add: IS_ERR_def IS_ERR_OR_NULL_def PTR_ERR_OR_ZERO_def PTR_ERR_def ERR_PTR_def)

end
