(* ===== verification/Kernel_Regs.thy ===== *)
theory Kernel_Regs
  imports Strace_Output Linux_Arith
begin

unbundle bit_operations_syntax

text \<open>
  The kernel's own view of what the tracer reads: \<open>struct pt_regs\<close> and its accessors in arm64's \<open>asm/ptrace.h\<close>, the
  system call interface of \<open>asm/syscall.h\<close>, and the trace events \<open>sys_enter\<close> and \<open>sys_exit\<close> of
  \<open>trace/events/syscalls.h\<close>, all from the kernel headers the tools are built against.  Whether a task runs 32-bit code
  (\<open>is_compat_thread\<close>) is a parameter.
\<close>

section \<open>Registers: \<open>asm/ptrace.h\<close>\<close>

record kpt_regs =
  kregs :: "u64 list" \<comment> \<open>\<open>regs[31]\<close>\<close>
  ksp :: u64
  kpc :: u64
  kpstate :: u64
  korig_x0 :: u64
  ksyscallno :: i32

definition NO_SYSCALL :: i32 where "NO_SYSCALL = - 1"
definition PSR_MODE_EL0t :: u64 where "PSR_MODE_EL0t = 0"
definition PSR_MODE32_BIT :: u64 where "PSR_MODE32_BIT = 0x10"
definition PSR_MODE_MASK :: u64 where "PSR_MODE_MASK = 0xf"

definition in_syscall :: "kpt_regs \<Rightarrow> bool" where
  "in_syscall r \<longleftrightarrow> ksyscallno r \<noteq> NO_SYSCALL"

definition forget_syscall :: "kpt_regs \<Rightarrow> kpt_regs" where
  "forget_syscall r = r\<lparr>ksyscallno := NO_SYSCALL\<rparr>"

definition compat_user_mode :: "kpt_regs \<Rightarrow> bool" where
  "compat_user_mode r \<longleftrightarrow> kpstate r AND (PSR_MODE32_BIT OR PSR_MODE_MASK) = PSR_MODE32_BIT OR PSR_MODE_EL0t"

text \<open>\<open>regs_get_register\<close>: the members of \<open>struct user_pt_regs\<close> by byte offset, which is divided by 8.\<close>

definition regs_get_register :: "kpt_regs \<Rightarrow> u32 \<Rightarrow> u64" where
  "regs_get_register r offset =
     (let n = unat (drop_bit 3 offset)
      in if n \<le> 30 then kregs r ! n
         else if n = 248 div 8 then ksp r
         else if n = 256 div 8 then kpc r
         else if n = 264 div 8 then kpstate r
         else 0)"

text \<open>\<open>regs[r]\<close> for \<open>r \<le> 30\<close>; register 31 reads as 0 and is not written.\<close>

definition pt_regs_read_reg :: "kpt_regs \<Rightarrow> nat \<Rightarrow> u64" where
  "pt_regs_read_reg regs r = (if r = 31 then 0 else kregs regs ! r)"

definition pt_regs_write_reg :: "kpt_regs \<Rightarrow> nat \<Rightarrow> u64 \<Rightarrow> kpt_regs" where
  "pt_regs_write_reg regs r val = (if r \<noteq> 31 then regs\<lparr>kregs := (kregs regs)[r := val]\<rparr> else regs)"

definition kernel_stack_pointer :: "kpt_regs \<Rightarrow> u64" where
  "kernel_stack_pointer r = ksp r"

text \<open>\<open>sign_extend64\<close> of \<open>linux/bitops.h\<close>.\<close>

definition sign_extend64 :: "u64 \<Rightarrow> nat \<Rightarrow> i64" where
  "sign_extend64 value index = signed_drop_bit (63 - index) (push_bit (63 - index) value)"

definition regs_return_value :: "kpt_regs \<Rightarrow> u64" where
  "regs_return_value r = (let val = kregs r ! 0 in if compat_user_mode r then sign_extend64 val 31 else val)"

definition regs_set_return_value :: "kpt_regs \<Rightarrow> u64 \<Rightarrow> kpt_regs" where
  "regs_set_return_value r rc = r\<lparr>kregs := (kregs r)[0 := rc]\<rparr>"

definition regs_get_kernel_argument :: "kpt_regs \<Rightarrow> nat \<Rightarrow> u64" where
  "regs_get_kernel_argument r n = (if n < 8 then pt_regs_read_reg r n else 0)"

definition instruction_pointer :: "kpt_regs \<Rightarrow> u64" where
  "instruction_pointer r = kpc r"

definition frame_pointer :: "kpt_regs \<Rightarrow> u64" where
  "frame_pointer r = kregs r ! 29"

definition procedure_link_pointer :: "kpt_regs \<Rightarrow> u64" where
  "procedure_link_pointer r = kregs r ! 30"

section \<open>Processor state: \<open>asm/ptrace.h\<close>\<close>

definition PSR_AA32_T_BIT :: u64 where "PSR_AA32_T_BIT = 0x20"
definition PSR_AA32_DIT_BIT :: u64 where "PSR_AA32_DIT_BIT = 0x01000000"
definition COMPAT_PSR_DIT_BIT :: u64 where "COMPAT_PSR_DIT_BIT = 0x00200000"
definition PSR_F_BIT :: u64 where "PSR_F_BIT = 0x40"
definition PSR_I_BIT :: u64 where "PSR_I_BIT = 0x80"

definition compat_psr_to_pstate :: "u64 \<Rightarrow> u64" where
  "compat_psr_to_pstate psr =
     (let pstate = psr AND NOT COMPAT_PSR_DIT_BIT
      in if psr AND COMPAT_PSR_DIT_BIT \<noteq> 0 then pstate OR PSR_AA32_DIT_BIT else pstate)"

definition pstate_to_compat_psr :: "u64 \<Rightarrow> u64" where
  "pstate_to_compat_psr pstate =
     (let psr = pstate AND NOT PSR_AA32_DIT_BIT
      in if pstate AND PSR_AA32_DIT_BIT \<noteq> 0 then psr OR COMPAT_PSR_DIT_BIT else psr)"

definition compat_thumb_mode :: "kpt_regs \<Rightarrow> u64" where
  "compat_thumb_mode r = kpstate r AND PSR_AA32_T_BIT"

definition user_mode :: "kpt_regs \<Rightarrow> bool" where
  "user_mode r \<longleftrightarrow> kpstate r AND PSR_MODE_MASK = PSR_MODE_EL0t"

definition processor_mode :: "kpt_regs \<Rightarrow> u64" where
  "processor_mode r = kpstate r AND PSR_MODE_MASK"

text \<open>Whether interrupts are masked by priority, and whether this state's priority allows them, is the machine's.\<close>

definition irqs_priority_unmasked :: "bool \<Rightarrow> bool \<Rightarrow> bool" where
  "irqs_priority_unmasked uses_prio_masking prio_on = (if uses_prio_masking then prio_on else True)"

definition interrupts_enabled :: "bool \<Rightarrow> bool \<Rightarrow> kpt_regs \<Rightarrow> bool" where
  "interrupts_enabled uses_prio_masking prio_on r \<longleftrightarrow>
     \<not> kpstate r AND PSR_I_BIT \<noteq> 0 \<and> irqs_priority_unmasked uses_prio_masking prio_on"

definition fast_interrupts_enabled :: "kpt_regs \<Rightarrow> bool" where
  "fast_interrupts_enabled r \<longleftrightarrow> \<not> kpstate r AND PSR_F_BIT \<noteq> 0"

definition user_stack_pointer :: "kpt_regs \<Rightarrow> u64" where
  "user_stack_pointer r = (if compat_user_mode r then kregs r ! 13 else ksp r)"

section \<open>System calls: \<open>asm/syscall.h\<close>\<close>

definition syscall_get_nr :: "kpt_regs \<Rightarrow> i32" where
  "syscall_get_nr r = ksyscallno r"

definition syscall_rollback :: "kpt_regs \<Rightarrow> kpt_regs" where
  "syscall_rollback r = r\<lparr>kregs := (kregs r)[0 := korig_x0 r]\<rparr>"

definition syscall_get_return_value :: "bool \<Rightarrow> kpt_regs \<Rightarrow> i64" where
  "syscall_get_return_value compat32 r =
     (let val = kregs r ! 0 in if compat32 then sign_extend64 val 31 else val)"

definition syscall_get_error :: "bool \<Rightarrow> kpt_regs \<Rightarrow> i64" where
  "syscall_get_error compat32 r =
     (let err = syscall_get_return_value compat32 r in if IS_ERR_VALUE err then err else 0)"

definition lower_32_bits :: "u64 \<Rightarrow> u32" where
  "lower_32_bits n = ucast (n AND 0xffffffff)"

definition syscall_set_return_value :: "bool \<Rightarrow> i32 \<Rightarrow> i64 \<Rightarrow> kpt_regs \<Rightarrow> kpt_regs" where
  "syscall_set_return_value compat32 err val r =
     (let val = (if err \<noteq> 0 then scast err else val);
          val = (if compat32 then ucast (lower_32_bits val) else val)
      in r\<lparr>kregs := (kregs r)[0 := val]\<rparr>)"

definition syscall_get_arguments :: "kpt_regs \<Rightarrow> u64 list" where
  "syscall_get_arguments r = korig_x0 r # take 5 (drop 1 (kregs r))"

section \<open>The trace events\<close>

record sys_enter_entry =
  enter_id :: i64
  enter_args :: "u64 list"

record sys_exit_entry =
  exit_id :: i64
  exit_ret :: i64

definition trace_sys_enter :: "kpt_regs \<Rightarrow> i64 \<Rightarrow> sys_enter_entry" where
  "trace_sys_enter r nr = \<lparr>enter_id = nr, enter_args = syscall_get_arguments r\<rparr>"

definition trace_sys_exit :: "kpt_regs \<Rightarrow> i64 \<Rightarrow> sys_exit_entry" where
  "trace_sys_exit r ret = \<lparr>exit_id = scast (syscall_get_nr r), exit_ret = ret\<rparr>"

section \<open>Members and memory\<close>

text \<open>The structure as \<open>bpf_tracing.h\<close> names its members, and as it lies in kernel memory.\<close>

definition member_words :: "kpt_regs \<Rightarrow> u64 list" where
  "member_words r = kregs r @ [ksp r, kpc r, kpstate r]"

definition arm64_members :: "kpt_regs \<Rightarrow> pt_regs" where
  "arm64_members r = map_of (zip user_pt_regs_members (member_words r))"

definition regs_at :: "(u64 \<Rightarrow> u8) \<Rightarrow> u64 \<Rightarrow> kpt_regs \<Rightarrow> bool" where
  "regs_at kmem p r \<longleftrightarrow> length (kregs r) = 31 \<and>
     (\<forall>i < 34. mem_bytes kmem (p + of_nat (8 * i)) 8 = le_store 8 (member_words r ! i)) \<and>
     mem_bytes kmem (p + 272) 8 = le_store 8 (korig_x0 r) \<and> mem_bytes kmem (p + 280) 4 = le_store 4 (ksyscallno r)"

lemma distinct_members: "distinct user_pt_regs_members"
proof -
  have "distinct (map regs_member [0..<31])" by (simp add: distinct_map inj_on_subset [OF inj_regs_member])
  moreover have "''sp'' \<noteq> regs_member i" "''pc'' \<noteq> regs_member i" "''pstate'' \<noteq> regs_member i" for i
    by (simp_all add: regs_member_def)
  ultimately show ?thesis by (simp add: user_pt_regs_members_def) blast
qed

lemma arm64_member_nth:
  assumes "length (kregs r) = 31" and "i < 34"
  shows "arm64_members r (user_pt_regs_members ! i) = Some (member_words r ! i)"
  unfolding arm64_members_def using assms distinct_members
  by (intro map_of_zip_nth) (simp_all add: user_pt_regs_members_def member_words_def)

lemma arm64_member_values:
  assumes "length (kregs r) = 31"
  shows "i < 31 \<Longrightarrow> arm64_members r (regs_member i) = Some (kregs r ! i)"
    and "arm64_members r ''sp'' = Some (ksp r)" and "arm64_members r ''pc'' = Some (kpc r)"
proof -
  note nth = arm64_member_nth [OF assms]
  show "i < 31 \<Longrightarrow> arm64_members r (regs_member i) = Some (kregs r ! i)"
    using nth [of i] assms by (simp add: user_pt_regs_members_def member_words_def nth_append)
  show "arm64_members r ''sp'' = Some (ksp r)"
    using nth [of 31] assms by (simp add: user_pt_regs_members_def member_words_def nth_append)
  show "arm64_members r ''pc'' = Some (kpc r)"
    using nth [of 32] assms by (simp add: user_pt_regs_members_def member_words_def nth_append)
qed

lemma regs_member_29_30: "''regs[29]'' = regs_member 29" "''regs[30]'' = regs_member 30"
  by (simp_all add: regs_member_def digits.simps digit_char_def char_of_def bit_simps)

lemma member_word_at:
  assumes "regs_at kmem p r" and "i < 34"
  shows "le_word (mem_bytes kmem (p + of_nat (8 * i)) 8) = member_words r ! i"
  using assms by (simp add: regs_at_def le_word_store_u64)

lemma read_reg_nth: "length (kregs r) = 31 \<Longrightarrow> i < 31 \<Longrightarrow> regs_get_register r (of_nat (8 * i)) = kregs r ! i"
proof -
  assume "length (kregs r) = 31" "i < 31"
  have "unat (of_nat (8 * i) :: u32) = 8 * i" using \<open>i < 31\<close> by (simp only: unat_of_nat) simp
  then have "unat (drop_bit 3 (of_nat (8 * i) :: u32)) = i" by (simp only: unat_drop_bit_eq) (simp add: drop_bit_eq_div)
  with \<open>i < 31\<close> show ?thesis by (simp add: regs_get_register_def Let_def)
qed

lemma is_err_negative: "sint v < 0 \<longleftrightarrow> IS_ERR_VALUE v \<or> sint v < - 4095"
  using is_err_sint [of v] by auto

lemma sign_extend64_31: "sign_extend64 v 31 = scast (ucast v :: i32)"
proof (rule bit_word_eqI)
  fix n assume "n < LENGTH(64)"
  then show "bit (sign_extend64 v 31) n = bit (scast (ucast v :: i32) :: i64) n"
    by (cases "n = 31") (auto simp: sign_extend64_def bit_simps min_def not_le)
qed

lemma lower_32_bits_ucast: "lower_32_bits v = ucast v"
proof -
  have "v AND 0xffffffff = take_bit 32 v" by (simp add: take_bit_eq_mask mask_eq_exp_minus_1)
  then show ?thesis by (simp only: lower_32_bits_def) (rule bit_word_eqI, simp add: bit_simps)
qed

lemma lower_32: "ucast (ucast (lower_32_bits v) :: u64) = (ucast v :: u32)"
  by (rule bit_word_eqI) (simp add: lower_32_bits_ucast bit_simps)

section \<open>Processor states of 32-bit programs\<close>

lemma dit_bits: "PSR_AA32_DIT_BIT = push_bit 24 1" "COMPAT_PSR_DIT_BIT = push_bit 21 1"
  by (simp_all add: PSR_AA32_DIT_BIT_def COMPAT_PSR_DIT_BIT_def)

lemma and_push_bit_1: "(x :: u64) AND push_bit n 1 = (if bit x n then push_bit n 1 else 0)"
  by (rule bit_word_eqI) (auto simp: bit_simps bit_1_iff)

lemma bit_moved:
  assumes "k < 64" and "n < 64"
  shows "bit (if (x :: u64) AND push_bit m 1 \<noteq> 0 then x AND NOT (push_bit m 1) OR push_bit n 1 else x AND NOT (push_bit m 1)) k \<longleftrightarrow>
    k = n \<and> bit x m \<or> bit x k \<and> k \<noteq> m"
proof -
  have "x AND push_bit m 1 \<noteq> 0 \<longleftrightarrow> bit x m"
    unfolding and_push_bit_1 by (auto simp: push_bit_eq_mult dest: bit_imp_le_length)
  then show ?thesis using assms by (auto simp: bit_simps bit_1_iff)
qed

text \<open>A state a 32-bit debugger reads is the state it writes back, unless it sets the bit the kernel uses for \<open>DIT\<close>.\<close>

lemma compat_psr_roundtrip:
  assumes "\<not> bit psr 24"
  shows "pstate_to_compat_psr (compat_psr_to_pstate psr) = psr"
proof (rule bit_word_eqI)
  fix k assume "k < LENGTH(64)"
  then have k: "k < 64" by simp
  have to: "bit (compat_psr_to_pstate psr) j \<longleftrightarrow> j = 24 \<and> bit psr 21 \<or> bit psr j \<and> j \<noteq> 21" if "j < 64" for j
    using bit_moved [OF that, of 24 psr 21] by (simp only: compat_psr_to_pstate_def dit_bits Let_def)
  have fro: "bit (pstate_to_compat_psr p) k \<longleftrightarrow> k = 21 \<and> bit p 24 \<or> bit p k \<and> k \<noteq> 24" for p
    using bit_moved [OF k, of 21 p 24] by (simp only: pstate_to_compat_psr_def dit_bits Let_def)
  have "bit (compat_psr_to_pstate psr) 24 \<longleftrightarrow> bit psr 21" using to [of 24] assms by simp
  then show "bit (pstate_to_compat_psr (compat_psr_to_pstate psr)) k \<longleftrightarrow> bit psr k"
    unfolding fro to [OF k] using assms by blast
qed

lemma compat_user_mode_is_user_mode: "compat_user_mode r \<Longrightarrow> user_mode r"
proof -
  assume "compat_user_mode r"
  then have "(kpstate r AND 0x1f) AND 0xf = 0x10 AND 0xf"
    by (simp add: compat_user_mode_def PSR_MODE32_BIT_def PSR_MODE_MASK_def PSR_MODE_EL0t_def)
  moreover have "(kpstate r AND 0x1f) AND 0xf = kpstate r AND 0xf" by (simp add: and.assoc)
  ultimately show ?thesis by (simp add: user_mode_def PSR_MODE_MASK_def PSR_MODE_EL0t_def)
qed

section \<open>Properties\<close>

text \<open>
  Registers.  On arm64 the macros of \<open>bpf_tracing.h\<close> name the registers the kernel's own accessors read:
  parameter \<open>n\<close> is \<open>regs_get_kernel_argument\<close>, and the return address, frame, stack and instruction pointers are those of
  \<open>ptrace.h\<close>; for a 64-bit task the result is \<open>regs_return_value\<close>.  \<open>BPF_KPROBE\<close> hands these arguments to its handler.
\<close>

theorem registers_agree_with_kernel:
  assumes "length (kregs r) = 31"
  shows "(n \<le> 5 \<longrightarrow> BPF_KPROBE arm64_regs n body (arm64_members r) =
      Some (body (arm64_members r) (map (regs_get_kernel_argument r) [0..<n]))) \<and>
    PT_REGS_RET arm64_regs (arm64_members r) = Some (procedure_link_pointer r) \<and>
    PT_REGS_FP arm64_regs (arm64_members r) = Some (frame_pointer r) \<and>
    PT_REGS_SP arm64_regs (arm64_members r) = Some (kernel_stack_pointer r) \<and>
    PT_REGS_IP arm64_regs (arm64_members r) = Some (instruction_pointer r) \<and>
    (\<not> compat_user_mode r \<longrightarrow> PT_REGS_RC arm64_regs (arm64_members r) = Some (regs_return_value r))"
proof -
  note v = arm64_member_values [OF assms]
  have "bpf_kprobe_args arm64_regs n (arm64_members r) = Some (map (regs_get_kernel_argument r) [0..<n])" if "n \<le> 5"
    using that v(1)
    by (simp add: bpf_kprobe_args_def take_5_upt read_members_Some regs_get_kernel_argument_def pt_regs_read_reg_def)
  then have "BPF_KPROBE arm64_regs n body (arm64_members r) =
      Some (body (arm64_members r) (map (regs_get_kernel_argument r) [0..<n]))" if "n \<le> 5"
    using that by (simp add: BPF_KPROBE_def)
  then show ?thesis using v
    by (simp add: PT_REGS_RET_def PT_REGS_FP_def PT_REGS_SP_def PT_REGS_IP_def PT_REGS_RC_def arm64_regs_def
        procedure_link_pointer_def frame_pointer_def kernel_stack_pointer_def instruction_pointer_def regs_return_value_def
        regs_member_literals regs_member_29_30)
qed

definition demo_regs :: kpt_regs where
  "demo_regs = \<lparr>kregs = replicate 31 0x0101010101010101, ksp = 0x0101010101010101, kpc = 0x0101010101010101,
     kpstate = 0x0101010101010101, korig_x0 = 0x0101010101010101, ksyscallno = 0x01010101\<rparr>"

theorem registers_agree_with_kernel_witness:
  "BPF_KPROBE arm64_regs 2 (\<lambda>ctx args. args) (arm64_members demo_regs) = Some [0x0101010101010101, 0x0101010101010101]"
  using registers_agree_with_kernel [of demo_regs 2 "\<lambda>ctx args. args"]
  by (simp add: demo_regs_def upt_conv_Cons regs_get_kernel_argument_def pt_regs_read_reg_def)

text \<open>
  (C19) The kernel's events.  For a system call whose first register still holds the saved first argument, and whose six
  argument registers the tracer can read, the snapshot has the number and the arguments that the kernel's own \<open>sys_enter\<close>
  event records.  A result the kernel regards as an error is printed as -1 with the name and the message of that error;
  one it does not is printed as a number when it is at least -4095.  A result below -4095 is no error for the kernel, but
  the tracer prints it as -1 with the name and the message of its negation cut to 32 bits; for the least of them the
  negation overflows and the behaviour is undefined.
\<close>

theorem tracer_agrees_with_kernel_events:
  assumes "bpf_helpers env umem kmem" and "regs_at kmem (ctx ! 0) r" and "kregs r ! 0 = korig_x0 r"
    and "\<forall>i < 6. fst (k_read_kernel env 8 (k_stack env 8) (ctx ! 0 + of_nat (8 * i))) = 0"
    and "ev_ret e = syscall_get_return_value False r'"
  shows "es_args (enter_snapshot env ctx) = enter_args (trace_sys_enter r (ctx ! 1)) \<and>
    es_syscall_id (enter_snapshot env ctx) = ucast (enter_id (trace_sys_enter r (ctx ! 1))) \<and>
    (syscall_get_error False r' \<noteq> 0 \<longrightarrow> ret_text lib e = Some
       (''-1 '' @ errno_name (ucast (- syscall_get_error False r')) @ '' ('' @ lib_strerror lib (ucast (- syscall_get_error False r')) @ '')'')) \<and>
    (syscall_get_error False r' = 0 \<and> - 4095 \<le> sint (ev_ret e) \<longrightarrow> ret_text lib e = Some (fmt_d (ev_ret e))) \<and>
    (sint (ev_ret e) < - 4095 \<longrightarrow> syscall_get_error False r' = 0 \<and>
       ret_text lib e = (if sint (ev_ret e) = - (2 ^ 63) then None
         else Some (''-1 '' @ errno_name (ucast (- ev_ret e)) @ '' ('' @ lib_strerror lib (ucast (- ev_ret e)) @ '')'')))"
proof -
  have len: "length (kregs r) = 31" using assms(2) by (simp add: regs_at_def)
  have "core_reg env (regs_member i) (ctx ! 0) = kregs r ! i" if "i < 6" for i
    using bpf_helpers.core_reg_member [OF assms(1), of i "ctx ! 0"] assms(4) that member_word_at [OF assms(2), of i] len
    by (simp add: member_words_def nth_append)
  moreover have "drop 1 (kregs r) = map ((!) (kregs r)) [1..<31]"
    using len by (metis drop_map drop_upt map_nth plus_nat.add_0)
  moreover have "[1..<31] = [1, 2, 3, 4, 5] @ [6..<31]" by (simp add: upt_rec)
  ultimately have args: "es_args (enter_snapshot env ctx) = enter_args (trace_sys_enter r (ctx ! 1))"
    using assms(3)
    by (simp add: bpf_helpers.syscall_args_eq [OF assms(1)] trace_sys_enter_def syscall_get_arguments_def)
  let ?v = "ev_ret e"
  have err: "syscall_get_error False r' = (if IS_ERR_VALUE ?v then ?v else 0)"
    using assms(5) by (simp add: syscall_get_error_def Let_def)
  have "\<not> IS_ERR_VALUE 0" by (simp add: is_err_sint)
  then have "IS_ERR_VALUE ?v" if "syscall_get_error False r' \<noteq> 0" using that err by (auto split: if_splits)
  then have "ret_text lib e = Some (''-1 '' @ errno_name (ucast (- syscall_get_error False r')) @ '' ('' @
      lib_strerror lib (ucast (- syscall_get_error False r')) @ '')'')" if "syscall_get_error False r' \<noteq> 0"
    using that err is_err_sint [of ?v] by (simp add: ret_text_def Let_def)
  moreover have "ret_text lib e = Some (fmt_d ?v)" if "syscall_get_error False r' = 0" "- 4095 \<le> sint ?v"
  proof -
    have "\<not> sint ?v < 0"
      using that err is_err_sint [of ?v] by (auto split: if_splits)
    then show ?thesis by (simp add: ret_text_def)
  qed
  moreover have "syscall_get_error False r' = 0" if "sint ?v < - 4095" using that err is_err_sint [of ?v] by simp
  moreover have "ret_text lib e = (if sint ?v = - (2 ^ 63) then None
      else Some (''-1 '' @ errno_name (ucast (- ?v)) @ '' ('' @ lib_strerror lib (ucast (- ?v)) @ '')''))" if "sint ?v < - 4095"
    using that by (simp add: ret_text_def Let_def)
  ultimately show ?thesis using args by (simp add: trace_sys_enter_def)
qed

lemma demo_regs_at: "regs_at (\<lambda>_. 1) p demo_regs"
proof -
  have "member_words demo_regs = replicate 31 0x0101010101010101 @ replicate 3 0x0101010101010101"
    by (simp add: member_words_def demo_regs_def numeral_3_eq_3)
  then have words: "member_words demo_regs ! i = 0x0101010101010101" if "i < 34" for i
    using that by (simp flip: replicate_add)
  have 8: "mem_bytes (\<lambda>_. 1) q 8 = le_store 8 (0x0101010101010101 :: u64)" for q
    by (simp add: mem_bytes_def le_store_def le_bytes_numeral upt_conv_Cons)
  have 4: "mem_bytes (\<lambda>_. 1) q 4 = le_store 4 (0x01010101 :: u32)" for q
    by (simp add: mem_bytes_def le_store_def le_bytes_numeral upt_conv_Cons)
  have "length (kregs demo_regs) = 31" "korig_x0 demo_regs = 0x0101010101010101" "ksyscallno demo_regs = 0x01010101"
    by (simp_all add: demo_regs_def)
  with words 4 8 show ?thesis unfolding regs_at_def by simp
qed

theorem tracer_agrees_with_kernel_events_witness:
  "es_args (enter_snapshot demo_env [0x4000, 63]) = enter_args (trace_sys_enter demo_regs 63)"
proof -
  have "regs_at (\<lambda>_. 1) ([0x4000, 63] ! 0) demo_regs" by (rule demo_regs_at)
  from tracer_agrees_with_kernel_events [OF demo_helpers this, of "event_of 0 enter_state_zero 0x0101010101010101" demo_regs]
  show ?thesis
    by (simp add: demo_reads demo_regs_def event_of_def syscall_get_return_value_def)
qed

text \<open>
  The return address on arm64.  \<open>PT_REGS_RET\<close> is the link register, which holds the return address itself; the macro for
  function entry nevertheless reads memory there, so it yields the first eight bytes of the code the function returns to.
\<close>

theorem ret_ip_arm64_reads_code:
  assumes "bpf_helpers env umem kmem" and "length (kregs r) = 31"
    and "fst (k_read_kernel env 8 (le_store 8 ip) (procedure_link_pointer r)) = 0"
  shows "BPF_KPROBE_READ_RET_IP Arm64 arm64_regs env (arm64_members r) ip =
    Some (le_word (mem_bytes kmem (procedure_link_pointer r) 8))"
proof -
  have "PT_REGS_RET arm64_regs (arm64_members r) = Some (procedure_link_pointer r)"
    using arm64_member_values(1) [OF assms(2), of 30]
    by (simp add: PT_REGS_RET_def arm64_regs_def procedure_link_pointer_def regs_member_29_30)
  moreover have "snd (k_read_kernel env 8 (le_store 8 ip) (procedure_link_pointer r)) = mem_bytes kmem (procedure_link_pointer r) 8"
    using bpf_helpers.kernel_ok [OF assms(1) _ assms(3)] by simp
  ultimately show ?thesis by (simp add: BPF_KPROBE_READ_RET_IP_def)
qed

text \<open>
  Results of system calls.  What \<open>syscall_set_return_value\<close> stores, \<open>syscall_get_return_value\<close> reads: the error if
  there is one and the value otherwise, for a 32-bit task its low half with its sign; an error in the range of \<open>errno\<close> is
  found by \<open>syscall_get_error\<close>.  Storing a result leaves the arguments as they were, since the first one is kept in
  \<open>orig_x0\<close>, and \<open>syscall_rollback\<close> puts it back; after \<open>forget_syscall\<close> the task is in no system call.
\<close>

theorem syscall_result_roundtrip:
  fixes err :: i32 and val :: i64 and c :: bool
  assumes "length (kregs r) = 31"
  defines "r' \<equiv> syscall_set_return_value c err val r"
  shows "syscall_get_return_value c r' =
      (let v = (if err \<noteq> 0 then scast err else val) in if c then scast (ucast v :: i32) else v) \<and>
    (- 4095 \<le> sint err \<and> sint err < 0 \<longrightarrow> syscall_get_error c r' = scast err) \<and>
    syscall_get_arguments r' = syscall_get_arguments r \<and> kregs (syscall_rollback r') ! 0 = hd (syscall_get_arguments r) \<and>
    \<not> in_syscall (forget_syscall r')"
proof -
  have get: "syscall_get_return_value c r' =
      (let v = (if err \<noteq> 0 then scast err else val) in if c then scast (ucast v :: i32) else v)"
    using assms(1) by (simp add: r'_def syscall_set_return_value_def syscall_get_return_value_def sign_extend64_31 lower_32 Let_def)
  have "syscall_get_error c r' = scast err" if "- 4095 \<le> sint err" "sint err < 0"
  proof -
    have "err \<noteq> 0" using that by auto
    moreover have "sint (scast err :: i64) = sint err"
      using sint_ge [of err] sint_lt [of err] by (simp add: signed_scast_eq signed_take_bit_int_eq_self)
    moreover have "ucast (scast err :: i64) = err" by (rule bit_word_eqI) (simp add: bit_simps)
    ultimately show ?thesis using get that is_err_sint [of "scast err :: i64"] by (simp add: syscall_get_error_def Let_def)
  qed
  moreover have "syscall_get_arguments r' = syscall_get_arguments r"
    by (simp add: r'_def syscall_set_return_value_def syscall_get_arguments_def Let_def)
  moreover have "kregs (syscall_rollback r') ! 0 = hd (syscall_get_arguments r)"
    using assms(1) by (simp add: r'_def syscall_set_return_value_def syscall_rollback_def syscall_get_arguments_def Let_def)
  ultimately show ?thesis using get by (simp add: in_syscall_def forget_syscall_def)
qed

theorem syscall_result_roundtrip_witness:
  "syscall_get_error True (syscall_set_return_value True (- 2) 5 demo_regs) = - 2"
  using syscall_result_roundtrip [of demo_regs True "- 2" 5] by (simp add: demo_regs_def)

end
