(* ===== verification/Prog2.thy ===== *)
theory Prog2
  imports Tracing Bpf_Print
begin

text \<open>
  \<open>BPF_PROG2\<close> of the newer \<open>bpf_tracing.h\<close> in \<open>libbpf/bpf\<close>, the wrapper for programs whose parameters may be structures:
  a parameter of up to 8 bytes takes one slot of the context, one of 16 bytes takes two.  Parameters come as pairs of a
  type and a name; of a type only its size matters.  What does not compile, or reads past the context, is \<open>None\<close>.
\<close>

section \<open>Counting\<close>

text \<open>\<open>___bpf_nth2\<close> selects the twenty-sixth argument; two tokens per parameter.\<close>

definition bpf_nth2 :: "('a, 'm) token list \<Rightarrow> ('a, 'm) token option" where
  "bpf_nth2 ts = (if length ts < 26 then None else Some (ts ! 25))"

definition bpf_narg2 :: "'a list \<Rightarrow> nat option" where
  "bpf_narg2 args =
     (case bpf_nth2 (Blank # map Arg args @ map Own
        [12, 12, 11, 11, 10, 10, 9, 9, 8, 8, 7, 7, 6, 6, 5, 5, 4, 4, 3, 3, 2, 2, 1, 1, 0]) of
        Some (Own n) \<Rightarrow> Some n
      | _ \<Rightarrow> None)"

text \<open>For another size \<open>___bpf_treg_cnt\<close> is \<open>(void)0\<close>, which cannot be added.\<close>

definition bpf_treg_cnt :: "nat \<Rightarrow> nat option" where
  "bpf_treg_cnt sz =
     (if sz = 1 then Some 1 else if sz = 2 then Some 1 else if sz = 4 then Some 1 else if sz = 8 then Some 1
      else if sz = 16 then Some 2 else None)"

fun bpf_reg_cnt :: "nat list \<Rightarrow> nat option" where
  "bpf_reg_cnt [] = Some 0"
| "bpf_reg_cnt (t # ts) =
     (case (bpf_reg_cnt ts, bpf_treg_cnt t) of (Some a, Some b) \<Rightarrow> Some (a + b) | _ \<Rightarrow> None)"

section \<open>Arguments\<close>

definition ctx_slot :: "u64 list \<Rightarrow> nat \<Rightarrow> u64 option" where
  "ctx_slot ctx n = (if n < length ctx then Some (ctx ! n) else None)"

text \<open>The bytes of \<open>___t.x\<close>: the union is initialised through \<open>z\<close>, with elements of the parameter's width.\<close>

definition bpf_union_arg :: "u64 list \<Rightarrow> nat \<Rightarrow> nat \<Rightarrow> bytes option" where
  "bpf_union_arg ctx sz n =
     (if sz = 1 then map_option (\<lambda>v. le_store 1 (ucast v :: u8)) (ctx_slot ctx n)
      else if sz = 2 then map_option (\<lambda>v. le_store 2 (ucast v :: u16)) (ctx_slot ctx n)
      else if sz = 4 then map_option (\<lambda>v. le_store 4 (ucast v :: u32)) (ctx_slot ctx n)
      else if sz = 8 then map_option (le_store 8) (ctx_slot ctx n)
      else if sz = 16 then
        (case (ctx_slot ctx n, ctx_slot ctx (n + 1)) of
           (Some v, Some w) \<Rightarrow> Some (le_store 8 v @ le_store 8 w) | _ \<Rightarrow> None)
      else None)"

text \<open>\<open>___bpf_ctx_arg\<open>k\<close> (n, t, x, args)\<close>: the first of the remaining parameters is \<open>reg_cnt\<close> of them before slot \<open>n\<close>.\<close>

fun bpf_ctx_arg :: "u64 list \<Rightarrow> nat \<Rightarrow> nat list \<Rightarrow> bytes list option" where
  "bpf_ctx_arg ctx n [] = Some []"
| "bpf_ctx_arg ctx n (t # ts) =
     (case bpf_reg_cnt (t # ts) of None \<Rightarrow> None
      | Some c \<Rightarrow> (case bpf_union_arg ctx t (n - c) of None \<Rightarrow> None
                  | Some v \<Rightarrow> map_option ((#) v) (bpf_ctx_arg ctx n ts)))"

definition BPF_PROG2 :: "(nat \<times> string) list \<Rightarrow> (u64 list \<Rightarrow> bytes list \<Rightarrow> 'r) \<Rightarrow> u64 list \<Rightarrow> 'r option" where
  "BPF_PROG2 params body ctx =
     (case bpf_narg2 (concat (map (\<lambda>(t, x). [Inl t, Inr x]) params)) of None \<Rightarrow> None
      | Some k \<Rightarrow> (case bpf_reg_cnt (map fst params) of None \<Rightarrow> None
                  | Some n \<Rightarrow> map_option (body ctx) (bpf_ctx_arg ctx n (map fst params))))"

section \<open>Specification\<close>

text \<open>The context as bytes; each parameter is the beginning of the slots that follow those of its predecessors.\<close>

definition slots_of :: "nat \<Rightarrow> nat" where
  "slots_of sz = (if sz = 16 then 2 else 1)"

fun place :: "u64 list \<Rightarrow> nat list \<Rightarrow> bytes list" where
  "place ctx [] = []"
| "place ctx (t # ts) = take t (concat (map (le_store 8) ctx)) # place (drop (slots_of t) ctx) ts"

section \<open>Lemmas\<close>

lemma nth2_after_args:
  assumes "length own = 25"
  shows "bpf_nth2 (Blank # map Arg args @ map Own own) =
    Some (if length args \<le> 24 then Own (own ! (24 - length args)) else Arg (args ! 24))"
  using assms by (auto simp: bpf_nth2_def nth_append nth_Cons')

lemma narg2_length:
  assumes "length args = 2 * k"
  shows "bpf_narg2 args = (if k \<le> 12 then Some k else None)"
proof -
  let ?own = "[12, 12, 11, 11, 10, 10, 9, 9, 8, 8, 7, 7, 6, 6, 5, 5, 4, 4, 3, 3, 2, 2, 1, 1, 0] :: nat list"
  have "?own ! (24 - 2 * k) = k" if "k \<le> 12"
  proof -
    have "k \<in> set [0..<13]" using that by simp
    then show ?thesis by (auto simp: upt_rec)
  qed
  with nth2_after_args [of ?own args] assms show ?thesis by (simp add: bpf_narg2_def)
qed

lemma param_tokens: "length (concat (map (\<lambda>(t, x). [Inl t, Inr x]) params)) = 2 * length params"
  by (induction params) auto

lemma treg_cnt: "bpf_treg_cnt t = (if t \<in> {1, 2, 4, 8, 16} then Some (slots_of t) else None)"
  by (simp add: bpf_treg_cnt_def slots_of_def)

lemma reg_cnt: "bpf_reg_cnt ts = (if set ts \<subseteq> {1, 2, 4, 8, 16} then Some (sum_list (map slots_of ts)) else None)"
  by (induction ts) (auto simp: treg_cnt split: option.splits)

lemma le_bytes_take: "k \<le> m \<Longrightarrow> take k (le_bytes m n) = le_bytes k n"
proof (induction k arbitrary: m n)
  case (Suc k)
  then show ?case by (cases m) auto
qed simp

lemma le_bytes_mod: "le_bytes k (n mod 256 ^ k) = le_bytes k n"
proof -
  have "le_bytes k (le_nat (le_bytes k n)) = le_bytes k n" using le_bytes_nat [of "le_bytes k n"] by simp
  then show ?thesis by (simp add: le_nat_bytes)
qed

lemma le_store_ucast:
  assumes "LENGTH('a) = 8 * k" and "k \<le> 8"
  shows "le_store k (ucast (v :: u64) :: 'a::len word) = take k (le_store 8 v)"
proof -
  have "(256 :: nat) ^ k = 2 ^ LENGTH('a)" using assms(1) by (simp add: power_mult)
  then have "unat (ucast v :: 'a word) = unat v mod 256 ^ k" by (simp add: unsigned_ucast_eq take_bit_eq_mod)
  then show ?thesis using assms(2) by (simp add: le_store_def le_bytes_take le_bytes_mod)
qed

lemma union_arg_place:
  assumes "t \<in> {1, 2, 4, 8, 16}" and "n + slots_of t \<le> length ctx"
  shows "bpf_union_arg ctx t n = Some (take t (concat (map (le_store 8) (drop n ctx))))"
proof -
  have n: "n < length ctx" using assms(2) by (simp add: slots_of_def split: if_splits)
  then have d: "drop n ctx = ctx ! n # drop (Suc n) ctx" by (simp add: Cons_nth_drop_Suc)
  have d2: "drop (Suc n) ctx = ctx ! Suc n # drop (Suc (Suc n)) ctx" "Suc n < length ctx" if "t = 16"
    using assms(2) that by (auto simp: slots_of_def Cons_nth_drop_Suc)
  from assms(1) consider "t = 1" | "t = 2" | "t = 4" | "t = 8" | "t = 16" by auto
  then show ?thesis
    using n d d2 le_store_ucast [of 1 "ctx ! n", where ?'a = 8] le_store_ucast [of 2 "ctx ! n", where ?'a = 16]
      le_store_ucast [of 4 "ctx ! n", where ?'a = 32]
    by cases (simp_all add: bpf_union_arg_def ctx_slot_def)
qed

lemma ctx_arg_place:
  assumes "set ts \<subseteq> {1, 2, 4, 8, 16}" and "p + sum_list (map slots_of ts) \<le> length ctx"
  shows "bpf_ctx_arg ctx (p + sum_list (map slots_of ts)) ts = Some (place (drop p ctx) ts)"
  using assms
proof (induction ts arbitrary: p)
  case (Cons t ts)
  have "bpf_union_arg ctx t p = Some (take t (concat (map (le_store 8) (drop p ctx))))"
    using Cons.prems by (intro union_arg_place) auto
  moreover have "bpf_ctx_arg ctx (p + slots_of t + sum_list (map slots_of ts)) ts = Some (place (drop (p + slots_of t) ctx) ts)"
    using Cons.prems by (intro Cons.IH) auto
  ultimately show ?case using Cons.prems(1) reg_cnt [of "t # ts"] by (simp add: add.assoc add.commute)
qed simp

lemma place_words: "k \<le> length ctx \<Longrightarrow> place ctx (replicate k 8) = map (le_store 8) (take k ctx)"
proof (induction k arbitrary: ctx)
  case (Suc k)
  then obtain v vs where "ctx = v # vs" by (cases ctx) auto
  with Suc show ?case by (simp add: slots_of_def)
qed simp

section \<open>Properties\<close>

text \<open>
  \<open>BPF_PROG2\<close>.  With at most twelve parameters of 1, 2, 4, 8 or 16 bytes and a context that holds them, the body is
  called with exactly the bytes of the slots that follow those of the earlier parameters, cut to the parameter's size;
  with more parameters or another size the program does not compile.  For parameters of one word it passes what
  \<open>BPF_PROG\<close> passes.
\<close>

theorem bpf_prog2_places_arguments:
  assumes "sum_list (map (slots_of \<circ> fst) params) \<le> length ctx"
  shows "BPF_PROG2 params body ctx =
      (if length params \<le> 12 \<and> set (map fst params) \<subseteq> {1, 2, 4, 8, 16} then Some (body ctx (place ctx (map fst params)))
       else None) \<and>
    (map fst params = replicate k 8 \<longrightarrow>
       BPF_PROG2 params body ctx = BPF_PROG k (\<lambda>ctx args. body ctx (map (le_store 8) args)) ctx)"
proof -
  have main: "BPF_PROG2 params body ctx =
      (if length params \<le> 12 \<and> set (map fst params) \<subseteq> {1, 2, 4, 8, 16} then Some (body ctx (place ctx (map fst params)))
       else None)"
    using assms ctx_arg_place [of "map fst params" 0 ctx]
    by (simp add: BPF_PROG2_def narg2_length [OF param_tokens] reg_cnt)
  moreover have "BPF_PROG2 params body ctx = BPF_PROG k (\<lambda>ctx args. body ctx (map (le_store 8) args)) ctx"
    if w: "map fst params = replicate k 8"
  proof -
    have len: "length params = k" using arg_cong [OF w, of length] by simp
    have "sum_list (map slots_of (replicate k 8)) = k" by (simp add: slots_of_def sum_list_replicate)
    then have "k \<le> length ctx" using assms w by (metis map_map)
    with main w len show ?thesis by (auto simp: BPF_PROG_def bpf_ctx_cast_def place_words)
  qed
  ultimately show ?thesis by blast
qed

theorem bpf_prog2_places_arguments_witness:
  "BPF_PROG2 [(4, ''a''), (16, ''s''), (1, ''b'')] (\<lambda>ctx args. args) [0x100000005, 7, 1, 0x203] =
   Some [[5, 0, 0, 0], [7, 0, 0, 0, 0, 0, 0, 0, 1, 0, 0, 0, 0, 0, 0, 0], [3]]"
proof -
  have "place [0x100000005, 7, 1, 0x203] [4, 16, 1] =
      [[5, 0, 0, 0], [7, 0, 0, 0, 0, 0, 0, 0, 1, 0, 0, 0, 0, 0, 0, 0], [3]]"
    by (simp add: slots_of_def le_store_def le_bytes_numeral)
  then show ?thesis
    using bpf_prog2_places_arguments [of "[(4, ''a''), (16, ''s''), (1, ''b'')]" "[0x100000005, 7, 1, 0x203]"
        "\<lambda>ctx args. args", THEN conjunct1]
    by (simp only: list.map fst_conv) (simp add: slots_of_def)
qed

end
