(* ===== verification/Core_Variadic.thy ===== *)
theory Core_Variadic
  imports Core_Read Bpf_Print
begin

text \<open>
  The preprocessor side of \<open>bpf_core_read.h\<close>: how \<open>BPF_CORE_READ\<close> and its relatives count their arguments and unfold
  into a sequence of reads.  \<open>Core_Read\<close> describes what that sequence does; here it is built with the macros \<open>___narg\<close>,
  \<open>___last\<close>, \<open>___nolast\<close>, \<open>___arrow\<close>, \<open>___rd_p\<open>n\<close>\<close> as they are written, with the limits their number imposes.  A call
  that does not compile is \<open>None\<close>.
\<close>

section \<open>Counting and selecting arguments\<close>

definition cr_nth :: "('a, 'm) token list \<Rightarrow> ('a, 'm) token option" where
  "cr_nth ts = (if length ts < 12 then None else Some (ts ! 11))"

definition cr_narg :: "'a list \<Rightarrow> nat option" where
  "cr_narg args =
     (case cr_nth (Blank # map Arg args @ map Own [10, 9, 8, 7, 6, 5, 4, 3, 2, 1, 0]) of
        Some (Own n) \<Rightarrow> Some n
      | _ \<Rightarrow> None)"

text \<open>\<open>___empty\<close>: the suffix \<open>0\<close> (here \<open>False\<close>) or \<open>N\<close>.\<close>

definition cr_empty :: "'a list \<Rightarrow> bool option" where
  "cr_empty args =
     (case cr_nth (Blank # map Arg args @ map Own (replicate 10 True @ [False])) of
        Some (Own b) \<Rightarrow> Some b
      | _ \<Rightarrow> None)"

text \<open>\<open>___last1\<close> to \<open>___last10\<close>, \<open>___nolast2\<close> to \<open>___nolast10\<close>, \<open>___arrow1\<close> to \<open>___arrow10\<close> exist.\<close>

definition cr_last :: "'a list \<Rightarrow> 'a option" where
  "cr_last args = (case cr_narg args of None \<Rightarrow> None | Some n \<Rightarrow> if 1 \<le> n then Some (args ! (n - 1)) else None)"

definition cr_nolast :: "'a list \<Rightarrow> 'a list option" where
  "cr_nolast args = (case cr_narg args of None \<Rightarrow> None | Some n \<Rightarrow> if 2 \<le> n then Some (take (n - 1) args) else None)"

text \<open>The expression \<open>a->b->c\<close> as the list of its parts.\<close>

definition cr_arrow :: "'a list \<Rightarrow> 'a list option" where
  "cr_arrow args = (case cr_narg args of None \<Rightarrow> None | Some n \<Rightarrow> if 1 \<le> n then Some (take n args) else None)"

section \<open>The sequence of reads\<close>

text \<open>The arguments of a macro: the source expression and the accessors.\<close>

datatype 'a expr = Src_Expr | Acc 'a

datatype rd_base = Src | T \<comment> \<open>the source, or the local variable \<open>__t\<close>\<close>

text \<open>
  \<open>___read (fn, dst, src_type, src, accessor)\<close>: into \<open>__t\<close> or into the destination; the type is the one of an arrow
  expression, which has to fit what was read so far.
\<close>

datatype 'a rd_stmt =
  Read_T "'a expr list" rd_base "'a expr"
| Read_Dst "'a expr list" rd_base "'a expr"

definition cr_rd_first :: "'a expr list \<Rightarrow> 'a rd_stmt list option" where
  "cr_rd_first args = (case args of [s, a] \<Rightarrow> map_option (\<lambda>ty. [Read_T ty Src a]) (cr_arrow [s]) | _ \<Rightarrow> None)"

definition cr_rd_last :: "'a expr list \<Rightarrow> 'a rd_stmt list option" where
  "cr_rd_last args =
     (case (Option.bind (cr_nolast args) cr_arrow, cr_last args) of
        (Some ty, Some a) \<Rightarrow> Some [Read_T ty T a] | _ \<Rightarrow> None)"

text \<open>\<open>___rd_p1\<close> to \<open>___rd_p9\<close>.\<close>

fun cr_rd_p :: "nat \<Rightarrow> 'a expr list \<Rightarrow> 'a rd_stmt list option" where
  "cr_rd_p 0 args = None"
| "cr_rd_p (Suc 0) args = cr_rd_first args"
| "cr_rd_p (Suc (Suc k)) args =
     (if 9 < Suc (Suc k) then None
      else case (Option.bind (cr_nolast args) (cr_rd_p (Suc k)), cr_rd_last args) of
             (Some ss, Some s) \<Rightarrow> Some (ss @ s) | _ \<Rightarrow> None)"

definition cr_read_ptrs :: "'a expr \<Rightarrow> 'a expr list \<Rightarrow> 'a rd_stmt list option" where
  "cr_read_ptrs src args = (case cr_narg args of None \<Rightarrow> None | Some n \<Rightarrow> cr_rd_p n (src # args))"

definition cr_core_read0 :: "'a expr \<Rightarrow> 'a expr \<Rightarrow> 'a rd_stmt list option" where
  "cr_core_read0 src a = map_option (\<lambda>ty. [Read_Dst ty Src a]) (cr_arrow [src])"

definition cr_core_readN :: "'a expr \<Rightarrow> 'a expr list \<Rightarrow> 'a rd_stmt list option" where
  "cr_core_readN src args =
     (case (Option.bind (cr_nolast args) (cr_read_ptrs src), Option.bind (cr_nolast args) (\<lambda>as. cr_arrow (src # as)), cr_last args) of
        (Some ss, Some ty, Some a) \<Rightarrow> Some (ss @ [Read_Dst ty T a]) | _ \<Rightarrow> None)"

definition cr_core_read :: "'a \<Rightarrow> 'a list \<Rightarrow> 'a rd_stmt list option" where
  "cr_core_read a as =
     (case cr_empty as of
        None \<Rightarrow> None
      | Some False \<Rightarrow> cr_core_read0 Src_Expr (Acc a)
      | Some True \<Rightarrow> cr_core_readN Src_Expr (map Acc (a # as)))"

text \<open>\<open>BPF_CORE_READ\<close> declares \<open>__r\<close> with the type of the whole expression first.\<close>

definition cr_BPF_CORE_READ :: "'a \<Rightarrow> 'a list \<Rightarrow> ('a expr list \<times> 'a rd_stmt list) option" where
  "cr_BPF_CORE_READ a as =
     (case (cr_arrow (Src_Expr # map Acc (a # as)), cr_core_read a as) of
        (Some ty, Some ss) \<Rightarrow> Some (ty, ss) | _ \<Rightarrow> None)"

section \<open>Running the reads\<close>

text \<open>Accessors are offsets; the bytes of \<open>__t\<close> start uninitialised.\<close>

fun acc_off :: "u64 expr \<Rightarrow> u64" where
  "acc_off (Acc a) = a"
| "acc_off Src_Expr = 0"

definition base_addr :: "u64 \<Rightarrow> bytes \<Rightarrow> rd_base \<Rightarrow> u64" where
  "base_addr src t b = (case b of Src \<Rightarrow> src | T \<Rightarrow> le_word t)"

fun run_reads :: "'b reader \<Rightarrow> bytes reader \<Rightarrow> u64 \<Rightarrow> 'b \<Rightarrow> bytes \<Rightarrow> u64 rd_stmt list \<Rightarrow> (int \<times> 'b) option" where
  "run_reads fn fn_ptr src dst t [] = None"
| "run_reads fn fn_ptr src dst t (Read_T ty b a # ss) =
     run_reads fn fn_ptr src dst (snd (fn_ptr t (base_addr src t b + acc_off a))) ss"
| "run_reads fn fn_ptr src dst t (Read_Dst ty b a # ss) =
     (if ss = [] then Some (fn dst (base_addr src t b + acc_off a)) else None)"

section \<open>Lemmas\<close>

lemma cr_nth_after:
  assumes "length own = 11"
  shows "cr_nth (Blank # map Arg args @ map Own own) =
    Some (if length args \<le> 10 then Own (own ! (10 - length args)) else Arg (args ! 10))"
  using assms by (auto simp: cr_nth_def nth_append nth_Cons')

lemma cr_narg_length: "cr_narg args = (if length args \<le> 10 then Some (length args) else None)"
proof -
  let ?own = "[10, 9, 8, 7, 6, 5, 4, 3, 2, 1, 0] :: nat list"
  have "?own = rev [0..<11]" by (simp add: upt_rec)
  then have "?own ! (10 - n) = n" if "n \<le> 10" for n :: nat
    using that by (simp add: rev_nth)
  with cr_nth_after [of ?own args] show ?thesis by (simp add: cr_narg_def)
qed

lemma cr_empty_length: "cr_empty args = (if length args \<le> 10 then Some (args \<noteq> []) else None)"
  using cr_nth_after [of "replicate 10 True @ [False]" args]
  by (cases args) (auto simp: cr_empty_def nth_append)

lemma cr_select:
  "cr_last args = (if 1 \<le> length args \<and> length args \<le> 10 then Some (last args) else None)"
  "cr_nolast args = (if 2 \<le> length args \<and> length args \<le> 10 then Some (butlast args) else None)"
  "cr_arrow args = (if 1 \<le> length args \<and> length args \<le> 10 then Some args else None)"
  by (cases args; auto simp: cr_last_def cr_nolast_def cr_arrow_def cr_narg_length butlast_conv_take last_conv_nth)+

text \<open>The reads of a chain: read number \<open>i\<close> has the type of the arrow expression of the first \<open>i\<close> parts.\<close>

definition chain_reads :: "'a expr list \<Rightarrow> 'a rd_stmt list" where
  "chain_reads as = map (\<lambda>i. Read_T (Src_Expr # take i as) (if i = 0 then Src else T) (as ! i)) [0..<length as]"

lemma chain_reads_snoc:
  "chain_reads (as @ [a]) = chain_reads as @ [Read_T (Src_Expr # as) (if as = [] then Src else T) a]"
  by (auto simp: chain_reads_def nth_append)

lemma rd_p_chain:
  "as \<noteq> [] \<Longrightarrow> length as \<le> 9 \<Longrightarrow> cr_rd_p (length as) (Src_Expr # as) = Some (chain_reads as)"
proof (induction as rule: rev_induct)
  case (snoc a as)
  show ?case
  proof (cases as)
    case Nil
    then show ?thesis by (simp add: cr_rd_first_def cr_select chain_reads_def)
  next
    case (Cons b bs)
    then have len: "length as = Suc (length bs)" by simp
    have nl: "cr_nolast (Src_Expr # as @ [a]) = Some (Src_Expr # as)" using snoc.prems(2) by (simp add: cr_select butlast_append)
    have "cr_rd_p (Suc (length bs)) (Src_Expr # as) = Some (chain_reads as)" using snoc Cons by simp
    moreover have "cr_rd_last (Src_Expr # as @ [a]) = Some [Read_T (Src_Expr # as) T a]"
      using snoc.prems(2) by (simp add: cr_rd_last_def nl cr_select(1,3))
    ultimately show ?thesis using snoc.prems(2) nl len Cons chain_reads_snoc [of "b # bs" a] by simp
  qed
qed simp

lemma core_read_expansion:
  "cr_core_read a as =
     (if length as \<le> 9
      then Some (chain_reads (map Acc (butlast (a # as))) @
                 [Read_Dst (Src_Expr # map Acc (butlast (a # as))) (if as = [] then Src else T) (Acc (last (a # as)))])
      else None)"
proof (cases "as = []")
  case True
  then show ?thesis by (simp add: cr_core_read_def cr_empty_length cr_core_read0_def cr_select chain_reads_def)
next
  case False
  let ?as = "map Acc (a # as) :: 'a expr list"
  have bl: "butlast ?as = map Acc (butlast (a # as))" "last ?as = Acc (last (a # as))"
    using False by (simp_all only: map_butlast last_map list.distinct not_False_eq_True)
  have pos: "1 \<le> length as" using False by (cases as) auto
  show ?thesis
  proof (cases "length as \<le> 9")
    case True
    have "cr_read_ptrs Src_Expr (butlast ?as) = Some (chain_reads (butlast ?as))"
      using rd_p_chain [of "butlast ?as"] True False by (simp add: cr_read_ptrs_def cr_narg_length)
    then show ?thesis using True False pos
      by (simp add: cr_core_read_def cr_empty_length cr_core_readN_def cr_select bl del: list.map butlast.simps last.simps)
  next
    case F: False
    then show ?thesis using False by (simp add: cr_core_read_def cr_empty_length cr_core_readN_def cr_select)
  qed
qed

text \<open>Running the reads of a chain leaves the last pointer in \<open>__t\<close>.\<close>

lemma le_store_le_word: "length t = 8 \<Longrightarrow> le_store 8 (le_word t :: u64) = t"
  using le_bytes_nat [of t] le_nat_less [of t] by (simp add: le_store_def le_word_def unat_of_nat)

lemma run_chain:
  assumes "\<forall>buf p. length buf = 8 \<longrightarrow> length (snd (fn_ptr buf p)) = 8" and "length undef = 8"
  shows "as \<noteq> [] \<Longrightarrow> \<exists>t. length t = 8 \<and> le_word t = read_ptrs fn_ptr undef src as \<and>
    (\<forall>rest. run_reads fn fn_ptr src dst undef (chain_reads (map Acc as) @ rest) = run_reads fn fn_ptr src dst t rest)"
proof (induction as rule: rev_induct)
  case (snoc a as)
  have split: "chain_reads (map Acc (as @ [a])) @ rest =
      chain_reads (map Acc as) @ Read_T (Src_Expr # map Acc as) (if as = [] then Src else T) (Acc a) # rest" for rest
    using chain_reads_snoc [of "map Acc as" "Acc a"] by simp
  show ?case
  proof (cases "as = []")
    case True
    then show ?thesis using assms
      by (intro exI [of _ "snd (fn_ptr undef (src + a))"]) (simp add: chain_reads_def base_addr_def rd_first_def)
  next
    case False
    then obtain t where t: "length t = 8" "le_word t = read_ptrs fn_ptr undef src as"
        "\<And>rest. run_reads fn fn_ptr src dst undef (chain_reads (map Acc as) @ rest) = run_reads fn fn_ptr src dst t rest"
      using snoc.IH by blast
    have "read_ptrs fn_ptr undef src (as @ [a]) = rd_last fn_ptr (read_ptrs fn_ptr undef src as) a"
      using False by (cases as) simp_all
    then have "read_ptrs fn_ptr undef src (as @ [a]) = le_word (snd (fn_ptr t (le_word t + a)))"
      by (simp add: rd_last_def t(2) [symmetric] le_store_le_word [OF t(1)])
    then show ?thesis using t(1,3) assms(1) False
      by (intro exI [of _ "snd (fn_ptr t (le_word t + a))"]) (simp only: split, simp add: base_addr_def)
  qed
qed simp

section \<open>Properties\<close>

text \<open>
  Unfolding.  With up to ten accessors \<open>___core_read\<close> unfolds into one read per accessor, each with the type of the
  arrow expression of the parts before it, and running these reads is what \<open>core_read\<close> describes; with more it does not
  compile.  \<open>BPF_CORE_READ\<close>, which also names the type of the whole expression, compiles up to nine accessors, as its
  comment says.
\<close>

theorem core_read_unfolds:
  assumes "\<forall>buf p. length buf = 8 \<longrightarrow> length (snd (fn_ptr buf p)) = 8" and "length undef = 8"
  shows "(case cr_core_read a as of
        None \<Rightarrow> 10 < length (a # as)
      | Some ss \<Rightarrow> length (a # as) \<le> 10 \<and> length ss = length (a # as) \<and>
          run_reads fn fn_ptr src dst undef ss = Some (core_read fn fn_ptr undef dst src a as)) \<and>
    cr_BPF_CORE_READ a as =
      (if length (a # as) \<le> 9 then Some (Src_Expr # map Acc (a # as), the (cr_core_read a as)) else None)"
proof (cases "length as \<le> 9")
  case True
  let ?bl = "butlast (a # as)"
  let ?d = "Read_Dst (Src_Expr # map Acc ?bl) (if as = [] then Src else T) (Acc (last (a # as)))"
  have eq: "cr_core_read a as = Some (chain_reads (map Acc ?bl) @ [?d])"
    using True core_read_expansion [of a as] by simp
  have "run_reads fn fn_ptr src dst undef (chain_reads (map Acc ?bl) @ [?d]) = Some (core_read fn fn_ptr undef dst src a as)"
  proof (cases as)
    case Nil
    then show ?thesis by (simp add: chain_reads_def base_addr_def)
  next
    case (Cons b bs)
    then obtain t where "le_word t = read_ptrs fn_ptr undef src ?bl"
        "\<And>rest. run_reads fn fn_ptr src dst undef (chain_reads (map Acc ?bl) @ rest) = run_reads fn fn_ptr src dst t rest"
      using run_chain [OF assms, where as = ?bl and src = src and fn = fn and dst = dst] by auto
    then show ?thesis using Cons by (simp add: base_addr_def last_ConsR del: butlast.simps last.simps)
  qed
  then show ?thesis using True eq by (simp add: cr_BPF_CORE_READ_def cr_select chain_reads_def del: butlast.simps last.simps)
next
  case False
  then show ?thesis using core_read_expansion [of a as] by (simp add: cr_BPF_CORE_READ_def cr_select)
qed

theorem core_read_unfolds_witness:
  "cr_BPF_CORE_READ 8 [6 :: u64] =
     Some ([Src_Expr, Acc 8, Acc 6], [Read_T [Src_Expr] Src (Acc 8), Read_Dst [Src_Expr, Acc 8] T (Acc 6)])"
proof -
  have "cr_core_read 8 [6 :: u64] = Some [Read_T [Src_Expr] Src (Acc 8), Read_Dst [Src_Expr, Acc 8] T (Acc 6)]"
    by (simp add: core_read_expansion chain_reads_def)
  then show ?thesis
    using core_read_unfolds [of "\<lambda>buf p. (0, buf)" "replicate 8 0" 8 "[6]" "\<lambda>buf p. (0, buf)" 0 "[]"] by simp
qed

end
