(* ===== verification/Endian.thy ===== *)
theory Endian
  imports Prelude
begin

unbundle bit_operations_syntax

text \<open>
  \<open>bpf_endian.h\<close>: the byte swaps the compiler folds for constants, the compiler's
  \<open>__builtin_bswap\<close> used at run time, and the conversions between host and network
  order for both byte orders of the host.
\<close>

section \<open>Definitions\<close>

text \<open>\<open>___bpf_mvb (x, b, n, m)\<close>: byte \<open>n\<close> of \<open>x\<close> moved to byte \<open>m\<close>; \<open>b\<close> is the width of the type.\<close>

definition bpf_mvb :: "'a::len word \<Rightarrow> nat \<Rightarrow> nat \<Rightarrow> 'a word" where
  "bpf_mvb x n m = push_bit (m * 8) (drop_bit (LENGTH('a) - 8) (push_bit (LENGTH('a) - (n + 1) * 8) x))"

definition bpf_swab16 :: "u16 \<Rightarrow> u16" where
  "bpf_swab16 x = bpf_mvb x 0 1 OR bpf_mvb x 1 0"

definition bpf_swab32 :: "u32 \<Rightarrow> u32" where
  "bpf_swab32 x = bpf_mvb x 0 3 OR bpf_mvb x 1 2 OR bpf_mvb x 2 1 OR bpf_mvb x 3 0"

definition bpf_swab64 :: "u64 \<Rightarrow> u64" where
  "bpf_swab64 x =
     bpf_mvb x 0 7 OR bpf_mvb x 1 6 OR bpf_mvb x 2 5 OR bpf_mvb x 3 4 OR
     bpf_mvb x 4 3 OR bpf_mvb x 5 2 OR bpf_mvb x 6 1 OR bpf_mvb x 7 0"

text \<open>\<open>__builtin_bswap\<close> reverses the bytes of its argument in memory.\<close>

definition builtin_bswap :: "nat \<Rightarrow> 'a::len word \<Rightarrow> 'a word" where
  "builtin_bswap k x = le_word (rev (le_store k x))"

datatype byte_order = Little_Endian | Big_Endian

text \<open>The first argument tells whether the operand is a compile-time constant.\<close>

fun bpf_htons :: "byte_order \<Rightarrow> bool \<Rightarrow> u16 \<Rightarrow> u16" where
  "bpf_htons Little_Endian const x = (if const then bpf_swab16 x else builtin_bswap 2 x)"
| "bpf_htons Big_Endian const x = x"

fun bpf_ntohs :: "byte_order \<Rightarrow> bool \<Rightarrow> u16 \<Rightarrow> u16" where
  "bpf_ntohs Little_Endian const x = (if const then bpf_swab16 x else builtin_bswap 2 x)"
| "bpf_ntohs Big_Endian const x = x"

fun bpf_htonl :: "byte_order \<Rightarrow> bool \<Rightarrow> u32 \<Rightarrow> u32" where
  "bpf_htonl Little_Endian const x = (if const then bpf_swab32 x else builtin_bswap 4 x)"
| "bpf_htonl Big_Endian const x = x"

fun bpf_ntohl :: "byte_order \<Rightarrow> bool \<Rightarrow> u32 \<Rightarrow> u32" where
  "bpf_ntohl Little_Endian const x = (if const then bpf_swab32 x else builtin_bswap 4 x)"
| "bpf_ntohl Big_Endian const x = x"

fun bpf_cpu_to_be64 :: "byte_order \<Rightarrow> bool \<Rightarrow> u64 \<Rightarrow> u64" where
  "bpf_cpu_to_be64 Little_Endian const x = (if const then bpf_swab64 x else builtin_bswap 8 x)"
| "bpf_cpu_to_be64 Big_Endian const x = x"

fun bpf_be64_to_cpu :: "byte_order \<Rightarrow> bool \<Rightarrow> u64 \<Rightarrow> u64" where
  "bpf_be64_to_cpu Little_Endian const x = (if const then bpf_swab64 x else builtin_bswap 8 x)"
| "bpf_be64_to_cpu Big_Endian const x = x"

section \<open>Bits of words and of their bytes\<close>

lemma bit_mvb:
  fixes x :: "'a::len word"
  assumes "(n + 1) * 8 \<le> LENGTH('a)" and "(m + 1) * 8 \<le> LENGTH('a)"
  shows "bit (bpf_mvb x n m) i \<longleftrightarrow> m * 8 \<le> i \<and> i < m * 8 + 8 \<and> bit x (i - m * 8 + n * 8)"
  using assms by (auto simp: bpf_mvb_def bit_simps algebra_simps not_le not_less dest: bit_imp_le_length)

lemma le_bytes_nth: "j < k \<Longrightarrow> le_bytes k n ! j = of_nat (n div 256 ^ j)"
  by (induction k arbitrary: j n) (auto simp: nth_Cons div_mult2_eq split: nat.split)

lemma bit_le_bytes: "j < k \<Longrightarrow> i < 8 \<Longrightarrow> bit (le_bytes k n ! j) i \<longleftrightarrow> bit n (8 * j + i)"
  by (simp add: le_bytes_nth bit_of_nat_iff, simp add: bit_iff_odd div_mult2_eq [symmetric] power_add power_mult)

lemma bit_add_high: "i < k \<Longrightarrow> bit (a + 2 ^ k * m :: nat) i \<longleftrightarrow> bit a i"
proof -
  assume "i < k"
  then obtain d where k: "k = i + Suc d" using less_iff_Suc_add by auto
  have "a + 2 ^ k * m = a + 2 ^ i * (2 * (2 ^ d * m))" by (simp add: k power_add)
  then have "(a + 2 ^ k * m) div 2 ^ i = a div 2 ^ i + 2 * (2 ^ d * m)"
    by (metis add.commute div_mult_self2 power_not_zero zero_neq_numeral)
  then show ?thesis by (simp add: bit_iff_odd)
qed

lemma bit_le_nat: "bit (le_nat bs) i \<longleftrightarrow> i div 8 < length bs \<and> bit (bs ! (i div 8)) (i mod 8)"
proof (induction bs arbitrary: i)
  case (Cons b bs)
  have b: "unat b < 256" by (rule unat_less_256)
  show ?case
  proof (cases "i < 8")
    case True
    then have "bit (unat b + 256 * le_nat bs) i \<longleftrightarrow> bit (unat b) i"
      using bit_add_high [of i 8 "unat b" "le_nat bs"] by simp
    with True show ?thesis by (simp add: bit_unsigned_iff)
  next
    case False
    then obtain j where i: "i = 8 + j" by (metis le_Suc_ex not_less)
    have "(unat b + 256 * le_nat bs) div 2 ^ (8 + j) = le_nat bs div 2 ^ j"
      using b by (simp add: power_add div_mult2_eq)
    moreover have "i div 8 = Suc (j div 8)" "i mod 8 = j mod 8" by (simp_all add: i)
    ultimately show ?thesis using Cons.IH [of j] by (simp add: i bit_iff_odd)
  qed
qed simp

lemma bit_bswap:
  fixes x :: "'a::len word"
  assumes "LENGTH('a) = 8 * k"
  shows "bit (builtin_bswap k x) i \<longleftrightarrow> i < 8 * k \<and> bit x (8 * (k - 1 - i div 8) + i mod 8)"
proof (cases "i < 8 * k")
  case True
  then have j: "i div 8 < k" by (simp add: less_mult_imp_div_less mult.commute)
  have "bit (builtin_bswap k x) i \<longleftrightarrow> bit (rev (le_store k x) ! (i div 8)) (i mod 8)"
    using True j assms by (simp add: builtin_bswap_def le_word_def bit_of_nat_iff bit_le_nat)
  also have "\<dots> \<longleftrightarrow> bit (unat x) (8 * (k - 1 - i div 8) + i mod 8)"
    using j by (simp add: rev_nth le_store_def bit_le_bytes)
  finally show ?thesis using True by (simp add: bit_unsigned_iff)
next
  case False
  then show ?thesis using assms bit_imp_le_length by fastforce
qed

lemma bit_bswap_byte:
  fixes x :: "'a::len word"
  assumes "LENGTH('a) = 8 * k" and "q < k" and "r < 8"
  shows "bit (builtin_bswap k x) (8 * q + r) \<longleftrightarrow> bit x (8 * (k - 1 - q) + r)"
  using assms by (simp add: bit_bswap [OF assms(1)])

section \<open>The swaps reverse the bytes\<close>

lemma byte_cases:
  fixes i :: nat
  assumes "i < 8 * k"
  obtains q r where "q < k" and "r < 8" and "i = 8 * q + r"
  using that [of "i div 8" "i mod 8"] assms by (simp add: less_mult_imp_div_less mult.commute)

lemma swab16: "bpf_swab16 x = builtin_bswap 2 x"
proof (rule bit_eqI)
  fix i assume "possible_bit TYPE(u16) i"
  then have "i < 8 * 2" by simp
  then obtain q r where q: "q < 2" and r: "r < 8" "i = 8 * q + r" by (rule byte_cases)
  then have "q = 0 \<or> q = 1" by auto
  then show "bit (bpf_swab16 x) i = bit (builtin_bswap 2 x) i"
    unfolding r(2) using bit_bswap_byte [OF _ q r(1), of x] r(1)
    by (elim disjE) (simp_all add: bpf_swab16_def bit_or_iff bit_mvb add.commute)
qed

lemma swab32: "bpf_swab32 x = builtin_bswap 4 x"
proof (rule bit_eqI)
  fix i assume "possible_bit TYPE(u32) i"
  then have "i < 8 * 4" by simp
  then obtain q r where q: "q < 4" and r: "r < 8" "i = 8 * q + r" by (rule byte_cases)
  then have "q = 0 \<or> q = 1 \<or> q = 2 \<or> q = 3" by auto
  then show "bit (bpf_swab32 x) i = bit (builtin_bswap 4 x) i"
    unfolding r(2) using bit_bswap_byte [OF _ q r(1), of x] r(1)
    by (elim disjE) (simp_all add: bpf_swab32_def bit_or_iff bit_mvb add.commute)
qed

lemma swab64: "bpf_swab64 x = builtin_bswap 8 x"
proof (rule bit_eqI)
  fix i assume "possible_bit TYPE(u64) i"
  then have "i < 8 * 8" by simp
  then obtain q r where q: "q < 8" and r: "r < 8" "i = 8 * q + r" by (rule byte_cases)
  then have "q = 0 \<or> q = 1 \<or> q = 2 \<or> q = 3 \<or> q = 4 \<or> q = 5 \<or> q = 6 \<or> q = 7" by auto
  then show "bit (bpf_swab64 x) i = bit (builtin_bswap 8 x) i"
    unfolding r(2) using bit_bswap_byte [OF _ q r(1), of x] r(1)
    by (elim disjE) (simp_all add: bpf_swab64_def bit_or_iff bit_mvb add.commute)
qed

lemma bswap_bytes: "LENGTH('a) = 8 * k \<Longrightarrow> le_store k (builtin_bswap k (x :: 'a::len word)) = rev (le_store k x)"
proof -
  assume len: "LENGTH('a) = 8 * k"
  let ?bs = "rev (le_store k x)"
  have "le_nat ?bs < 2 ^ LENGTH('a)" using le_nat_less [of ?bs] by (simp add: len power_mult)
  then have "unat (le_word ?bs :: 'a word) = le_nat ?bs" by (simp add: le_word_def unat_of_nat)
  moreover have "le_bytes k (le_nat ?bs) = ?bs" using le_bytes_nat [of ?bs] by simp
  ultimately show ?thesis by (simp add: builtin_bswap_def le_store_def)
qed

lemma bswap_twice: "LENGTH('a) = 8 * k \<Longrightarrow> builtin_bswap k (builtin_bswap k (x :: 'a::len word)) = x"
  by (simp add: builtin_bswap_def [of k "builtin_bswap k x"] bswap_bytes le_word_store)

section \<open>Properties\<close>

text \<open>
  Byte order.  The constant-folded and the run-time conversions agree on every value; converting to network
  order and back is the identity for all three widths and both byte orders; and on a little-endian host the
  converted value lies in memory with its most significant byte first.
\<close>

theorem network_order:
  "bpf_htons bo True h = bpf_htons bo False h \<and> bpf_htonl bo True w = bpf_htonl bo False w \<and>
   bpf_cpu_to_be64 bo True d = bpf_cpu_to_be64 bo False d \<and>
   bpf_ntohs bo c (bpf_htons bo c' h) = h \<and> bpf_ntohl bo c (bpf_htonl bo c' w) = w \<and>
   bpf_be64_to_cpu bo c (bpf_cpu_to_be64 bo c' d) = d \<and>
   le_store 2 (bpf_htons Little_Endian c h) = rev (le_store 2 h) \<and>
   le_store 4 (bpf_htonl Little_Endian c w) = rev (le_store 4 w) \<and>
   le_store 8 (bpf_cpu_to_be64 Little_Endian c d) = rev (le_store 8 d)"
  by (cases bo) (simp_all add: swab16 swab32 swab64 bswap_twice bswap_bytes)

end
