(* ===== verification/Usdt.thy ===== *)
theory Usdt
  imports Tracing Endian
begin

unbundle bit_operations_syntax

text \<open>
  \<open>usdt.bpf.h\<close>: how a BPF program fetches the arguments of a user-space static
  tracepoint.  User space stores for each tracepoint a specification of where its
  arguments are (a constant, a register, or memory behind a register) and how wide
  they are; \<open>bpf_usdt_arg\<close> interprets it.
\<close>

section \<open>Specifications\<close>

definition BPF_USDT_MAX_SPEC_CNT :: nat where "BPF_USDT_MAX_SPEC_CNT = 256"
definition BPF_USDT_MAX_IP_CNT :: nat where "BPF_USDT_MAX_IP_CNT = 4 * BPF_USDT_MAX_SPEC_CNT"
definition BPF_USDT_MAX_ARG_CNT :: nat where "BPF_USDT_MAX_ARG_CNT = 12"

definition ESRCH :: int where "ESRCH = 3"
definition ENOENT :: int where "ENOENT = 2"
definition EINVAL :: int where "EINVAL = 22"

text \<open>The enumeration, and any other value its field may hold.\<close>

datatype bpf_usdt_arg_type =
  BPF_USDT_ARG_CONST | BPF_USDT_ARG_REG | BPF_USDT_ARG_REG_DEREF | Other_Arg_Type

text \<open>
  \<open>arg_bitshift\<close> is a \<open>char\<close>; its values, 64 minus the number of bits of the argument, are below 64, where the sign of
  \<open>char\<close> makes no difference.
\<close>

record bpf_usdt_arg_spec =
  val_off :: u64
  arg_type :: bpf_usdt_arg_type
  reg_off :: "16 word"
  arg_signed :: bool
  arg_bitshift :: u8

record bpf_usdt_spec =
  usdt_args_of :: "bpf_usdt_arg_spec list"
  usdt_cookie :: u64
  arg_cnt :: "16 word"

text \<open>The two maps, the kernel's cookie support and the context of the probe.\<close>

record usdt_env =
  usdt_specs :: "i32 \<Rightarrow> bpf_usdt_spec option"
  usdt_ip_to_spec_id :: "u64 \<Rightarrow> i32 option"
  LINUX_HAS_BPF_COOKIE :: bool
  attach_cookie :: u64
  usdt_ctx :: u64
  usdt_ip :: u64

section \<open>Operations\<close>

definition bpf_usdt_spec_id :: "usdt_env \<Rightarrow> i32" where
  "bpf_usdt_spec_id ue =
     (if \<not> LINUX_HAS_BPF_COOKIE ue then
        (case usdt_ip_to_spec_id ue (usdt_ip ue) of Some i \<Rightarrow> i | None \<Rightarrow> of_int (- ESRCH))
      else ucast (attach_cookie ue))"

definition find_spec :: "usdt_env \<Rightarrow> bpf_usdt_spec option" where
  "find_spec ue =
     (let spec_id = bpf_usdt_spec_id ue in if sint spec_id < 0 then None else usdt_specs ue spec_id)"

definition bpf_usdt_arg_cnt :: "usdt_env \<Rightarrow> int" where
  "bpf_usdt_arg_cnt ue = (case find_spec ue of None \<Rightarrow> - ESRCH | Some spec \<Rightarrow> sint (arg_cnt spec))"

text \<open>An eight-byte variable filled by a probe read, as the host's byte order reads it.\<close>

fun load_word :: "byte_order \<Rightarrow> u8 list \<Rightarrow> u64" where
  "load_word Little_Endian buf = le_word buf"
| "load_word Big_Endian buf = le_word (rev buf)"

text \<open>The value before it is cut to its width: \<open>Inl\<close> is the error that is returned.\<close>

fun fetch_arg :: "kenv \<Rightarrow> byte_order \<Rightarrow> u64 \<Rightarrow> bpf_usdt_arg_type \<Rightarrow> bpf_usdt_arg_spec \<Rightarrow> int + u64" where
  "fetch_arg env bo ctx BPF_USDT_ARG_CONST a = Inr (val_off a)"
| "fetch_arg env bo ctx BPF_USDT_ARG_REG a =
     (let (err, buf) = k_read_kernel env 8 (k_stack env 8) (ctx + scast (reg_off a))
      in if err \<noteq> 0 then Inl err else Inr (load_word bo buf))"
| "fetch_arg env bo ctx BPF_USDT_ARG_REG_DEREF a =
     (let (err, buf) = k_read_kernel env 8 (k_stack env 8) (ctx + scast (reg_off a))
      in if err \<noteq> 0 then Inl err
         else let (err, buf) = k_read_user env 8 buf (load_word bo buf + val_off a)
              in if err \<noteq> 0 then Inl err
                 else let val = load_word bo buf
                      in Inr (case bo of Little_Endian \<Rightarrow> val | Big_Endian \<Rightarrow> drop_bit (unat (arg_bitshift a)) val))"
| "fetch_arg env bo ctx Other_Arg_Type a = Inl (- EINVAL)"

definition cast_arg :: "bpf_usdt_arg_spec \<Rightarrow> u64 \<Rightarrow> u64" where
  "cast_arg a val =
     (let val = push_bit (unat (arg_bitshift a)) val
      in if arg_signed a then signed_drop_bit (unat (arg_bitshift a)) val
         else drop_bit (unat (arg_bitshift a)) val)"

text \<open>The result and what is left in \<open>*res\<close>.\<close>

definition bpf_usdt_arg :: "kenv \<Rightarrow> byte_order \<Rightarrow> usdt_env \<Rightarrow> u64 \<Rightarrow> int \<times> u64" where
  "bpf_usdt_arg env bo ue arg_num =
     (case find_spec ue of
        None \<Rightarrow> (- ESRCH, 0)
      | Some spec \<Rightarrow>
          if of_nat BPF_USDT_MAX_ARG_CNT \<le> arg_num \<or> scast (arg_cnt spec) \<le> arg_num then (- ENOENT, 0)
          else let a = usdt_args_of spec ! unat arg_num
               in case fetch_arg env bo (usdt_ctx ue) (arg_type a) a of
                    Inl err \<Rightarrow> (err, 0)
                  | Inr val \<Rightarrow> (0, cast_arg a val))"

definition bpf_usdt_cookie :: "usdt_env \<Rightarrow> u64" where
  "bpf_usdt_cookie ue = (case find_spec ue of None \<Rightarrow> 0 | Some spec \<Rightarrow> usdt_cookie spec)"

text \<open>\<open>___bpf_usdt_args\<open>n\<close>\<close> and \<open>BPF_USDT\<close>: up to twelve parameters, errors ignored.\<close>

definition bpf_usdt_args :: "kenv \<Rightarrow> byte_order \<Rightarrow> usdt_env \<Rightarrow> nat \<Rightarrow> u64 list option" where
  "bpf_usdt_args env bo ue n =
     (if n \<le> 12 then Some (map (\<lambda>i. snd (bpf_usdt_arg env bo ue (of_nat i))) [0..<n]) else None)"

definition BPF_USDT :: "kenv \<Rightarrow> byte_order \<Rightarrow> usdt_env \<Rightarrow> nat \<Rightarrow> (u64 list \<Rightarrow> 'r) \<Rightarrow> 'r option" where
  "BPF_USDT env bo ue n body = map_option body (bpf_usdt_args env bo ue n)"

section \<open>Lemmas\<close>

lemma shift_pair_unsigned: "n \<le> 64 \<Longrightarrow> drop_bit (64 - n) (push_bit (64 - n) (v :: u64)) = take_bit n v"
  by (rule bit_eqI) (auto simp: bit_simps)

lemma shift_pair_signed:
  "0 < n \<Longrightarrow> n \<le> 64 \<Longrightarrow> signed_drop_bit (64 - n) (push_bit (64 - n) (v :: u64)) = signed_take_bit (n - 1) v"
proof (rule bit_eqI)
  fix i
  assume n: "0 < n" "n \<le> 64" and "possible_bit TYPE(u64) i"
  then have i: "i < 64" by simp
  show "bit (signed_drop_bit (64 - n) (push_bit (64 - n) v)) i = bit (signed_take_bit (n - 1) v) i"
  proof (cases "i < n")
    case True
    with n have "min i (n - 1) = i" by linarith
    with True n i show ?thesis
      by (auto simp: bit_signed_drop_bit_iff bit_signed_take_bit_iff bit_push_bit_iff)
  next
    case False
    with n i show ?thesis
      by (auto simp: bit_signed_drop_bit_iff bit_signed_take_bit_iff bit_push_bit_iff min_def)
  qed
qed

lemma cast_arg_width:
  assumes "0 < n" and "n \<le> 64" and "unat (arg_bitshift a) = 64 - n"
  shows "cast_arg a v = (if arg_signed a then signed_take_bit (n - 1) v else take_bit n v)"
  using assms by (simp add: cast_arg_def shift_pair_unsigned shift_pair_signed)

text \<open>Where the argument is, read from memory.\<close>

fun located_value :: "(u64 \<Rightarrow> u8) \<Rightarrow> (u64 \<Rightarrow> u8) \<Rightarrow> u64 \<Rightarrow> bpf_usdt_arg_spec \<Rightarrow> bpf_usdt_arg_type \<Rightarrow> u64" where
  "located_value umem kmem ctx a BPF_USDT_ARG_CONST = val_off a"
| "located_value umem kmem ctx a BPF_USDT_ARG_REG = le_word (mem_bytes kmem (ctx + scast (reg_off a)) 8)"
| "located_value umem kmem ctx a BPF_USDT_ARG_REG_DEREF =
     le_word (mem_bytes umem (le_word (mem_bytes kmem (ctx + scast (reg_off a)) 8) + val_off a) 8)"
| "located_value umem kmem ctx a Other_Arg_Type = 0"

context bpf_helpers
begin

lemma fetch_located:
  assumes "fetch_arg env Little_Endian ctx t a = Inr v"
  shows "v = located_value umem kmem ctx a t"
proof -
  have k: "b = mem_bytes kmem p 8" if "k_read_kernel env 8 (k_stack env 8) p = (0, b)" for p b
    using kernel_ok [of 8 "k_stack env 8" p] that by (simp add: stack_length)
  have u: "b = mem_bytes umem p 8" if "k_read_user env 8 (mem_bytes kmem q 8) p = (0, b)" for p q b
    using user_ok [of 8 "mem_bytes kmem q 8" p] that by (simp add: mem_bytes_def)
  show ?thesis
    using assms by (cases t) (auto simp: Let_def split: prod.splits if_splits dest!: k dest: u)
qed

lemma fetch_error: "fetch_arg env bo ctx t a = Inl e \<Longrightarrow> e < 0"
  using kernel_result user_result
  by (cases t) (auto simp: Let_def EINVAL_def split: prod.splits if_splits dest!: arg_cong [where f = fst]
      intro!: le_neq_trans)

end

section \<open>Properties\<close>

text \<open>
  (C31) \<open>bpf_usdt_arg\<close>.  It fails with a negative error and a zero result, or returns 0 and the value found where the
  specification says, cut to its \<open>n\<close> bits and sign-extended exactly when it is declared signed; an argument
  number is accepted only below both the array's size and the specification's count, so no entry outside the array is read.
\<close>

theorem usdt_arg_correct:
  assumes "bpf_helpers env umem kmem" and "bpf_usdt_arg env Little_Endian ue arg_num = (err, res)"
  shows "(err \<noteq> 0 \<longrightarrow> err < 0 \<and> res = 0) \<and>
    (err = 0 \<longrightarrow> (\<exists>spec. find_spec ue = Some spec \<and> unat arg_num < BPF_USDT_MAX_ARG_CNT \<and>
       arg_num < scast (arg_cnt spec) \<and>
       (let a = usdt_args_of spec ! unat arg_num; v = located_value umem kmem (usdt_ctx ue) a (arg_type a)
        in \<forall>n. 0 < n \<and> n \<le> 64 \<and> unat (arg_bitshift a) = 64 - n \<longrightarrow>
             res = (if arg_signed a then signed_take_bit (n - 1) v else take_bit n v))))"
proof (cases "find_spec ue")
  case None
  with assms(2) show ?thesis by (auto simp: bpf_usdt_arg_def ESRCH_def)
next
  case (Some spec)
  let ?a = "usdt_args_of spec ! unat arg_num"
  consider "(err, res) = (- ENOENT, 0)"
    | e where "fetch_arg env Little_Endian (usdt_ctx ue) (arg_type ?a) ?a = Inl e" "(err, res) = (e, 0)"
    | v where "fetch_arg env Little_Endian (usdt_ctx ue) (arg_type ?a) ?a = Inr v" "(err, res) = (0, cast_arg ?a v)"
        "\<not> of_nat BPF_USDT_MAX_ARG_CNT \<le> arg_num" "\<not> scast (arg_cnt spec) \<le> arg_num"
    using assms(2) Some by (auto simp: bpf_usdt_arg_def Let_def split: if_splits sum.splits)
  then show ?thesis
  proof cases
    case 1
    then show ?thesis by (simp add: ENOENT_def)
  next
    case (2 e)
    with bpf_helpers.fetch_error [OF assms(1)] show ?thesis by fastforce
  next
    case (3 v)
    then have "unat arg_num < BPF_USDT_MAX_ARG_CNT"
      by (simp add: BPF_USDT_MAX_ARG_CNT_def word_le_nat_alt not_le)
    moreover have "v = located_value umem kmem (usdt_ctx ue) ?a (arg_type ?a)"
      by (rule bpf_helpers.fetch_located [OF assms(1) 3(1)])
    ultimately show ?thesis using 3(2,4) Some by (simp add: Let_def cast_arg_width not_le)
  qed
qed

text \<open>A four-byte signed argument behind register 8 plus 16.\<close>

theorem usdt_arg_correct_witness:
  "let env = ref_kenv (\<lambda>_. True) 0 0 [] (\<lambda>_. 0xfe) (\<lambda>_. 0);
       a = \<lparr>val_off = 16, arg_type = BPF_USDT_ARG_REG_DEREF, reg_off = 8, arg_signed = True, arg_bitshift = 32\<rparr>;
       spec = \<lparr>usdt_args_of = [a], usdt_cookie = 0, arg_cnt = 1\<rparr>;
       ue = \<lparr>usdt_specs = [0 \<mapsto> spec], usdt_ip_to_spec_id = Map.empty, LINUX_HAS_BPF_COOKIE = True,
             attach_cookie = 0, usdt_ctx = 0, usdt_ip = 0\<rparr>
   in fst (bpf_usdt_arg env Little_Endian ue 0) = 0 \<and>
      snd (bpf_usdt_arg env Little_Endian ue 0) = signed_take_bit 31 0xfefefefefefefefe \<and>
      fst (bpf_usdt_arg env Little_Endian ue 1) < 0 \<and> snd (bpf_usdt_arg env Little_Endian ue 1) = 0"
proof -
  let ?env = "ref_kenv (\<lambda>_. True) 0 0 [] (\<lambda>_. 0xfe) (\<lambda>_. 0)"
  let ?a = "\<lparr>val_off = 16, arg_type = BPF_USDT_ARG_REG_DEREF, reg_off = 8, arg_signed = True, arg_bitshift = 32\<rparr>"
  let ?spec = "\<lparr>usdt_args_of = [?a], usdt_cookie = 0, arg_cnt = 1\<rparr>"
  let ?ue = "\<lparr>usdt_specs = [0 \<mapsto> ?spec], usdt_ip_to_spec_id = Map.empty, LINUX_HAS_BPF_COOKIE = True,
             attach_cookie = 0, usdt_ctx = 0, usdt_ip = 0\<rparr>"
  have spec: "find_spec ?ue = Some ?spec" by (simp add: find_spec_def bpf_usdt_spec_id_def)
  have ok: "fst (bpf_usdt_arg ?env Little_Endian ?ue 0) = 0"
    by (simp add: bpf_usdt_arg_def spec BPF_USDT_MAX_ARG_CNT_def ref_kenv_def)
  have bad: "fst (bpf_usdt_arg ?env Little_Endian ?ue 1) = -2"
    by (simp add: bpf_usdt_arg_def spec BPF_USDT_MAX_ARG_CNT_def ENOENT_def)
  have v: "located_value (\<lambda>_. 0xfe) (\<lambda>_. 0) 0 ?a (arg_type ?a) = 0xfefefefefefefefe"
  proof -
    have "mem_bytes (\<lambda>_. 0xfe) p 8 = replicate 8 0xfe" for p
      by (simp add: mem_bytes_def map_replicate_const)
    moreover have "(8::nat) = Suc (Suc (Suc (Suc (Suc (Suc (Suc (Suc 0)))))))" by simp
    ultimately show ?thesis by (simp only: replicate.simps bpf_usdt_arg_spec.simps located_value.simps) (simp add: le_word_def)
  qed
  note thm0 = usdt_arg_correct [OF ref_kenv.bpf_helpers_axioms surjective_pairing, where ue = ?ue]
  have "snd (bpf_usdt_arg ?env Little_Endian ?ue 0) = signed_take_bit 31 0xfefefefefefefefe"
    using thm0 [of "\<lambda>_. True" 0 0 "[]" "\<lambda>_. 0xfe" "\<lambda>_. 0" 0] ok v by (auto simp: spec Let_def dest: HOL.spec [of _ 32])
  moreover have "snd (bpf_usdt_arg ?env Little_Endian ?ue 1) = 0"
    using thm0 [of "\<lambda>_. True" 0 0 "[]" "\<lambda>_. 0xfe" "\<lambda>_. 0" 1] bad by simp
  ultimately show ?thesis using ok bad by (simp only: Let_def) simp
qed

end
