(* ===== verification/Xsk.thy ===== *)
theory Xsk
  imports Prelude
begin

unbundle bit_operations_syntax

text \<open>
  \<open>xsk.h\<close>: the lock-free rings an \<open>AF_XDP\<close> socket shares with the kernel.  A ring has a
  producer and a consumer index, free-running 32-bit counters in shared memory, and
  each side keeps cached copies.  The theory has the operations of both sides, a step
  relation in which a producer and a consumer on one ring interleave, and the proof
  that the ring is a bounded first-in-first-out queue, also when the counters wrap.
\<close>

section \<open>Rings\<close>

text \<open>\<open>DEFINE_XSK_RING\<close>: the descriptor of one side; \<open>ring\<close> is the address of the first entry.\<close>

record xsk_ring =
  cached_prod :: u32
  cached_cons :: u32
  mask :: u32
  size :: u32
  ring :: u64

type_synonym xsk_ring_prod = xsk_ring
type_synonym xsk_ring_cons = xsk_ring

text \<open>What \<open>producer\<close>, \<open>consumer\<close> and \<open>flags\<close> point to, and the descriptors in the ring.\<close>

record xdp_desc =
  addr :: u64
  len :: u32
  options :: u32

record xsk_shared =
  producer :: u32
  consumer :: u32
  flags :: u32
  descs :: "u64 \<Rightarrow> xdp_desc"

section \<open>Operations\<close>

definition xsk_ring_prod__fill_addr :: "xsk_ring_prod \<Rightarrow> u32 \<Rightarrow> u64" where
  "xsk_ring_prod__fill_addr fill idx = ring fill + 8 * ucast (idx AND mask fill)"

definition xsk_ring_cons__comp_addr :: "xsk_ring_cons \<Rightarrow> u32 \<Rightarrow> u64" where
  "xsk_ring_cons__comp_addr c idx = ring c + 8 * ucast (idx AND mask c)"

definition xsk_ring_prod__tx_desc :: "xsk_ring_prod \<Rightarrow> u32 \<Rightarrow> u64" where
  "xsk_ring_prod__tx_desc tx idx = ring tx + 16 * ucast (idx AND mask tx)"

definition xsk_ring_cons__rx_desc :: "xsk_ring_cons \<Rightarrow> u32 \<Rightarrow> u64" where
  "xsk_ring_cons__rx_desc rx idx = ring rx + 16 * ucast (idx AND mask rx)"

definition XDP_RING_NEED_WAKEUP :: u32 where "XDP_RING_NEED_WAKEUP = 1"

definition xsk_ring_prod__needs_wakeup :: "xsk_shared \<Rightarrow> i32" where
  "xsk_ring_prod__needs_wakeup sh = flags sh AND XDP_RING_NEED_WAKEUP"

definition xsk_prod_nb_free :: "xsk_shared \<Rightarrow> xsk_ring_prod \<Rightarrow> u32 \<Rightarrow> u32 \<times> xsk_ring_prod" where
  "xsk_prod_nb_free sh r nb =
     (let free_entries = cached_cons r - cached_prod r
      in if nb \<le> free_entries then (free_entries, r)
         else let r = r\<lparr>cached_cons := consumer sh\<rparr>;
                  r = r\<lparr>cached_cons := cached_cons r + size r\<rparr>
              in (cached_cons r - cached_prod r, r))"

definition xsk_cons_nb_avail :: "xsk_shared \<Rightarrow> xsk_ring_cons \<Rightarrow> u32 \<Rightarrow> u32 \<times> xsk_ring_cons" where
  "xsk_cons_nb_avail sh r nb =
     (let entries = cached_prod r - cached_cons r;
          (entries, r) = (if entries = 0 then let r = r\<lparr>cached_prod := producer sh\<rparr> in (cached_prod r - cached_cons r, r)
                          else (entries, r))
      in (if nb < entries then nb else entries, r))"

text \<open>The result, \<open>*idx\<close> when it is written, and the descriptor.\<close>

definition xsk_ring_prod__reserve :: "xsk_shared \<Rightarrow> xsk_ring_prod \<Rightarrow> u32 \<Rightarrow> u32 \<times> u32 option \<times> xsk_ring_prod" where
  "xsk_ring_prod__reserve sh pr nb =
     (let (free, pr) = xsk_prod_nb_free sh pr nb
      in if free < nb then (0, None, pr)
         else (nb, Some (cached_prod pr), pr\<lparr>cached_prod := cached_prod pr + nb\<rparr>))"

definition xsk_ring_prod__submit :: "xsk_shared \<Rightarrow> u32 \<Rightarrow> xsk_shared" where
  "xsk_ring_prod__submit sh nb = sh\<lparr>producer := producer sh + nb\<rparr>"

definition xsk_ring_cons__peek :: "xsk_shared \<Rightarrow> xsk_ring_cons \<Rightarrow> u32 \<Rightarrow> u32 \<times> u32 option \<times> xsk_ring_cons" where
  "xsk_ring_cons__peek sh cons nb =
     (let (entries, cons) = xsk_cons_nb_avail sh cons nb
      in if 0 < entries then (entries, Some (cached_cons cons), cons\<lparr>cached_cons := cached_cons cons + entries\<rparr>)
         else (entries, None, cons))"

definition xsk_ring_cons__cancel :: "xsk_ring_cons \<Rightarrow> u32 \<Rightarrow> xsk_ring_cons" where
  "xsk_ring_cons__cancel cons nb = cons\<lparr>cached_cons := cached_cons cons - nb\<rparr>"

definition xsk_ring_cons__release :: "xsk_shared \<Rightarrow> u32 \<Rightarrow> xsk_shared" where
  "xsk_ring_cons__release sh nb = sh\<lparr>consumer := consumer sh + nb\<rparr>"

definition xsk_umem__get_data :: "u64 \<Rightarrow> u64 \<Rightarrow> u64" where
  "xsk_umem__get_data umem_area a = umem_area + a"

definition XSK_UNALIGNED_BUF_OFFSET_SHIFT :: nat where "XSK_UNALIGNED_BUF_OFFSET_SHIFT = 48"

definition XSK_UNALIGNED_BUF_ADDR_MASK :: u64 where
  "XSK_UNALIGNED_BUF_ADDR_MASK = push_bit XSK_UNALIGNED_BUF_OFFSET_SHIFT 1 - 1"

definition xsk_umem__extract_addr :: "u64 \<Rightarrow> u64" where
  "xsk_umem__extract_addr a = a AND XSK_UNALIGNED_BUF_ADDR_MASK"

definition xsk_umem__extract_offset :: "u64 \<Rightarrow> u64" where
  "xsk_umem__extract_offset a = drop_bit XSK_UNALIGNED_BUF_OFFSET_SHIFT a"

definition xsk_umem__add_offset_to_addr :: "u64 \<Rightarrow> u64" where
  "xsk_umem__add_offset_to_addr a = xsk_umem__extract_addr a + xsk_umem__extract_offset a"

section \<open>A producer and a consumer on one ring\<close>

text \<open>
  The history: how many entries were ever reserved, submitted, peeked and retired,
  as unbounded numbers, and which descriptor was written for each of them.
\<close>

record xsk_sys =
  shared :: xsk_shared
  prod_side :: xsk_ring_prod
  cons_side :: xsk_ring_cons
  reserved :: nat
  submitted :: nat
  peeked :: nat
  retired :: nat
  written :: "nat \<Rightarrow> xdp_desc option"

text \<open>
  Each side follows the protocol of \<open>xsk.h\<close>: it submits at most what it reserved, fills
  only entries it reserved and did not submit, and cancels or releases at most what it
  peeked and did not release.
\<close>

inductive xsk_step :: "xsk_sys \<Rightarrow> xsk_sys \<Rightarrow> bool" where
  reserve: "xsk_ring_prod__reserve (shared s) (prod_side s) nb = (got, idx, p) \<Longrightarrow>
    xsk_step s (s\<lparr>prod_side := p, reserved := reserved s + unat got\<rparr>)"
| fill: "submitted s \<le> i \<Longrightarrow> i < reserved s \<Longrightarrow>
    xsk_step s (s\<lparr>shared := (shared s)\<lparr>descs := (descs (shared s))(xsk_ring_prod__tx_desc (prod_side s) (of_nat i) := d)\<rparr>,
                  written := (written s)(i := Some d)\<rparr>)"
| submit: "submitted s + unat nb \<le> reserved s \<Longrightarrow>
    xsk_step s (s\<lparr>shared := xsk_ring_prod__submit (shared s) nb, submitted := submitted s + unat nb\<rparr>)"
| peek: "xsk_ring_cons__peek (shared s) (cons_side s) nb = (got, idx, c) \<Longrightarrow>
    xsk_step s (s\<lparr>cons_side := c, peeked := peeked s + unat got\<rparr>)"
| cancel: "retired s + unat nb \<le> peeked s \<Longrightarrow>
    xsk_step s (s\<lparr>cons_side := xsk_ring_cons__cancel (cons_side s) nb, peeked := peeked s - unat nb\<rparr>)"
| release: "retired s + unat nb \<le> peeked s \<Longrightarrow>
    xsk_step s (s\<lparr>shared := xsk_ring_cons__release (shared s) nb, retired := retired s + unat nb\<rparr>)"

text \<open>
  A new ring of \<open>2 ^ k\<close> entries: the indices are zero, and the producer's \<open>cached_cons\<close> is one
  size bigger than the consumer index, as the comment in \<open>xsk_prod_nb_free\<close> demands.
\<close>

definition xsk_init :: "nat \<Rightarrow> u64 \<Rightarrow> (u64 \<Rightarrow> xdp_desc) \<Rightarrow> xsk_sys" where
  "xsk_init k base mem =
     \<lparr>shared = \<lparr>producer = 0, consumer = 0, flags = 0, descs = mem\<rparr>,
      prod_side = \<lparr>cached_prod = 0, cached_cons = 2 ^ k, mask = 2 ^ k - 1, size = 2 ^ k, ring = base\<rparr>,
      cons_side = \<lparr>cached_prod = 0, cached_cons = 0, mask = 2 ^ k - 1, size = 2 ^ k, ring = base\<rparr>,
      reserved = 0, submitted = 0, peeked = 0, retired = 0, written = Map.empty\<rparr>"

definition xsk_reachable :: "nat \<Rightarrow> u64 \<Rightarrow> (u64 \<Rightarrow> xdp_desc) \<Rightarrow> xsk_sys \<Rightarrow> bool" where
  "xsk_reachable k base mem = xsk_step\<^sup>*\<^sup>* (xsk_init k base mem)"


section \<open>Word arithmetic of free-running counters\<close>

lemma counter_diff: "b \<le> a \<Longrightarrow> a - b < 2 ^ 32 \<Longrightarrow> unat (of_nat a - of_nat b :: u32) = a - b"
  by (simp add: unat_of_nat flip: of_nat_diff)

text \<open>Entries less than one size apart have different slots.\<close>

lemma slot_number: "k < 32 \<Longrightarrow> unat (of_nat i AND (2 ^ k - 1) :: u32) = i mod 2 ^ k"
proof -
  assume k: "k < 32"
  have "(of_nat i AND (2 ^ k - 1) :: u32) = take_bit k (of_nat i)"
    by (simp add: take_bit_eq_mask mask_eq_exp_minus_1)
  also have "unat \<dots> = take_bit k (i mod 2 ^ 32)"
    by (simp add: unsigned_take_bit_eq unat_of_nat)
  also have "\<dots> = i mod 2 ^ k"
    using k le_imp_power_dvd [of k 32 "2 :: nat"] by (simp only: take_bit_eq_mod mod_mod_cancel)
  finally show ?thesis .
qed

lemma mod_window:
  assumes "c \<le> i" and "i < c + n" and "c \<le> j" and "j < c + n" and "i mod n = j mod (n :: nat)"
  shows "i = j"
proof (rule ccontr)
  assume "i \<noteq> j"
  then consider "i < j" | "j < i" by linarith
  then show False
  proof cases
    case 1
    then have "n dvd j - i" using mod_eq_dvd_iff_nat [of i j n] assms(5) by simp
    with 1 assms show False by (auto dest: dvd_imp_le)
  next
    case 2
    then have "n dvd i - j" using mod_eq_dvd_iff_nat [of j i n] assms(5) by simp
    with 2 assms show False by (auto dest: dvd_imp_le)
  qed
qed

definition slot :: "nat \<Rightarrow> u64 \<Rightarrow> nat \<Rightarrow> u64" where
  "slot k base i = base + 16 * ucast (of_nat i AND (2 ^ k - 1) :: u32)"

lemma slot_inj:
  assumes "k < 32" and "slot k base i = slot k base j"
  shows "i mod 2 ^ k = j mod 2 ^ k"
proof -
  let ?w = "\<lambda>i. of_nat i AND (2 ^ k - 1) :: u32"
  have "unat (16 * ucast (?w i) :: u64) = 16 * unat (?w i)" for i
    using unsigned_less [of "?w i", where 'a = nat] by (simp add: unat_word_ariths unsigned_ucast_eq take_bit_eq_mod)
  moreover have "(16 * ucast (?w i) :: u64) = 16 * ucast (?w j)" using assms(2) by (simp add: slot_def)
  ultimately have "unat (?w i) = unat (?w j)" by (metis mult_left_cancel zero_neq_numeral)
  then show ?thesis using assms(1) by (simp add: slot_number)
qed


section \<open>The invariant\<close>

text \<open>
  The indices in shared memory and in the descriptors are the counts of the history
  modulo \<open>2 ^ 32\<close>; the cached copies of the other side's index may be old, but never
  so old that a side would use an entry the other one still owns.
\<close>

definition ring_shape :: "nat \<Rightarrow> u64 \<Rightarrow> xsk_ring \<Rightarrow> bool" where
  "ring_shape k base r \<longleftrightarrow> mask r = 2 ^ k - 1 \<and> size r = 2 ^ k \<and> ring r = base"

definition xsk_counts :: "nat \<Rightarrow> xsk_sys \<Rightarrow> bool" where
  "xsk_counts k s \<longleftrightarrow> retired s \<le> peeked s \<and> peeked s \<le> submitted s \<and> submitted s \<le> reserved s \<and>
     reserved s \<le> retired s + 2 ^ k"

definition prod_ok :: "nat \<Rightarrow> xsk_sys \<Rightarrow> bool" where
  "prod_ok k s \<longleftrightarrow> cached_prod (prod_side s) = of_nat (reserved s) \<and>
     (\<exists>c0 \<le> retired s. cached_cons (prod_side s) = of_nat (c0 + 2 ^ k) \<and> reserved s \<le> c0 + 2 ^ k)"

definition cons_ok :: "xsk_sys \<Rightarrow> bool" where
  "cons_ok s \<longleftrightarrow> cached_cons (cons_side s) = of_nat (peeked s) \<and>
     (\<exists>p0 \<le> submitted s. peeked s \<le> p0 \<and> cached_prod (cons_side s) = of_nat p0)"

definition contents_ok :: "nat \<Rightarrow> u64 \<Rightarrow> xsk_sys \<Rightarrow> bool" where
  "contents_ok k base s \<longleftrightarrow> (\<forall>i d. retired s \<le> i \<and> i < reserved s \<and> written s i = Some d \<longrightarrow>
     descs (shared s) (slot k base i) = d) \<and> (\<forall>i \<ge> reserved s. written s i = None)"

definition xsk_inv :: "nat \<Rightarrow> u64 \<Rightarrow> xsk_sys \<Rightarrow> bool" where
  "xsk_inv k base s \<longleftrightarrow> ring_shape k base (prod_side s) \<and> ring_shape k base (cons_side s) \<and> xsk_counts k s \<and>
     producer (shared s) = of_nat (submitted s) \<and> consumer (shared s) = of_nat (retired s) \<and>
     prod_ok k s \<and> cons_ok s \<and> contents_ok k base s"

lemma inv_init: "xsk_inv k base (xsk_init k base mem)"
  by (simp add: xsk_inv_def xsk_init_def ring_shape_def xsk_counts_def prod_ok_def cons_ok_def contents_ok_def)

text \<open>What \<open>reserve\<close> and \<open>peek\<close> return in such a state.\<close>

lemma pow_less: "k < 32 \<Longrightarrow> (2 :: nat) ^ k < 2 ^ 32"
  by (rule power_strict_increasing) simp_all

lemma nb_free:
  assumes "k < 32" and "xsk_inv k base s" and "xsk_prod_nb_free (shared s) (prod_side s) nb = (free, p)"
  shows "(nb \<le> free \<longleftrightarrow> reserved s + unat nb \<le> retired s + 2 ^ k) \<and>
    (\<exists>c0 \<le> retired s. p = (prod_side s)\<lparr>cached_cons := of_nat (c0 + 2 ^ k)\<rparr> \<and> unat free = c0 + 2 ^ k - reserved s \<and>
       reserved s \<le> c0 + 2 ^ k)"
proof -
  from assms(2) obtain c0 where c0: "c0 \<le> retired s" "cached_cons (prod_side s) = of_nat (c0 + 2 ^ k)"
      "reserved s \<le> c0 + 2 ^ k" and cp: "cached_prod (prod_side s) = of_nat (reserved s)"
    and sz: "size (prod_side s) = of_nat (2 ^ k)" and cons: "consumer (shared s) = of_nat (retired s)"
    and cnt: "xsk_counts k s"
    by (auto simp: xsk_inv_def prod_ok_def ring_shape_def)
  have rel: "retired s \<le> reserved s" "reserved s \<le> retired s + 2 ^ k" using cnt by (auto simp: xsk_counts_def)
  have diff: "unat (of_nat (c + 2 ^ k) - of_nat (reserved s) :: u32) = c + 2 ^ k - reserved s"
    if "c \<le> retired s" "reserved s \<le> c + 2 ^ k" for c
    using pow_less [OF assms(1)] that rel by (intro counter_diff) auto
  show ?thesis
  proof (cases "nb \<le> cached_cons (prod_side s) - cached_prod (prod_side s)")
    case True
    with assms(3) have p: "p = prod_side s" "free = of_nat (c0 + 2 ^ k) - of_nat (reserved s)"
      by (auto simp: xsk_prod_nb_free_def c0 cp)
    then have "unat free = c0 + 2 ^ k - reserved s" using diff [OF c0(1,3)] by simp
    moreover have "nb \<le> free" using True p c0 cp by simp
    ultimately show ?thesis using c0 p by (auto simp: word_le_nat_alt intro!: exI [of _ c0])
  next
    case False
    with assms(3) have p: "p = (prod_side s)\<lparr>cached_cons := of_nat (retired s + 2 ^ k)\<rparr>"
        "free = of_nat (retired s + 2 ^ k) - of_nat (reserved s)"
      by (auto simp: xsk_prod_nb_free_def Let_def sz cons cp)
    then have "unat free = retired s + 2 ^ k - reserved s" using diff rel by simp
    with p rel show ?thesis by (auto simp: word_le_nat_alt)
  qed
qed


lemma reserve_result:
  assumes "k < 32" and "xsk_inv k base s" and "xsk_ring_prod__reserve (shared s) (prod_side s) nb = (got, idx, p)"
  shows "(if reserved s + unat nb \<le> retired s + 2 ^ k then got = nb \<and> idx = Some (of_nat (reserved s))
          else got = 0 \<and> idx = None) \<and>
    (\<exists>c0 \<le> retired s. p = (prod_side s)\<lparr>cached_cons := of_nat (c0 + 2 ^ k), cached_prod := of_nat (reserved s + unat got)\<rparr> \<and>
       reserved s + unat got \<le> c0 + 2 ^ k)"
proof -
  obtain free q where fq: "xsk_prod_nb_free (shared s) (prod_side s) nb = (free, q)" by fastforce
  from nb_free [OF assms(1,2) fq] obtain c0 where free: "nb \<le> free \<longleftrightarrow> reserved s + unat nb \<le> retired s + 2 ^ k"
    and c0: "c0 \<le> retired s" "q = (prod_side s)\<lparr>cached_cons := of_nat (c0 + 2 ^ k)\<rparr>"
      "unat free = c0 + 2 ^ k - reserved s" "reserved s \<le> c0 + 2 ^ k" by blast
  have cp: "cached_prod (prod_side s) = of_nat (reserved s)" using assms(2) by (simp add: xsk_inv_def prod_ok_def)
  show ?thesis
  proof (cases "nb \<le> free")
    case True
    then have "\<not> free < nb" by simp
    then have res: "got = nb" "idx = Some (of_nat (reserved s))" "p = q\<lparr>cached_prod := of_nat (reserved s) + nb\<rparr>"
      using assms(3) c0(2) by (auto simp: xsk_ring_prod__reserve_def fq cp)
    have "reserved s + unat got \<le> c0 + 2 ^ k" using True res(1) c0(3,4) by (simp add: word_le_nat_alt)
    with True res c0 free show ?thesis by auto
  next
    case False
    then have "free < nb" by simp
    then have res: "got = 0" "idx = None" "p = q"
      using assms(3) by (auto simp: xsk_ring_prod__reserve_def fq)
    have "prod_side s = (prod_side s)\<lparr>cached_prod := of_nat (reserved s)\<rparr>" using cp by (metis xsk_ring.surjective xsk_ring.update_convs(1) xsk_ring.select_convs(1))
    with False res c0 free cp show ?thesis by (auto intro!: exI [of _ c0])
  qed
qed

lemma peek_avail:
  "xsk_cons_nb_avail sh r nb = (e, r') \<Longrightarrow>
   xsk_ring_cons__peek sh r nb =
     (e, if e = 0 then None else Some (cached_cons r'), r'\<lparr>cached_cons := cached_cons r' + e\<rparr>)"
  by (cases r') (auto simp: xsk_ring_cons__peek_def word_greater_zero_iff)

lemma peek_result:
  assumes "k < 32" and "xsk_inv k base s" and "xsk_ring_cons__peek (shared s) (cons_side s) nb = (got, idx, c)"
  shows "got \<le> nb \<and> idx = (if got = 0 then None else Some (of_nat (peeked s))) \<and>
    (got = 0 \<and> nb \<noteq> 0 \<longrightarrow> peeked s = submitted s) \<and>
    (\<exists>p0 \<le> submitted s. peeked s + unat got \<le> p0 \<and>
       c = (cons_side s)\<lparr>cached_prod := of_nat p0, cached_cons := of_nat (peeked s + unat got)\<rparr>)"
proof -
  from assms(2) obtain p0 where p0: "p0 \<le> submitted s" "peeked s \<le> p0" "cached_prod (cons_side s) = of_nat p0"
    and cc: "cached_cons (cons_side s) = of_nat (peeked s)" and pr: "producer (shared s) = of_nat (submitted s)"
    and cnt: "xsk_counts k s"
    by (auto simp: xsk_inv_def cons_ok_def)
  have rel: "retired s \<le> peeked s" "peeked s \<le> submitted s" "submitted s \<le> retired s + 2 ^ k"
    using cnt by (auto simp: xsk_counts_def)
  have diff: "unat (of_nat q - of_nat (peeked s) :: u32) = q - peeked s" if "peeked s \<le> q" "q \<le> submitted s" for q
    using pow_less [OF assms(1)] that rel by (intro counter_diff) auto
  define q where "q = (if p0 = peeked s then submitted s else p0)"
  have q: "q \<le> submitted s" "peeked s \<le> q" using p0 rel by (auto simp: q_def)
  let ?e = "of_nat q - of_nat (peeked s) :: u32"
  let ?c = "(cons_side s)\<lparr>cached_prod := of_nat q\<rparr>"
  define g where "g = (if nb < ?e then nb else ?e)"
  have "of_nat p0 - of_nat (peeked s) = (0 :: u32) \<longleftrightarrow> p0 = peeked s"
    using diff [OF p0(2,1)] p0 by (auto simp: unat_eq_zero [symmetric] simp del: unat_eq_zero)
  moreover have "cons_side s = (cons_side s)\<lparr>cached_prod := of_nat p0\<rparr>"
    using p0(3) by (metis xsk_ring.surjective xsk_ring.update_convs(1) xsk_ring.select_convs(1))
  ultimately have avail: "xsk_cons_nb_avail (shared s) (cons_side s) nb = (g, ?c)"
    by (auto simp: g_def xsk_cons_nb_avail_def Let_def q_def p0(3) cc pr)
  have e: "unat ?e = q - peeked s" using diff q by blast
  have got: "got = g" "idx = (if g = 0 then None else Some (of_nat (peeked s)))"
      "c = ?c\<lparr>cached_cons := of_nat (peeked s) + g\<rparr>"
    using assms(3) unfolding peek_avail [OF avail] by (auto simp: cc)
  have "peeked s + unat g \<le> q" using e q by (auto simp: g_def word_less_nat_alt)
  moreover have "g \<le> nb" by (simp add: g_def not_less)
  moreover have "peeked s = submitted s" if "g = 0" "nb \<noteq> 0"
    using that e q by (auto simp: g_def q_def split: if_splits)
  ultimately show ?thesis using q got by (auto intro!: exI [of _ q])
qed

section \<open>Every step keeps the invariant\<close>

lemmas inv_defs = xsk_inv_def ring_shape_def xsk_counts_def prod_ok_def cons_ok_def contents_ok_def

lemma tx_slot: "ring_shape k base r \<Longrightarrow> xsk_ring_prod__tx_desc r (of_nat i) = slot k base i"
  by (simp add: xsk_ring_prod__tx_desc_def slot_def ring_shape_def)

lemma rx_slot: "ring_shape k base r \<Longrightarrow> xsk_ring_cons__rx_desc r (of_nat i) = slot k base i"
  by (simp add: xsk_ring_cons__rx_desc_def slot_def ring_shape_def)

lemma inv_step:
  assumes "k < 32" and "xsk_step s t" and "xsk_inv k base s"
  shows "xsk_inv k base t"
  using assms(2)
proof cases
  case (reserve nb got idx p)
  from reserve_result [OF assms(1,3) reserve(2)] obtain c0 where "c0 \<le> retired s"
    "p = (prod_side s)\<lparr>cached_cons := of_nat (c0 + 2 ^ k), cached_prod := of_nat (reserved s + unat got)\<rparr>"
    "reserved s + unat got \<le> c0 + 2 ^ k" by blast
  moreover have "i < reserved s" if "written s i = Some d" for i d
    using that assms(3) by (metis contents_ok_def xsk_inv_def not_le option.distinct(1))
  ultimately show ?thesis using reserve(1) assms(3) by (auto simp: inv_defs)
next
  case (fill i d)
  have shape: "ring_shape k base (prod_side s)" using assms(3) by (simp add: xsk_inv_def)
  have "slot k base j \<noteq> slot k base i" if "retired s \<le> j" "j < reserved s" "j \<noteq> i" for j
    using slot_inj [OF assms(1), of base j i] mod_window [of "retired s" j "2 ^ k" i] that fill(2,3) assms(3)
    by (auto simp: xsk_inv_def xsk_counts_def)
  then show ?thesis using fill assms(3) tx_slot [OF shape] by (auto simp: inv_defs)
next
  case (submit nb)
  with assms(3) show ?thesis by (auto simp: inv_defs xsk_ring_prod__submit_def) (metis trans_le_add1)
next
  case (peek nb got idx c)
  from peek_result [OF assms(1,3) peek(2)] obtain p0 where "p0 \<le> submitted s" "peeked s + unat got \<le> p0"
    "c = (cons_side s)\<lparr>cached_prod := of_nat p0, cached_cons := of_nat (peeked s + unat got)\<rparr>" by blast
  with peek(1) assms(3) show ?thesis by (auto simp: inv_defs)
next
  case (cancel nb)
  with assms(3) show ?thesis by (auto simp: inv_defs xsk_ring_cons__cancel_def of_nat_diff)
next
  case (release nb)
  with assms(3) show ?thesis by (auto simp: inv_defs xsk_ring_cons__release_def) (metis trans_le_add1)
qed

lemma inv_reachable:
  assumes "k < 32" and "xsk_reachable k base mem s"
  shows "xsk_inv k base s"
  using assms(2) unfolding xsk_reachable_def
  by (induction rule: rtranclp_induct) (auto intro: inv_init inv_step [OF assms(1)])


section \<open>Properties\<close>

text \<open>
  (C8) The ring is a bounded FIFO.  However a producer and a consumer interleave and however often the 32-bit indices
  wrap, no more entries are reserved than the ring holds, the consumer never overtakes what was submitted, an entry
  the consumer has not retired still holds the descriptor the producer wrote into it; \<open>reserve\<close> succeeds exactly
  when that many entries are free and then hands out the next ones, and \<open>peek\<close> hands out the oldest entries not yet
  peeked, and none only if there are none.
\<close>

theorem xsk_ring_is_fifo:
  assumes "k < 32" and "xsk_reachable k base mem s"
  shows "retired s \<le> peeked s \<and> peeked s \<le> submitted s \<and> submitted s \<le> reserved s \<and> reserved s \<le> retired s + 2 ^ k \<and>
    (\<forall>i d. retired s \<le> i \<and> i < submitted s \<and> written s i = Some d \<longrightarrow>
       descs (shared s) (xsk_ring_cons__rx_desc (cons_side s) (of_nat i)) = d) \<and>
    (\<forall>nb got idx p. xsk_ring_prod__reserve (shared s) (prod_side s) nb = (got, idx, p) \<longrightarrow>
       (if reserved s + unat nb \<le> retired s + 2 ^ k then got = nb \<and> idx = Some (of_nat (reserved s))
        else got = 0 \<and> idx = None)) \<and>
    (\<forall>nb got idx c. xsk_ring_cons__peek (shared s) (cons_side s) nb = (got, idx, c) \<longrightarrow>
       got \<le> nb \<and> peeked s + unat got \<le> submitted s \<and> idx = (if got = 0 then None else Some (of_nat (peeked s))) \<and>
       (got = 0 \<and> nb \<noteq> 0 \<longrightarrow> peeked s = submitted s))"
proof -
  have inv: "xsk_inv k base s" by (rule inv_reachable [OF assms])
  then have shape: "ring_shape k base (cons_side s)" and cnt: "xsk_counts k s" and cont: "contents_ok k base s"
    by (simp_all add: xsk_inv_def)
  have "descs (shared s) (xsk_ring_cons__rx_desc (cons_side s) (of_nat i)) = d"
    if "retired s \<le> i" "i < submitted s" "written s i = Some d" for i d
    using that cnt cont unfolding rx_slot [OF shape] by (auto simp: xsk_counts_def contents_ok_def)
  with cnt reserve_result [OF assms(1) inv] peek_result [OF assms(1) inv] show ?thesis
    unfolding xsk_counts_def by (blast intro: le_trans)
qed

text \<open>One entry through a ring of two: reserved, filled and submitted, it is what the consumer reads.\<close>

theorem xsk_ring_is_fifo_witness:
  "\<exists>s. xsk_reachable 1 4096 (\<lambda>_. \<lparr>addr = 0, len = 0, options = 0\<rparr>) s \<and> submitted s = 1 \<and>
     descs (shared s) (xsk_ring_cons__rx_desc (cons_side s) 0) = \<lparr>addr = 2048, len = 64, options = 0\<rparr>"
proof -
  let ?d = "\<lparr>addr = 2048, len = 64, options = 0\<rparr>"
  let ?s0 = "xsk_init 1 4096 (\<lambda>_. \<lparr>addr = 0, len = 0, options = 0\<rparr>)"
  obtain got idx p where r: "xsk_ring_prod__reserve (shared ?s0) (prod_side ?s0) 1 = (got, idx, p)" by (rule prod_cases3)
  then have got: "unat got = 1" by (auto simp: xsk_init_def xsk_ring_prod__reserve_def xsk_prod_nb_free_def)
  let ?s1 = "?s0\<lparr>prod_side := p, reserved := reserved ?s0 + unat got\<rparr>"
  let ?s2 = "?s1\<lparr>shared := (shared ?s1)\<lparr>descs := (descs (shared ?s1))(xsk_ring_prod__tx_desc (prod_side ?s1) (of_nat 0) := ?d)\<rparr>,
                  written := (written ?s1)(0 := Some ?d)\<rparr>"
  let ?s3 = "?s2\<lparr>shared := xsk_ring_prod__submit (shared ?s2) 1, submitted := submitted ?s2 + unat (1 :: u32)\<rparr>"
  have "xsk_step ?s0 ?s1" by (rule reserve [OF r])
  moreover have "xsk_step ?s1 ?s2" by (rule fill) (simp_all add: xsk_init_def got)
  moreover have "xsk_step ?s2 ?s3" by (rule submit) (simp add: xsk_init_def got)
  ultimately have reach: "xsk_reachable 1 4096 (\<lambda>_. \<lparr>addr = 0, len = 0, options = 0\<rparr>) ?s3"
    unfolding xsk_reachable_def by (meson r_into_rtranclp rtranclp_trans)
  have fifo: "retired ?s3 \<le> i \<and> i < submitted ?s3 \<and> written ?s3 i = Some d \<longrightarrow>
      descs (shared ?s3) (xsk_ring_cons__rx_desc (cons_side ?s3) (of_nat i)) = d" for i d
    using xsk_ring_is_fifo [OF _ reach] by simp
  have "submitted ?s3 = 1" "retired ?s3 = 0" "written ?s3 0 = Some ?d" by (simp_all add: xsk_init_def)
  with reach fifo [of 0 ?d] show ?thesis by (intro exI [of _ ?s3]) simp
qed

end
