(* ===== verification/Btf.thy ===== *)
theory Btf
  imports Bpf_Env
begin

unbundle bit_operations_syntax

text \<open>
  The inline functions of \<open>btf.h\<close> with which libbpf and its clients look at BTF type
  records: a record is a \<open>struct btf_type\<close> of twelve bytes, followed by data whose form
  depends on the kind packed into its \<open>info\<close> word.  A type pointer is its address;
  \<open>mem\<close> is the memory that holds the BTF data.
\<close>

section \<open>The packed words\<close>

definition BTF_INFO_KIND :: "u32 \<Rightarrow> u32" where "BTF_INFO_KIND info = drop_bit 24 info AND 0x1f"
definition BTF_INFO_VLEN :: "u32 \<Rightarrow> u32" where "BTF_INFO_VLEN info = info AND 0xffff"
definition BTF_INFO_KFLAG :: "u32 \<Rightarrow> u32" where "BTF_INFO_KFLAG info = drop_bit 31 info"

definition BTF_INT_ENCODING :: "u32 \<Rightarrow> u32" where "BTF_INT_ENCODING v = drop_bit 24 (v AND 0x0f000000)"
definition BTF_INT_OFFSET :: "u32 \<Rightarrow> u32" where "BTF_INT_OFFSET v = drop_bit 16 (v AND 0x00ff0000)"
definition BTF_INT_BITS :: "u32 \<Rightarrow> u32" where "BTF_INT_BITS v = v AND 0x000000ff"

definition BTF_MEMBER_BITFIELD_SIZE :: "u32 \<Rightarrow> u32" where "BTF_MEMBER_BITFIELD_SIZE v = drop_bit 24 v"
definition BTF_MEMBER_BIT_OFFSET :: "u32 \<Rightarrow> u32" where "BTF_MEMBER_BIT_OFFSET v = v AND 0xffffff"

section \<open>Kinds\<close>

definition BTF_KIND_UNKN :: u16 where "BTF_KIND_UNKN = 0"
definition BTF_KIND_INT :: u16 where "BTF_KIND_INT = 1"
definition BTF_KIND_PTR :: u16 where "BTF_KIND_PTR = 2"
definition BTF_KIND_ARRAY :: u16 where "BTF_KIND_ARRAY = 3"
definition BTF_KIND_STRUCT :: u16 where "BTF_KIND_STRUCT = 4"
definition BTF_KIND_UNION :: u16 where "BTF_KIND_UNION = 5"
definition BTF_KIND_ENUM :: u16 where "BTF_KIND_ENUM = 6"
definition BTF_KIND_FWD :: u16 where "BTF_KIND_FWD = 7"
definition BTF_KIND_TYPEDEF :: u16 where "BTF_KIND_TYPEDEF = 8"
definition BTF_KIND_VOLATILE :: u16 where "BTF_KIND_VOLATILE = 9"
definition BTF_KIND_CONST :: u16 where "BTF_KIND_CONST = 10"
definition BTF_KIND_RESTRICT :: u16 where "BTF_KIND_RESTRICT = 11"
definition BTF_KIND_FUNC :: u16 where "BTF_KIND_FUNC = 12"
definition BTF_KIND_FUNC_PROTO :: u16 where "BTF_KIND_FUNC_PROTO = 13"
definition BTF_KIND_VAR :: u16 where "BTF_KIND_VAR = 14"
definition BTF_KIND_DATASEC :: u16 where "BTF_KIND_DATASEC = 15"
definition BTF_KIND_FLOAT :: u16 where "BTF_KIND_FLOAT = 16"
definition BTF_KIND_DECL_TAG :: u16 where "BTF_KIND_DECL_TAG = 17"
definition BTF_KIND_TYPE_TAG :: u16 where "BTF_KIND_TYPE_TAG = 18"
definition BTF_KIND_ENUM64 :: u16 where "BTF_KIND_ENUM64 = 19"

definition NR_BTF_KINDS :: nat where "NR_BTF_KINDS = 20"

lemmas btf_kinds = BTF_KIND_UNKN_def BTF_KIND_INT_def BTF_KIND_PTR_def BTF_KIND_ARRAY_def BTF_KIND_STRUCT_def BTF_KIND_UNION_def BTF_KIND_ENUM_def BTF_KIND_FWD_def BTF_KIND_TYPEDEF_def BTF_KIND_VOLATILE_def BTF_KIND_CONST_def BTF_KIND_RESTRICT_def BTF_KIND_FUNC_def BTF_KIND_FUNC_PROTO_def BTF_KIND_VAR_def BTF_KIND_DATASEC_def BTF_KIND_FLOAT_def BTF_KIND_DECL_TAG_def BTF_KIND_TYPE_TAG_def BTF_KIND_ENUM64_def

section \<open>Type records\<close>

definition load32 :: "(u64 \<Rightarrow> u8) \<Rightarrow> u64 \<Rightarrow> u32" where
  "load32 mem p = le_word (mem_bytes mem p 4)"

text \<open>\<open>name_off\<close> is at offset 0, \<open>info\<close> at 4, the union of \<open>size\<close> and \<open>type\<close> at 8.\<close>

definition btf_type_info :: "(u64 \<Rightarrow> u8) \<Rightarrow> u64 \<Rightarrow> u32" where
  "btf_type_info mem t = load32 mem (t + 4)"

definition sizeof_btf_type :: u64 where "sizeof_btf_type = 12"
definition sizeof_btf_member :: u64 where "sizeof_btf_member = 12"

definition btf_kind :: "(u64 \<Rightarrow> u8) \<Rightarrow> u64 \<Rightarrow> u16" where
  "btf_kind mem t = ucast (BTF_INFO_KIND (btf_type_info mem t))"

definition btf_vlen :: "(u64 \<Rightarrow> u8) \<Rightarrow> u64 \<Rightarrow> u16" where
  "btf_vlen mem t = ucast (BTF_INFO_VLEN (btf_type_info mem t))"

definition btf_kflag :: "(u64 \<Rightarrow> u8) \<Rightarrow> u64 \<Rightarrow> bool" where
  "btf_kflag mem t \<longleftrightarrow> BTF_INFO_KFLAG (btf_type_info mem t) \<noteq> 0"

definition btf_is_void :: "(u64 \<Rightarrow> u8) \<Rightarrow> u64 \<Rightarrow> bool" where
  "btf_is_void mem t \<longleftrightarrow> btf_kind mem t = BTF_KIND_UNKN"

definition btf_is_int :: "(u64 \<Rightarrow> u8) \<Rightarrow> u64 \<Rightarrow> bool" where
  "btf_is_int mem t \<longleftrightarrow> btf_kind mem t = BTF_KIND_INT"

definition btf_is_ptr :: "(u64 \<Rightarrow> u8) \<Rightarrow> u64 \<Rightarrow> bool" where
  "btf_is_ptr mem t \<longleftrightarrow> btf_kind mem t = BTF_KIND_PTR"

definition btf_is_array :: "(u64 \<Rightarrow> u8) \<Rightarrow> u64 \<Rightarrow> bool" where
  "btf_is_array mem t \<longleftrightarrow> btf_kind mem t = BTF_KIND_ARRAY"

definition btf_is_struct :: "(u64 \<Rightarrow> u8) \<Rightarrow> u64 \<Rightarrow> bool" where
  "btf_is_struct mem t \<longleftrightarrow> btf_kind mem t = BTF_KIND_STRUCT"

definition btf_is_union :: "(u64 \<Rightarrow> u8) \<Rightarrow> u64 \<Rightarrow> bool" where
  "btf_is_union mem t \<longleftrightarrow> btf_kind mem t = BTF_KIND_UNION"

definition btf_is_enum :: "(u64 \<Rightarrow> u8) \<Rightarrow> u64 \<Rightarrow> bool" where
  "btf_is_enum mem t \<longleftrightarrow> btf_kind mem t = BTF_KIND_ENUM"

definition btf_is_fwd :: "(u64 \<Rightarrow> u8) \<Rightarrow> u64 \<Rightarrow> bool" where
  "btf_is_fwd mem t \<longleftrightarrow> btf_kind mem t = BTF_KIND_FWD"

definition btf_is_typedef :: "(u64 \<Rightarrow> u8) \<Rightarrow> u64 \<Rightarrow> bool" where
  "btf_is_typedef mem t \<longleftrightarrow> btf_kind mem t = BTF_KIND_TYPEDEF"

definition btf_is_volatile :: "(u64 \<Rightarrow> u8) \<Rightarrow> u64 \<Rightarrow> bool" where
  "btf_is_volatile mem t \<longleftrightarrow> btf_kind mem t = BTF_KIND_VOLATILE"

definition btf_is_const :: "(u64 \<Rightarrow> u8) \<Rightarrow> u64 \<Rightarrow> bool" where
  "btf_is_const mem t \<longleftrightarrow> btf_kind mem t = BTF_KIND_CONST"

definition btf_is_restrict :: "(u64 \<Rightarrow> u8) \<Rightarrow> u64 \<Rightarrow> bool" where
  "btf_is_restrict mem t \<longleftrightarrow> btf_kind mem t = BTF_KIND_RESTRICT"

definition btf_is_func :: "(u64 \<Rightarrow> u8) \<Rightarrow> u64 \<Rightarrow> bool" where
  "btf_is_func mem t \<longleftrightarrow> btf_kind mem t = BTF_KIND_FUNC"

definition btf_is_func_proto :: "(u64 \<Rightarrow> u8) \<Rightarrow> u64 \<Rightarrow> bool" where
  "btf_is_func_proto mem t \<longleftrightarrow> btf_kind mem t = BTF_KIND_FUNC_PROTO"

definition btf_is_var :: "(u64 \<Rightarrow> u8) \<Rightarrow> u64 \<Rightarrow> bool" where
  "btf_is_var mem t \<longleftrightarrow> btf_kind mem t = BTF_KIND_VAR"

definition btf_is_datasec :: "(u64 \<Rightarrow> u8) \<Rightarrow> u64 \<Rightarrow> bool" where
  "btf_is_datasec mem t \<longleftrightarrow> btf_kind mem t = BTF_KIND_DATASEC"

definition btf_is_float :: "(u64 \<Rightarrow> u8) \<Rightarrow> u64 \<Rightarrow> bool" where
  "btf_is_float mem t \<longleftrightarrow> btf_kind mem t = BTF_KIND_FLOAT"

definition btf_is_decl_tag :: "(u64 \<Rightarrow> u8) \<Rightarrow> u64 \<Rightarrow> bool" where
  "btf_is_decl_tag mem t \<longleftrightarrow> btf_kind mem t = BTF_KIND_DECL_TAG"

definition btf_is_type_tag :: "(u64 \<Rightarrow> u8) \<Rightarrow> u64 \<Rightarrow> bool" where
  "btf_is_type_tag mem t \<longleftrightarrow> btf_kind mem t = BTF_KIND_TYPE_TAG"

definition btf_is_enum64 :: "(u64 \<Rightarrow> u8) \<Rightarrow> u64 \<Rightarrow> bool" where
  "btf_is_enum64 mem t \<longleftrightarrow> btf_kind mem t = BTF_KIND_ENUM64"

definition btf_is_composite :: "(u64 \<Rightarrow> u8) \<Rightarrow> u64 \<Rightarrow> bool" where
  "btf_is_composite mem t \<longleftrightarrow> (let kind = btf_kind mem t in kind = BTF_KIND_STRUCT \<or> kind = BTF_KIND_UNION)"

definition btf_is_mod :: "(u64 \<Rightarrow> u8) \<Rightarrow> u64 \<Rightarrow> bool" where
  "btf_is_mod mem t \<longleftrightarrow>
     (let kind = btf_kind mem t
      in kind = BTF_KIND_VOLATILE \<or> kind = BTF_KIND_CONST \<or> kind = BTF_KIND_RESTRICT \<or> kind = BTF_KIND_TYPE_TAG)"

definition btf_is_any_enum :: "(u64 \<Rightarrow> u8) \<Rightarrow> u64 \<Rightarrow> bool" where
  "btf_is_any_enum mem t \<longleftrightarrow> btf_is_enum mem t \<or> btf_is_enum64 mem t"

definition btf_kind_core_compat :: "(u64 \<Rightarrow> u8) \<Rightarrow> u64 \<Rightarrow> u64 \<Rightarrow> bool" where
  "btf_kind_core_compat mem t1 t2 \<longleftrightarrow>
     btf_kind mem t1 = btf_kind mem t2 \<or> (btf_is_any_enum mem t1 \<and> btf_is_any_enum mem t2)"

section \<open>The data after a record\<close>

definition btf_int_encoding :: "(u64 \<Rightarrow> u8) \<Rightarrow> u64 \<Rightarrow> u8" where
  "btf_int_encoding mem t = ucast (BTF_INT_ENCODING (load32 mem (t + sizeof_btf_type)))"

definition btf_int_offset :: "(u64 \<Rightarrow> u8) \<Rightarrow> u64 \<Rightarrow> u8" where
  "btf_int_offset mem t = ucast (BTF_INT_OFFSET (load32 mem (t + sizeof_btf_type)))"

definition btf_int_bits :: "(u64 \<Rightarrow> u8) \<Rightarrow> u64 \<Rightarrow> u8" where
  "btf_int_bits mem t = ucast (BTF_INT_BITS (load32 mem (t + sizeof_btf_type)))"

definition btf_array :: "u64 \<Rightarrow> u64" where "btf_array t = t + sizeof_btf_type"
definition btf_enum :: "u64 \<Rightarrow> u64" where "btf_enum t = t + sizeof_btf_type"
definition btf_enum64 :: "u64 \<Rightarrow> u64" where "btf_enum64 t = t + sizeof_btf_type"
definition btf_members :: "u64 \<Rightarrow> u64" where "btf_members t = t + sizeof_btf_type"
definition btf_params :: "u64 \<Rightarrow> u64" where "btf_params t = t + sizeof_btf_type"
definition btf_var :: "u64 \<Rightarrow> u64" where "btf_var t = t + sizeof_btf_type"
definition btf_var_secinfos :: "u64 \<Rightarrow> u64" where "btf_var_secinfos t = t + sizeof_btf_type"
definition btf_decl_tag :: "u64 \<Rightarrow> u64" where "btf_decl_tag t = t + sizeof_btf_type"

text \<open>\<open>val_lo32\<close> and \<open>val_hi32\<close> of the \<open>struct btf_enum64\<close> at \<open>e\<close>.\<close>

definition btf_enum64_value :: "(u64 \<Rightarrow> u8) \<Rightarrow> u64 \<Rightarrow> u64" where
  "btf_enum64_value mem e = push_bit 32 (ucast (load32 mem (e + 8))) OR ucast (load32 mem (e + 4))"

text \<open>\<open>(btf_members (t) + member_idx)->offset\<close>.\<close>

definition member_offset_word :: "(u64 \<Rightarrow> u8) \<Rightarrow> u64 \<Rightarrow> u32 \<Rightarrow> u32" where
  "member_offset_word mem t member_idx = load32 mem (btf_members t + sizeof_btf_member * ucast member_idx + 8)"

definition btf_member_bit_offset :: "(u64 \<Rightarrow> u8) \<Rightarrow> u64 \<Rightarrow> u32 \<Rightarrow> u32" where
  "btf_member_bit_offset mem t member_idx =
     (let off = member_offset_word mem t member_idx
      in if btf_kflag mem t then BTF_MEMBER_BIT_OFFSET off else off)"

definition btf_member_bitfield_size :: "(u64 \<Rightarrow> u8) \<Rightarrow> u64 \<Rightarrow> u32 \<Rightarrow> u32" where
  "btf_member_bitfield_size mem t member_idx =
     (let off = member_offset_word mem t member_idx
      in if btf_kflag mem t then BTF_MEMBER_BITFIELD_SIZE off else 0)"

section \<open>The arrangement the header documents\<close>

text \<open>
  Bits 0--15 of \<open>info\<close> are the number of members, 24--28 the kind, bit 31 the kind flag;
  with the flag a member's offset word has the bitfield size in bits 24--31 and the bit
  offset below, without it the bit offset alone.
\<close>

definition info_word :: "nat \<Rightarrow> nat \<Rightarrow> bool \<Rightarrow> u32" where
  "info_word kind vlen kflag = of_nat (vlen + 2 ^ 24 * kind + (if kflag then 2 ^ 31 else 0))"

definition member_word :: "bool \<Rightarrow> nat \<times> nat \<Rightarrow> u32" where
  "member_word kflag m = of_nat (fst m + (if kflag then 2 ^ 24 * snd m else 0))"

definition member_fits :: "bool \<Rightarrow> nat \<times> nat \<Rightarrow> bool" where
  "member_fits kflag m \<longleftrightarrow> (if kflag then fst m < 2 ^ 24 \<and> snd m < 2 ^ 8 else fst m < 2 ^ 32 \<and> snd m = 0)"

text \<open>A struct or union with members \<open>ms\<close>, each a bit offset and a bitfield size, lies at \<open>t\<close>.\<close>

definition composite_at :: "(u64 \<Rightarrow> u8) \<Rightarrow> u64 \<Rightarrow> nat \<Rightarrow> bool \<Rightarrow> (nat \<times> nat) list \<Rightarrow> bool" where
  "composite_at mem t kind kflag ms \<longleftrightarrow> kind \<in> {4, 5} \<and> length ms < 2 ^ 16 \<and> list_all (member_fits kflag) ms \<and>
     load32 mem (t + 4) = info_word kind (length ms) kflag \<and>
     list_all (\<lambda>i. load32 mem (t + 12 + 12 * of_nat i + 8) = member_word kflag (ms ! i)) [0..<length ms]"

text \<open>The predicates that ask for a single kind.\<close>

definition kind_predicates :: "((u64 \<Rightarrow> u8) \<Rightarrow> u64 \<Rightarrow> bool) list" where
  "kind_predicates =
     [btf_is_void, btf_is_int, btf_is_ptr, btf_is_array, btf_is_struct, btf_is_union, btf_is_enum, btf_is_fwd,
      btf_is_typedef, btf_is_volatile, btf_is_const, btf_is_restrict, btf_is_func, btf_is_func_proto, btf_is_var,
      btf_is_datasec, btf_is_float, btf_is_decl_tag, btf_is_type_tag, btf_is_enum64]"

section \<open>Unpacking what the arrangement packs\<close>

lemma and_masks:
  "w AND 0x1f = take_bit 5 (w :: u32)" "w AND 0xff = take_bit 8 (w :: u32)"
  "w AND 0xffff = take_bit 16 (w :: u32)" "w AND 0xffffff = take_bit 24 (w :: u32)"
  by (simp_all add: take_bit_eq_mask mask_eq_exp_minus_1)

lemma unat_of_nat32: "n < 2 ^ 32 \<Longrightarrow> unat (of_nat n :: u32) = n"
  by (simp add: unat_of_nat del: of_nat_add of_nat_mult)

lemma unat_info_word:
  assumes "kind < 32" and "vlen < 2 ^ 16"
  shows "unat (info_word kind vlen kflag) = vlen + 2 ^ 16 * (2 ^ 8 * kind + (if kflag then 2 ^ 15 else 0))"
proof -
  have "vlen + 2 ^ 24 * kind + (if kflag then 2 ^ 31 else 0) < 2 ^ 32" using assms by simp
  from unat_of_nat32 [OF this] show ?thesis unfolding info_word_def by simp
qed

lemma word32_eqI: "unat w = n \<Longrightarrow> w = (of_nat n :: u32)"
  by auto

lemma info_word_fields:
  assumes "kind < 32" and "vlen < 2 ^ 16"
  shows "BTF_INFO_KIND (info_word kind vlen kflag) = of_nat kind"
    and "BTF_INFO_VLEN (info_word kind vlen kflag) = of_nat vlen"
    and "BTF_INFO_KFLAG (info_word kind vlen kflag) \<noteq> 0 \<longleftrightarrow> kflag"
proof -
  let ?w = "info_word kind vlen kflag"
  have "unat (BTF_INFO_KIND ?w) = unat ?w div 2 ^ 24 mod 2 ^ 5"
    unfolding BTF_INFO_KIND_def and_masks unsigned_take_bit_eq unsigned_drop_bit_eq
    using unsigned_less [of ?w, where 'a = nat] by (simp add: drop_bit_eq_div take_bit_eq_mod)
  also have "unat ?w = vlen + 2 ^ 24 * (kind + (if kflag then 2 ^ 7 else 0))" unfolding unat_info_word [OF assms] by simp
  also have "\<dots> div 2 ^ 24 = kind + (if kflag then 2 ^ 7 else 0)" using assms(2) by simp
  also have "\<dots> mod 2 ^ 5 = kind" using assms(1) by (auto simp: mod_add_eq [of kind, symmetric])
  finally show "BTF_INFO_KIND ?w = of_nat kind" by (rule word32_eqI)
  have "unat (BTF_INFO_VLEN ?w) = unat ?w mod 2 ^ 16"
    unfolding BTF_INFO_VLEN_def and_masks unsigned_take_bit_eq by (simp only: take_bit_eq_mod)
  also have "\<dots> = vlen" unfolding unat_info_word [OF assms] using assms(2) by (simp only: mod_mult_self2 mod_less)
  finally show "BTF_INFO_VLEN ?w = of_nat vlen" by (rule word32_eqI)
  have "unat (BTF_INFO_KFLAG ?w) = unat ?w div 2 ^ 31"
    unfolding BTF_INFO_KFLAG_def unsigned_drop_bit_eq
    using unsigned_less [of ?w, where 'a = nat] by (simp add: drop_bit_eq_div take_bit_eq_mod)
  also have "\<dots> = (if kflag then 1 else 0)" using assms unfolding unat_info_word [OF assms] by auto
  finally show "BTF_INFO_KFLAG ?w \<noteq> 0 \<longleftrightarrow> kflag" by (auto simp: unat_eq_zero split: if_splits)
qed

lemma member_word_fields:
  assumes "member_fits kflag m"
  shows "kflag \<Longrightarrow> BTF_MEMBER_BIT_OFFSET (member_word kflag m) = of_nat (fst m)"
    and "kflag \<Longrightarrow> BTF_MEMBER_BITFIELD_SIZE (member_word kflag m) = of_nat (snd m)"
    and "\<not> kflag \<Longrightarrow> member_word kflag m = of_nat (fst m)"
proof -
  let ?w = "member_word kflag m"
  show "\<not> kflag \<Longrightarrow> ?w = of_nat (fst m)" by (simp add: member_word_def)
  assume kflag
  with assms have m: "fst m < 2 ^ 24" "snd m < 2 ^ 8" by (auto simp: member_fits_def)
  have "fst m + 2 ^ 24 * snd m < 2 ^ 32" using m by simp
  from unat_of_nat32 [OF this] \<open>kflag\<close> have w: "unat ?w = fst m + 2 ^ 24 * snd m" unfolding member_word_def by simp
  have "unat (BTF_MEMBER_BIT_OFFSET ?w) = unat ?w mod 2 ^ 24"
    unfolding BTF_MEMBER_BIT_OFFSET_def and_masks unsigned_take_bit_eq by (simp only: take_bit_eq_mod)
  also have "\<dots> = fst m" unfolding w using m(1) by (simp only: mod_mult_self2 mod_less)
  finally show "BTF_MEMBER_BIT_OFFSET ?w = of_nat (fst m)" by (rule word32_eqI)
  have "unat (BTF_MEMBER_BITFIELD_SIZE ?w) = unat ?w div 2 ^ 24"
    unfolding BTF_MEMBER_BITFIELD_SIZE_def unsigned_drop_bit_eq
    using unsigned_less [of ?w, where 'a = nat] by (simp add: drop_bit_eq_div take_bit_eq_mod)
  also have "\<dots> = snd m" unfolding w using m by auto
  finally show "BTF_MEMBER_BITFIELD_SIZE ?w = of_nat (snd m)" by (rule word32_eqI)
qed

lemmas btf_kind_predicates = btf_is_void_def btf_is_int_def btf_is_ptr_def btf_is_array_def btf_is_struct_def btf_is_union_def btf_is_enum_def btf_is_fwd_def btf_is_typedef_def btf_is_volatile_def btf_is_const_def btf_is_restrict_def btf_is_func_def btf_is_func_proto_def btf_is_var_def btf_is_datasec_def btf_is_float_def btf_is_decl_tag_def btf_is_type_tag_def btf_is_enum64_def

lemma known_kind:
  assumes "unat k < NR_BTF_KINDS"
  shows "k \<in> set (map of_nat [0..<NR_BTF_KINDS])"
proof -
  have "k = of_nat (unat k)" by simp
  with assms show ?thesis by (metis atLeastLessThan_iff imageI list.set_map set_upt zero_le)
qed

section \<open>Properties\<close>

text \<open>
  (C32) Struct and union records.  For every record that is laid out as the header documents, \<open>btf_kind\<close>,
  \<open>btf_vlen\<close> and \<open>btf_kflag\<close> return what was packed, and for every member index below \<open>btf_vlen\<close>,
  \<open>btf_member_bit_offset\<close> and \<open>btf_member_bitfield_size\<close> return that member's bit offset and bitfield size.
\<close>

theorem btf_composite_decoded:
  assumes "composite_at mem t kind kflag ms"
  shows "btf_is_composite mem t \<and> btf_kind mem t = of_nat kind \<and> unat (btf_vlen mem t) = length ms \<and> btf_kflag mem t = kflag \<and>
    (\<forall>i < unat (btf_vlen mem t).
       unat (btf_member_bit_offset mem t (of_nat i)) = fst (ms ! i) \<and>
       unat (btf_member_bitfield_size mem t (of_nat i)) = snd (ms ! i))"
proof -
  from assms have k: "kind = 4 \<or> kind = 5" "kind < 32" and v: "length ms < 2 ^ 16"
    and fits: "\<And>i. i < length ms \<Longrightarrow> member_fits kflag (ms ! i)"
    and info: "btf_type_info mem t = info_word kind (length ms) kflag"
    and off: "\<And>i. i < length ms \<Longrightarrow> load32 mem (t + 12 + 12 * of_nat i + 8) = member_word kflag (ms ! i)"
    by (auto simp: composite_at_def btf_type_info_def list_all_length list_all_iff)
  note f = info_word_fields [OF k(2) v, of kflag]
  have kind: "btf_kind mem t = of_nat kind" using k(1) by (auto simp: btf_kind_def info f(1))
  have "unat (ucast (of_nat (length ms) :: u32) :: u16) = length ms"
    using v by (simp add: unsigned_ucast_eq unat_of_nat take_bit_eq_mod)
  then have vlen: "unat (btf_vlen mem t) = length ms" by (simp add: btf_vlen_def info f(2))
  have flag: "btf_kflag mem t = kflag" by (simp add: btf_kflag_def info f(3))
  have "unat (btf_member_bit_offset mem t (of_nat i)) = fst (ms ! i) \<and>
      unat (btf_member_bitfield_size mem t (of_nat i)) = snd (ms ! i)" if i: "i < length ms" for i
  proof -
    have "unat (ucast (of_nat i :: u32) :: u64) = unat (of_nat i :: u64)"
      using i v by (simp add: unsigned_ucast_eq unat_of_nat take_bit_eq_mod)
    then have "ucast (of_nat i :: u32) = (of_nat i :: u64)" by (simp only: word_unat_eq_iff)
    then have "member_offset_word mem t (of_nat i) = member_word kflag (ms ! i)"
      using off [OF i] by (simp add: member_offset_word_def btf_members_def sizeof_btf_type_def sizeof_btf_member_def)
    moreover have "fst (ms ! i) < 2 ^ 32" "snd (ms ! i) < 2 ^ 32"
      using fits [OF i] by (auto simp: member_fits_def split: if_splits)
    ultimately show ?thesis
      using member_word_fields [OF fits [OF i]] fits [OF i]
      by (cases kflag) (auto simp: btf_member_bit_offset_def btf_member_bitfield_size_def Let_def flag unat_of_nat32 member_fits_def)
  qed
  moreover have "btf_is_composite mem t"
    using k(1) by (auto simp: btf_is_composite_def kind BTF_KIND_STRUCT_def BTF_KIND_UNION_def)
  ultimately show ?thesis using kind vlen flag by simp
qed

text \<open>A struct of two members, the second a bitfield of three bits at bit 40.\<close>

theorem btf_composite_decoded_witness:
  "let mem = (\<lambda>a :: u64. if a = 4 then 2 else if a = 7 then 0x84 else if a = 32 then 40 else if a = 35 then 3 else 0)
   in composite_at mem 0 4 True [(0, 0), (40, 3)] \<and> unat (btf_member_bitfield_size mem 0 1) = 3 \<and>
      unat (btf_member_bit_offset mem 0 1) = 40"
proof -
  let ?mem = "\<lambda>a :: u64. (if a = 4 then 2 else if a = 7 then 0x84 else if a = 32 then 40 else if a = 35 then 3 else 0) :: u8"
  let ?ms = "[(0, 0), (40, 3)] :: (nat \<times> nat) list"
  have four: "[0..<4] = [0, 1, 2, 3 :: nat]" by (simp add: upt_rec)
  have "[0..<2] = [0, 1 :: nat]" by (simp add: upt_rec)
  then have at: "composite_at ?mem 0 4 True [(0, 0), (40, 3)]"
    by (simp add: composite_at_def member_fits_def info_word_def member_word_def load32_def mem_bytes_def four le_word_def)
  from btf_composite_decoded [OF at] have v: "unat (btf_vlen ?mem 0) = 2"
    and m: "\<And>i. i < 2 \<Longrightarrow> unat (btf_member_bit_offset ?mem 0 (of_nat i)) = fst (?ms ! i) \<and>
       unat (btf_member_bitfield_size ?mem 0 (of_nat i)) = snd (?ms ! i)" by simp_all
  from at m [of 1] show ?thesis by (simp add: Let_def)
qed

text \<open>
  Kinds.  A record of a known kind satisfies exactly one of the twenty \<open>btf_is_\<close> predicates of a single kind,
  and \<open>btf_kind_core_compat\<close> is an equivalence relation on records.
\<close>

theorem btf_kinds_partition:
  "(unat (btf_kind mem t) < NR_BTF_KINDS \<longleftrightarrow> length (filter (\<lambda>p. p mem t) kind_predicates) = 1) \<and>
   equivp (btf_kind_core_compat mem)"
proof
  have up: "[0..<NR_BTF_KINDS] = [0, 1, 2, 3, 4, 5, 6, 7, 8, 9, 10, 11, 12, 13, 14, 15, 16, 17, 18, 19]"
    by (simp add: NR_BTF_KINDS_def upt_rec)
  show "unat (btf_kind mem t) < NR_BTF_KINDS \<longleftrightarrow> length (filter (\<lambda>p. p mem t) kind_predicates) = 1"
  proof
    assume "unat (btf_kind mem t) < NR_BTF_KINDS"
    from known_kind [OF this] show "length (filter (\<lambda>p. p mem t) kind_predicates) = 1"
      unfolding up by (auto simp: kind_predicates_def btf_kind_predicates btf_kinds)
  next
    assume "length (filter (\<lambda>p. p mem t) kind_predicates) = 1"
    then have "filter (\<lambda>p. p mem t) kind_predicates \<noteq> []" by auto
    then obtain p where "p \<in> set kind_predicates" "p mem t" by (auto simp: filter_empty_conv)
    then show "unat (btf_kind mem t) < NR_BTF_KINDS"
      by (auto simp: kind_predicates_def btf_kind_predicates btf_kinds NR_BTF_KINDS_def)
  qed
  show "equivp (btf_kind_core_compat mem)"
    by (rule equivpI) (auto simp: reflp_def symp_def transp_def btf_kind_core_compat_def btf_is_any_enum_def
        btf_is_enum_def btf_is_enum64_def)
qed

end
