(* ===== verification/Lskel.thy ===== *)
theory Lskel
  imports Prelude
begin

unbundle bit_operations_syntax

text \<open>
  \<open>skel_internal.h\<close>, the base of light skeletons: wrappers of the \<open>bpf\<close> system call,
  the handling of a map's initial data in the kernel and in user space, and
  \<open>bpf_load_and_run\<close>, which loads a loader program and runs it.  What the system call
  and the allocators answer are parameters; every function returns the calls it made.
\<close>

section \<open>The system call\<close>

type_synonym fd = int

text \<open>One constructor per command, with the members of \<open>union bpf_attr\<close> the code fills; the rest is zero.\<close>

datatype bpf_attr =
  Map_Create (mc_map_type: u32) (mc_map_name: string) (mc_key_size: u32) (mc_value_size: u32) (mc_max_entries: u32)
| Map_Update_Elem (mu_map_fd: fd) (mu_key: u64) (mu_value: u64) (mu_flags: u64)
| Raw_Tracepoint_Open (rt_name: u64) (rt_prog_fd: fd)
| Link_Create (lc_prog_fd: fd) (lc_target_fd: fd) (lc_attach_type: u32)
| Prog_Load (pl_prog_type: u32) (pl_insns: u64) (pl_insn_cnt: u32) (pl_license: string) (pl_prog_name: string)
    (pl_fd_array: "fd list") (pl_log_level: u32) (pl_log_size: u32) (pl_log_buf: u64) (pl_prog_flags: u32)
| Prog_Run (pr_prog_fd: fd) (pr_ctx_in: u64) (pr_ctx_size_in: u32)

datatype skel_sys_call = Bpf bpf_attr | Close fd

text \<open>\<open>__KERNEL__\<close>, what the call returns, the \<open>errno\<close> it leaves behind and the \<open>retval\<close> of a test run.\<close>

record bpf_sys =
  in_kernel :: bool
  sys_bpf :: "bpf_attr \<Rightarrow> int"
  sys_errno :: "bpf_attr \<Rightarrow> int"
  run_retval :: "bpf_attr \<Rightarrow> int"

definition BPF_MAP_TYPE_ARRAY :: u32 where "BPF_MAP_TYPE_ARRAY = 2"
definition BPF_PROG_TYPE_SYSCALL :: u32 where "BPF_PROG_TYPE_SYSCALL = 31"
definition BPF_F_SLEEPABLE :: u32 where "BPF_F_SLEEPABLE = 16"
definition BPF_OBJ_NAME_LEN :: nat where "BPF_OBJ_NAME_LEN = 16"
definition SKEL_EINVAL :: int where "SKEL_EINVAL = 22"

definition skel_sys_bpf :: "bpf_sys \<Rightarrow> bpf_attr \<Rightarrow> skel_sys_call list \<times> int" where
  "skel_sys_bpf sys attr = ([Bpf attr], sys_bpf sys attr)"

text \<open>\<open>strncpy\<close> into a zeroed array of \<open>n\<close> characters.\<close>

definition strncpy :: "nat \<Rightarrow> string \<Rightarrow> string" where
  "strncpy n s = take n (s @ replicate n NUL)"

definition skel_map_create ::
  "bpf_sys \<Rightarrow> u32 \<Rightarrow> string \<Rightarrow> u32 \<Rightarrow> u32 \<Rightarrow> u32 \<Rightarrow> skel_sys_call list \<times> int" where
  "skel_map_create sys map_type map_name key_size value_size max_entries =
     skel_sys_bpf sys (Map_Create map_type (strncpy BPF_OBJ_NAME_LEN map_name) key_size value_size max_entries)"

definition skel_map_update_elem :: "bpf_sys \<Rightarrow> fd \<Rightarrow> u64 \<Rightarrow> u64 \<Rightarrow> u64 \<Rightarrow> skel_sys_call list \<times> int" where
  "skel_map_update_elem sys f key val flg = skel_sys_bpf sys (Map_Update_Elem f key val flg)"

definition skel_raw_tracepoint_open :: "bpf_sys \<Rightarrow> u64 \<Rightarrow> fd \<Rightarrow> skel_sys_call list \<times> int" where
  "skel_raw_tracepoint_open sys name prog_fd = skel_sys_bpf sys (Raw_Tracepoint_Open name prog_fd)"

definition skel_link_create :: "bpf_sys \<Rightarrow> fd \<Rightarrow> fd \<Rightarrow> u32 \<Rightarrow> skel_sys_call list \<times> int" where
  "skel_link_create sys prog_fd target_fd attach_type = skel_sys_bpf sys (Link_Create prog_fd target_fd attach_type)"

text \<open>\<open>rc\<close> is what \<open>close\<close> returns.\<close>

definition skel_closenz :: "int \<Rightarrow> fd \<Rightarrow> skel_sys_call list \<times> int" where
  "skel_closenz rc f = (if f > 0 then ([Close f], rc) else ([], - SKEL_EINVAL))"

section \<open>Load and run\<close>

record bpf_loader_ctx =
  ctx_sz :: u32
  ctx_flags :: u32
  ctx_log_level :: u32
  ctx_log_size :: u32
  ctx_log_buf :: u64

record bpf_load_and_run_opts =
  opts_ctx :: bpf_loader_ctx
  opts_ctx_addr :: u64
  opts_data :: u64
  opts_insns :: u64
  opts_data_sz :: u32
  opts_insns_sz :: u32
  opts_errstr :: "string option"

text \<open>\<open>set_err\<close>: nothing in the kernel, \<open>err = -errno\<close> in user space.\<close>

definition set_err :: "bpf_sys \<Rightarrow> bpf_attr \<Rightarrow> int \<Rightarrow> int" where
  "set_err sys attr err = (if in_kernel sys then err else - sys_errno sys attr)"

definition close_out :: "fd \<Rightarrow> fd \<Rightarrow> skel_sys_call list" where
  "close_out map_fd prog_fd = (if map_fd \<ge> 0 then [Close map_fd] else []) @ (if prog_fd \<ge> 0 then [Close prog_fd] else [])"

definition loader_map_attr :: "bpf_load_and_run_opts \<Rightarrow> bpf_attr" where
  "loader_map_attr opts =
     Map_Create BPF_MAP_TYPE_ARRAY (strncpy BPF_OBJ_NAME_LEN ''__loader.map'') 4 (opts_data_sz opts) 1"

text \<open>The address of the local variable \<open>key\<close> is \<open>key_addr\<close>; its value is 0.\<close>

definition loader_update_attr :: "u64 \<Rightarrow> bpf_load_and_run_opts \<Rightarrow> fd \<Rightarrow> bpf_attr" where
  "loader_update_attr key_addr opts map_fd = Map_Update_Elem map_fd key_addr (opts_data opts) 0"

definition loader_prog_attr :: "bpf_load_and_run_opts \<Rightarrow> fd \<Rightarrow> bpf_attr" where
  "loader_prog_attr opts map_fd =
     Prog_Load BPF_PROG_TYPE_SYSCALL (opts_insns opts) (opts_insns_sz opts div 8) ''Dual BSD/GPL''
       (strncpy BPF_OBJ_NAME_LEN ''__loader.prog'') [map_fd] (ctx_log_level (opts_ctx opts)) (ctx_log_size (opts_ctx opts))
       (ctx_log_buf (opts_ctx opts)) BPF_F_SLEEPABLE"

definition loader_run_attr :: "bpf_load_and_run_opts \<Rightarrow> fd \<Rightarrow> bpf_attr" where
  "loader_run_attr opts prog_fd = Prog_Run prog_fd (opts_ctx_addr opts) (ctx_sz (opts_ctx opts))"

text \<open>The result, \<open>opts\<close> with its error string, the value assigned to \<open>errno\<close> if any, and the calls.\<close>

definition bpf_load_and_run ::
  "bpf_sys \<Rightarrow> u64 \<Rightarrow> bpf_load_and_run_opts \<Rightarrow> int \<times> bpf_load_and_run_opts \<times> int option \<times> skel_sys_call list" where
  "bpf_load_and_run sys key_addr opts =
     (let prog_fd = -1;
          (log, map_fd) = skel_map_create sys BPF_MAP_TYPE_ARRAY ''__loader.map'' 4 (opts_data_sz opts) 1
      in if map_fd < 0 then
           (set_err sys (loader_map_attr opts) map_fd,
            opts\<lparr>opts_errstr := Some ''failed to create loader map''\<rparr>, None, log @ close_out map_fd prog_fd)
         else let (log1, err) = skel_map_update_elem sys map_fd key_addr (opts_data opts) 0; log = log @ log1
         in if err < 0 then
           (set_err sys (loader_update_attr key_addr opts map_fd) err,
            opts\<lparr>opts_errstr := Some ''failed to update loader map''\<rparr>, None, log @ close_out map_fd prog_fd)
         else let (log1, prog_fd) = skel_sys_bpf sys (loader_prog_attr opts map_fd); log = log @ log1
         in if prog_fd < 0 then
           (set_err sys (loader_prog_attr opts map_fd) prog_fd,
            opts\<lparr>opts_errstr := Some ''failed to load loader prog''\<rparr>, None, log @ close_out map_fd prog_fd)
         else let run = loader_run_attr opts prog_fd; (log1, err) = skel_sys_bpf sys run; log = log @ log1
         in if err < 0 \<or> run_retval sys run < 0 then
           (if err < 0 then set_err sys run err else run_retval sys run,
            opts\<lparr>opts_errstr := Some ''failed to execute loader prog''\<rparr>,
            if 0 \<le> err \<and> \<not> in_kernel sys then Some (- run_retval sys run) else None, log @ close_out map_fd prog_fd)
         else (0, opts, None, log @ close_out map_fd prog_fd))"

section \<open>Initial data of maps\<close>

datatype mem_call =
  Kzalloc nat | Kfree u64 | Kvmalloc nat | Kvfree u64 | Calloc_One nat | Free u64
| Mmap_Anon nat | Mmap_Fixed u64 nat i32 fd | Munmap u64 nat | Map_Get fd | Map_Put

definition BPF_SKEL_KERNEL :: u32 where "BPF_SKEL_KERNEL = 1"

text \<open>Kernel: \<open>None\<close> is \<open>NULL\<close>; the block is zeroed, so \<open>flags\<close> is 0 before the bit is set.\<close>

definition kernel_skel_alloc :: "u64 option \<Rightarrow> nat \<Rightarrow> mem_call list \<times> (u64 \<times> u32) option" where
  "kernel_skel_alloc kz sz =
     ([Kzalloc sz], case kz of None \<Rightarrow> None | Some p \<Rightarrow> Some (p, 0 OR BPF_SKEL_KERNEL))"

definition kernel_skel_free :: "u64 \<Rightarrow> mem_call list" where
  "kernel_skel_free p = [Kfree p]"

definition kernel_skel_free_map_data :: "u64 \<Rightarrow> u64 \<Rightarrow> mem_call list" where
  "kernel_skel_free_map_data p a = (if a \<noteq> NOT 0 then [Kvfree p] else [])"

text \<open>The result with the bytes copied to the new block.\<close>

definition kernel_skel_prep_map_data :: "u64 option \<Rightarrow> bytes \<Rightarrow> nat \<Rightarrow> nat \<Rightarrow> mem_call list \<times> (u64 \<times> bytes) option" where
  "kernel_skel_prep_map_data kv val mmap_sz val_sz =
     ([Kvmalloc val_sz], case kv of None \<Rightarrow> None | Some p \<Rightarrow> Some (p, take val_sz val))"

text \<open>\<open>get\<close>: \<open>bpf_map_get\<close>, with whether the map is an array and where its values are. The result, the new \<open>*init_val\<close>.\<close>

definition kernel_skel_finalize_map_data ::
  "(bool \<times> u64) option \<Rightarrow> u64 \<Rightarrow> fd \<Rightarrow> mem_call list \<times> u64 option \<times> u64" where
  "kernel_skel_finalize_map_data get init_val f =
     (case get of
        None \<Rightarrow> ([Kvfree init_val, Map_Get f], None, NOT 0)
      | Some (is_array, val) \<Rightarrow>
          ([Kvfree init_val, Map_Get f, Map_Put], if is_array then Some val else None, NOT 0))"

definition user_skel_alloc :: "u64 option \<Rightarrow> nat \<Rightarrow> mem_call list \<times> u64 option" where
  "user_skel_alloc ca sz = ([Calloc_One sz], ca)"

definition user_skel_free :: "u64 \<Rightarrow> mem_call list" where
  "user_skel_free p = [Free p]"

definition user_skel_free_map_data :: "u64 \<Rightarrow> u64 \<Rightarrow> nat \<Rightarrow> mem_call list" where
  "user_skel_free_map_data p a sz = [Munmap p sz]"

text \<open>\<open>mm\<close>: what \<open>mmap\<close> returned, all ones being \<open>MAP_FAILED\<close>.\<close>

definition user_skel_prep_map_data :: "u64 \<Rightarrow> bytes \<Rightarrow> nat \<Rightarrow> nat \<Rightarrow> mem_call list \<times> (u64 \<times> bytes) option" where
  "user_skel_prep_map_data mm val mmap_sz val_sz =
     ([Mmap_Anon mmap_sz], if mm = NOT 0 then None else Some (mm, take val_sz val))"

definition user_skel_finalize_map_data :: "u64 \<Rightarrow> u64 \<Rightarrow> nat \<Rightarrow> i32 \<Rightarrow> fd \<Rightarrow> mem_call list \<times> u64 option" where
  "user_skel_finalize_map_data mm init_val mmap_sz flg f =
     ([Mmap_Fixed init_val mmap_sz flg f], if mm = NOT 0 then None else Some mm)"


section \<open>What a run opens and closes\<close>

fun closed_fds :: "skel_sys_call list \<Rightarrow> fd list" where
  "closed_fds [] = []"
| "closed_fds (Close f # cs) = f # closed_fds cs"
| "closed_fds (Bpf a # cs) = closed_fds cs"

fun opened_by :: "bpf_sys \<Rightarrow> bpf_attr \<Rightarrow> fd list" where
  "opened_by sys (Map_Create t n k v e) = (let f = sys_bpf sys (Map_Create t n k v e) in if 0 \<le> f then [f] else [])"
| "opened_by sys (Prog_Load t i n l p fs ll ls lb fl) =
     (let f = sys_bpf sys (Prog_Load t i n l p fs ll ls lb fl) in if 0 \<le> f then [f] else [])"
| "opened_by sys _ = []"

fun opened_fds :: "bpf_sys \<Rightarrow> skel_sys_call list \<Rightarrow> fd list" where
  "opened_fds sys [] = []"
| "opened_fds sys (Close f # cs) = opened_fds sys cs"
| "opened_fds sys (Bpf a # cs) = opened_by sys a @ opened_fds sys cs"

definition loader_succeeds :: "bpf_sys \<Rightarrow> u64 \<Rightarrow> bpf_load_and_run_opts \<Rightarrow> bool" where
  "loader_succeeds sys key_addr opts \<longleftrightarrow>
     (let m = sys_bpf sys (loader_map_attr opts); p = sys_bpf sys (loader_prog_attr opts m); r = loader_run_attr opts p
      in 0 \<le> m \<and> 0 \<le> sys_bpf sys (loader_update_attr key_addr opts m) \<and> 0 \<le> p \<and> 0 \<le> sys_bpf sys r \<and>
         0 \<le> run_retval sys r)"

text \<open>\<open>errno\<close> is positive after a system call that failed.\<close>

definition errno_set :: "bpf_sys \<Rightarrow> bool" where
  "errno_set sys \<longleftrightarrow> (\<forall>attr. sys_bpf sys attr < 0 \<longrightarrow> 0 < sys_errno sys attr)"

lemma set_err_negative: "errno_set sys \<Longrightarrow> sys_bpf sys attr < 0 \<Longrightarrow> set_err sys attr (sys_bpf sys attr) < 0"
  by (auto simp: errno_set_def set_err_def)

lemmas load_and_run_defs = bpf_load_and_run_def skel_sys_bpf_def skel_map_create_def skel_map_update_elem_def
  loader_succeeds_def close_out_def

lemma map_create_attr [simp]:
  "Map_Create BPF_MAP_TYPE_ARRAY (strncpy BPF_OBJ_NAME_LEN ''__loader.map'') 4 (opts_data_sz opts) 1 = loader_map_attr opts"
  "Map_Update_Elem f ka (opts_data opts) 0 = loader_update_attr ka opts f"
  by (simp_all add: loader_map_attr_def loader_update_attr_def)

lemma opened_by_loader [simp]:
  "opened_by sys (loader_map_attr opts) =
     (if 0 \<le> sys_bpf sys (loader_map_attr opts) then [sys_bpf sys (loader_map_attr opts)] else [])"
  "opened_by sys (loader_prog_attr opts f) =
     (if 0 \<le> sys_bpf sys (loader_prog_attr opts f) then [sys_bpf sys (loader_prog_attr opts f)] else [])"
  "opened_by sys (loader_update_attr ka opts f) = []" "opened_by sys (loader_run_attr opts f) = []"
  by (simp_all add: loader_map_attr_def loader_prog_attr_def loader_update_attr_def loader_run_attr_def
      del: map_create_attr)

section \<open>Properties\<close>

text \<open>
  (C16) \<open>bpf_load_and_run\<close>.  It returns 0 exactly when all four system calls succeeded and the loader program did not
  return a negative value, a negative error otherwise; the error string is set exactly on failure; and on every path
  each file descriptor that was opened is closed exactly once, in the order of opening.
\<close>

theorem load_and_run_correct:
  assumes "errno_set sys" and "bpf_load_and_run sys key_addr opts = (err, opts', en, calls)"
  shows "err \<le> 0 \<and> (err = 0 \<longleftrightarrow> loader_succeeds sys key_addr opts) \<and>
    (if err = 0 then opts' = opts else opts_errstr opts' \<noteq> None) \<and>
    closed_fds calls = opened_fds sys calls"
proof -
  note neg = set_err_negative [OF assms(1)]
  show ?thesis
    using assms(2)
    by (auto simp: load_and_run_defs Let_def not_less neg [THEN less_imp_le] neg [THEN less_imp_neq] split: if_splits)
qed

theorem load_and_run_correct_witness:
  "let sys = \<lparr>in_kernel = False, sys_bpf = (\<lambda>a. case a of Prog_Load _ _ _ _ _ _ _ _ _ _ \<Rightarrow> -1 | _ \<Rightarrow> 5), sys_errno = (\<lambda>_. 22),
         run_retval = (\<lambda>_. 0)\<rparr>;
       opts = \<lparr>opts_ctx = \<lparr>ctx_sz = 24, ctx_flags = 0, ctx_log_level = 0, ctx_log_size = 0, ctx_log_buf = 0\<rparr>,
         opts_ctx_addr = 64, opts_data = 4096, opts_insns = 8192, opts_data_sz = 8, opts_insns_sz = 16, opts_errstr = None\<rparr>;
       (err, opts', en, calls) = bpf_load_and_run sys 32 opts
   in err < 0 \<and> opts_errstr opts' = Some ''failed to load loader prog'' \<and> closed_fds calls = [5]"
proof -
  let ?sys = "\<lparr>in_kernel = False, sys_bpf = (\<lambda>a. case a of Prog_Load _ _ _ _ _ _ _ _ _ _ \<Rightarrow> -1 | _ \<Rightarrow> 5), sys_errno = (\<lambda>_. 22),
         run_retval = (\<lambda>_. 0)\<rparr> :: bpf_sys"
  let ?opts = "\<lparr>opts_ctx = \<lparr>ctx_sz = 24, ctx_flags = 0, ctx_log_level = 0, ctx_log_size = 0, ctx_log_buf = 0\<rparr>,
         opts_ctx_addr = 64, opts_data = 4096, opts_insns = 8192, opts_data_sz = 8, opts_insns_sz = 16, opts_errstr = None\<rparr>"
  obtain err opts' en calls where run: "bpf_load_and_run ?sys 32 ?opts = (err, opts', en, calls)"
    by (rule prod_cases4)
  have "errno_set ?sys" by (simp add: errno_set_def)
  note ok = load_and_run_correct [OF this run]
  have "\<not> loader_succeeds ?sys 32 ?opts" by (simp add: loader_succeeds_def loader_prog_attr_def)
  moreover have "opts_errstr opts' = Some ''failed to load loader prog'' \<and> opened_fds ?sys calls = [5]"
    using run by (auto simp: load_and_run_defs Let_def loader_map_attr_def loader_update_attr_def loader_prog_attr_def
        simp del: map_create_attr)
  ultimately show ?thesis using run ok by auto
qed

text \<open>
  Initial data of a map in the kernel.  The block that \<open>skel_prep_map_data\<close> allocated is freed exactly once,
  whether the skeleton is destroyed before or after \<open>skel_finalize_map_data\<close>; a map reference taken by
  \<open>skel_finalize_map_data\<close> is put again; and the stored \<open>initial_value\<close> afterwards stops \<open>skel_free_map_data\<close> from
  freeing the map's own memory.
\<close>

theorem kernel_map_data_freed_once:
  assumes "kernel_skel_prep_map_data kv val mmap_sz val_sz = (calls, Some (p, data))" and "p \<noteq> NOT 0"
    and "kernel_skel_finalize_map_data get p f = (fin, res, init_val)"
  shows "filter (\<lambda>c. \<exists>q. c = Kvfree q) (calls @ kernel_skel_free_map_data p p) = [Kvfree p] \<and>
    filter (\<lambda>c. \<exists>q. c = Kvfree q) (calls @ fin @ kernel_skel_free_map_data q init_val) = [Kvfree p] \<and>
    (Map_Put \<in> set fin \<longleftrightarrow> get \<noteq> None) \<and> (\<forall>a. res = Some a \<longrightarrow> get = Some (True, a))"
  using assms
  by (auto simp: kernel_skel_prep_map_data_def kernel_skel_finalize_map_data_def kernel_skel_free_map_data_def
      split: option.splits if_splits)

theorem kernel_map_data_freed_once_witness:
  "filter (\<lambda>c. \<exists>q. c = Kvfree q)
     (fst (kernel_skel_prep_map_data (Some 4096) [1, 2] 4096 2) @ fst (kernel_skel_finalize_map_data (Some (True, 64)) 4096 3) @
      kernel_skel_free_map_data 64 (snd (snd (kernel_skel_finalize_map_data (Some (True, 64)) 4096 3)))) = [Kvfree 4096]"
proof -
  have "kernel_skel_prep_map_data (Some 4096) [1, 2] 4096 2 = ([Kvmalloc 2], Some (4096, [1, 2]))"
    by (simp add: kernel_skel_prep_map_data_def)
  moreover have "kernel_skel_finalize_map_data (Some (True, 64)) 4096 3 = ([Kvfree 4096, Map_Get 3, Map_Put], Some 64, NOT 0)"
    by (simp add: kernel_skel_finalize_map_data_def)
  moreover have "(4096 :: u64) \<noteq> NOT 0" by simp
  ultimately show ?thesis
    using kernel_map_data_freed_once [of "Some 4096" "[1, 2]" 4096 2 "[Kvmalloc 2]" 4096 "[1, 2]" "Some (True, 64)" 3
        "[Kvfree 4096, Map_Get 3, Map_Put]" "Some 64" "NOT 0" 64] by simp
qed

end
