(* ===== verification/Linux_List.thy ===== *)
theory Linux_List
  imports Prelude "HOL-Library.Monad_Syntax"
begin

text \<open>
  The circular doubly linked list of the SDK's \<open>linux/list.h\<close>.  The links are mutated through pointers that may alias
  (in an empty list \<open>head\<close>, \<open>head->next\<close> and \<open>head->prev\<close> are one object), so the model keeps an explicit store from
  addresses to \<open>struct list_head\<close>; an access to an address without such an object is \<open>None\<close>.  Objects at different
  addresses do not overlap.
\<close>

section \<open>Store and operations\<close>

record list_head =
  lh_next :: u64
  lh_prev :: u64

type_synonym lheap = "u64 \<rightharpoonup> list_head"

definition LIST_POISON1 :: u64 where
  "LIST_POISON1 = 0x100"

definition LIST_POISON2 :: u64 where
  "LIST_POISON2 = 0x200"

text \<open>\<open>p->next = v\<close>, \<open>p->prev = v\<close> and the two reads.\<close>

definition set_next :: "u64 \<Rightarrow> u64 \<Rightarrow> lheap \<Rightarrow> lheap option" where
  "set_next p v h = (case h p of None \<Rightarrow> None | Some n \<Rightarrow> Some (h(p \<mapsto> n\<lparr>lh_next := v\<rparr>)))"

definition set_prev :: "u64 \<Rightarrow> u64 \<Rightarrow> lheap \<Rightarrow> lheap option" where
  "set_prev p v h = (case h p of None \<Rightarrow> None | Some n \<Rightarrow> Some (h(p \<mapsto> n\<lparr>lh_prev := v\<rparr>)))"

definition get_next :: "lheap \<Rightarrow> u64 \<Rightarrow> u64 option" where
  "get_next h p = map_option lh_next (h p)"

definition get_prev :: "lheap \<Rightarrow> u64 \<Rightarrow> u64 option" where
  "get_prev h p = map_option lh_prev (h p)"

definition INIT_LIST_HEAD :: "u64 \<Rightarrow> lheap \<Rightarrow> lheap option" where
  "INIT_LIST_HEAD lst h = do {
     h \<leftarrow> set_next lst lst h;
     set_prev lst lst h }"

text \<open>\<open>LIST_HEAD (name)\<close> defines an initialised object.\<close>

definition LIST_HEAD_INIT :: "u64 \<Rightarrow> list_head" where
  "LIST_HEAD_INIT name = \<lparr>lh_next = name, lh_prev = name\<rparr>"

definition list_add_between :: "u64 \<Rightarrow> u64 \<Rightarrow> u64 \<Rightarrow> lheap \<Rightarrow> lheap option" where
  "list_add_between new prev nxt h = do {
     h \<leftarrow> set_prev nxt new h;
     h \<leftarrow> set_next new nxt h;
     h \<leftarrow> set_prev new prev h;
     set_next prev new h }"

definition list_add :: "u64 \<Rightarrow> u64 \<Rightarrow> lheap \<Rightarrow> lheap option" where
  "list_add new head h = do {
     nxt \<leftarrow> get_next h head;
     list_add_between new head nxt h }"

definition list_del_between :: "u64 \<Rightarrow> u64 \<Rightarrow> lheap \<Rightarrow> lheap option" where
  "list_del_between prev nxt h = do {
     h \<leftarrow> set_prev nxt prev h;
     set_next prev nxt h }"

definition list_del_entry :: "u64 \<Rightarrow> lheap \<Rightarrow> lheap option" where
  "list_del_entry entry h = do {
     prev \<leftarrow> get_prev h entry;
     nxt \<leftarrow> get_next h entry;
     list_del_between prev nxt h }"

definition list_del :: "u64 \<Rightarrow> lheap \<Rightarrow> lheap option" where
  "list_del entry h = do {
     prev \<leftarrow> get_prev h entry;
     nxt \<leftarrow> get_next h entry;
     h \<leftarrow> list_del_between prev nxt h;
     h \<leftarrow> set_next entry LIST_POISON1 h;
     set_prev entry LIST_POISON2 h }"

definition list_empty :: "u64 \<Rightarrow> lheap \<Rightarrow> bool option" where
  "list_empty head h = map_option (\<lambda>nxt. nxt = head) (get_next h head)"

section \<open>Entries and the loop\<close>

text \<open>\<open>off\<close> is \<open>offsetof (type, member)\<close>; \<open>&pos->member\<close> is \<open>pos + off\<close>.\<close>

definition container_of :: "u64 \<Rightarrow> u64 \<Rightarrow> u64" where
  "container_of ptr off = ptr - off"

definition list_first_entry :: "u64 \<Rightarrow> u64 \<Rightarrow> lheap \<Rightarrow> u64 option" where
  "list_first_entry ptr off h = map_option (\<lambda>nxt. container_of nxt off) (get_next h ptr)"

definition list_next_entry :: "u64 \<Rightarrow> u64 \<Rightarrow> lheap \<Rightarrow> u64 option" where
  "list_next_entry pos off h = map_option (\<lambda>nxt. container_of nxt off) (get_next h (pos + off))"

text \<open>The loop body may change the links and a state of its own; the loop may run for ever.\<close>

partial_function (option) list_for_each_from ::
    "(u64 \<Rightarrow> lheap \<times> 's \<Rightarrow> (lheap \<times> 's) option) \<Rightarrow> u64 \<Rightarrow> u64 \<Rightarrow> u64 \<Rightarrow> lheap \<times> 's \<Rightarrow> (lheap \<times> 's) option" where
  [code]: "list_for_each_from body head off pos st =
     (if pos + off = head then Some st
      else Option.bind (body pos st) (\<lambda>st.
             Option.bind (list_next_entry pos off (fst st)) (\<lambda>pos. list_for_each_from body head off pos st)))"

definition list_for_each_entry ::
    "(u64 \<Rightarrow> lheap \<times> 's \<Rightarrow> (lheap \<times> 's) option) \<Rightarrow> u64 \<Rightarrow> u64 \<Rightarrow> lheap \<times> 's \<Rightarrow> (lheap \<times> 's) option" where
  "list_for_each_entry body head off st = do {
     pos \<leftarrow> list_first_entry head off (fst st);
     list_for_each_from body head off pos st }"

section \<open>Chains in the store\<close>

text \<open>Consecutive nodes point to each other; a list is a chain from its head round to its head.\<close>

fun chain :: "lheap \<Rightarrow> u64 list \<Rightarrow> bool" where
  "chain h (x # y # zs) \<longleftrightarrow> get_next h x = Some y \<and> get_prev h y = Some x \<and> chain h (y # zs)"
| "chain h xs \<longleftrightarrow> True"

definition dlist :: "lheap \<Rightarrow> u64 \<Rightarrow> u64 list \<Rightarrow> bool" where
  "dlist h head xs \<longleftrightarrow> distinct (head # xs) \<and> chain h (head # xs @ [head])"

lemma chain_append: "chain h (xs @ y # zs) \<longleftrightarrow> chain h (xs @ [y]) \<and> chain h (y # zs)"
  by (induction h xs rule: chain.induct) (auto simp: neq_Nil_conv elim: chain.elims)

definition upd_next :: "u64 \<Rightarrow> u64 \<Rightarrow> lheap \<Rightarrow> lheap" where
  "upd_next p v h = h(p := map_option (lh_next_update (\<lambda>_. v)) (h p))"

definition upd_prev :: "u64 \<Rightarrow> u64 \<Rightarrow> lheap \<Rightarrow> lheap" where
  "upd_prev p v h = h(p := map_option (lh_prev_update (\<lambda>_. v)) (h p))"

lemma set_link [simp]:
  assumes "p \<in> dom h"
  shows "set_next p v h = Some (upd_next p v h)" and "set_prev p v h = Some (upd_prev p v h)"
  using assms by (auto simp: set_next_def set_prev_def upd_next_def upd_prev_def)

lemma dom_upd [simp]: "dom (upd_next p v h) = dom h" "dom (upd_prev p v h) = dom h"
  by (auto simp: upd_next_def upd_prev_def split: if_splits)

lemma upd_other [simp]: "q \<noteq> p \<Longrightarrow> upd_next p v h q = h q" "q \<noteq> p \<Longrightarrow> upd_prev p v h q = h q"
  by (simp_all add: upd_next_def upd_prev_def)

lemma get_upd [simp]:
  "p \<in> dom h \<Longrightarrow> get_next (upd_next p v h) q = (if q = p then Some v else get_next h q)"
  "p \<in> dom h \<Longrightarrow> get_prev (upd_prev p v h) q = (if q = p then Some v else get_prev h q)"
  "get_next (upd_prev p v h) = get_next h" "get_prev (upd_next p v h) = get_prev h"
  by (auto simp: get_next_def get_prev_def upd_next_def upd_prev_def fun_eq_iff option.map_comp comp_def)

lemma get_dom: "get_next h p = Some v \<Longrightarrow> p \<in> dom h" "get_prev h p = Some v \<Longrightarrow> p \<in> dom h"
  by (auto simp: get_next_def get_prev_def)

lemma chain_cong:
  assumes "\<forall>x \<in> set (butlast xs). get_next h' x = get_next h x" and "\<forall>x \<in> set (tl xs). get_prev h' x = get_prev h x"
  shows "chain h' xs \<longleftrightarrow> chain h xs"
  using assms by (induction h xs rule: chain.induct) (auto split: if_splits)

lemma chain_dom:
  assumes "chain h xs" and "2 \<le> length xs"
  shows "set xs \<subseteq> dom h"
  using assms
proof (induction h xs rule: chain.induct)
  case (1 h x y zs)
  then show ?case by (cases zs) (auto dest: get_dom)
qed auto

lemma dlist_dom: "dlist h head xs \<Longrightarrow> insert head (set xs) \<subseteq> dom h"
  using chain_dom [of h "head # xs @ [head]"] by (auto simp: dlist_def)

text \<open>Splitting a list at a node: its neighbours are the last and the first node of the two parts, or the head.\<close>

lemma dlist_split:
  "dlist h head (as @ x # bs) \<longleftrightarrow>
     distinct (head # as @ x # bs) \<and> chain h (head # as @ [x]) \<and> chain h (x # bs @ [head])"
  using chain_append [of h "head # as" x "bs @ [head]"] by (auto simp: dlist_def)

section \<open>Operations on chains\<close>

lemma list_add_between_eq:
  assumes "new \<in> dom h" and "prev \<in> dom h" and "nxt \<in> dom h"
  shows "list_add_between new prev nxt h = Some (upd_next prev new (upd_prev new prev (upd_next new nxt (upd_prev nxt new h))))"
  using assms by (simp add: list_add_between_def)

lemma list_del_between_eq:
  assumes "prev \<in> dom h" and "nxt \<in> dom h"
  shows "list_del_between prev nxt h = Some (upd_next prev nxt (upd_prev nxt prev h))"
  using assms by (simp add: list_del_between_def)

text \<open>Changing the links between two neighbours \<open>p\<close> and \<open>n\<close>, and a node \<open>x\<close> of no part, keeps both parts.\<close>

lemma chain_parts:
  assumes "distinct (butlast (as @ p # n # bs))" and "distinct (tl (as @ p # n # bs))" and "x \<notin> set (as @ p # n # bs)"
    and "\<And>q. q \<noteq> p \<Longrightarrow> q \<noteq> x \<Longrightarrow> get_next h' q = get_next h q"
    and "\<And>q. q \<noteq> n \<Longrightarrow> q \<noteq> x \<Longrightarrow> get_prev h' q = get_prev h q"
  shows "chain h' (as @ [p]) \<longleftrightarrow> chain h (as @ [p])" and "chain h' (n # bs) \<longleftrightarrow> chain h (n # bs)"
proof -
  have 1: "p \<notin> set as" "p \<notin> set (butlast (n # bs))"
    using assms(1) by (auto simp: butlast_append)
  have 2: "n \<notin> set (tl (as @ [p]))" "n \<notin> set bs"
    using assms(2) by (cases as; auto)+
  show "chain h' (as @ [p]) \<longleftrightarrow> chain h (as @ [p])"
  proof (rule chain_cong)
    show "\<forall>y\<in>set (butlast (as @ [p])). get_next h' y = get_next h y"
      using 1(1) assms(3,4) by (metis Un_iff butlast_snoc set_append)
    show "\<forall>y\<in>set (tl (as @ [p])). get_prev h' y = get_prev h y"
      using 2(1) assms(3,5) by (cases as) (simp, force)
  qed
  show "chain h' (n # bs) \<longleftrightarrow> chain h (n # bs)"
  proof (rule chain_cong)
    have "x \<notin> set (butlast (n # bs))" using assms(3) by (auto dest: in_set_butlastD split: if_splits)
    then show "\<forall>y\<in>set (butlast (n # bs)). get_next h' y = get_next h y"
      using 1(2) assms(4) by metis
    have "x \<notin> set bs" using assms(3) by simp
    then show "\<forall>y\<in>set (tl (n # bs)). get_prev h' y = get_prev h y"
      using 2(2) assms(5) by (metis list.sel(3))
  qed
qed

lemma chain_insert:
  assumes "chain h (as @ p # n # bs)" and "distinct (butlast (as @ p # n # bs))" and "distinct (tl (as @ p # n # bs))"
    and "new \<notin> set (as @ p # n # bs)" and "new \<in> dom h"
  shows "\<exists>h'. list_add_between new p n h = Some h' \<and> chain h' (as @ p # new # n # bs) \<and> dom h' = dom h \<and>
    (\<forall>q. q \<notin> {new, p, n} \<longrightarrow> h' q = h q)"
proof -
  let ?h = "upd_next p new (upd_prev new p (upd_next new n (upd_prev n new h)))"
  have sub: "p \<in> dom h" "n \<in> dom h" using chain_dom [OF assms(1)] by auto
  have "chain h (as @ [p])" "chain h (n # bs)"
    using assms(1) chain_append [of h as p "n # bs"] by auto
  with chain_parts [OF assms(2,3,4), of ?h h] have "chain ?h (as @ [p])" "chain ?h (n # bs)"
    using assms(5) sub by simp_all
  then have "chain ?h (as @ p # new # n # bs)"
    using chain_append [of ?h as p "new # n # bs"] assms(4,5) sub by auto
  then show ?thesis using sub assms(5) by (auto simp: list_add_between_eq)
qed

lemma chain_remove:
  assumes "chain h (as @ p # x # n # bs)" and "distinct (butlast (as @ p # n # bs))" and "distinct (tl (as @ p # n # bs))"
    and "x \<notin> set (as @ p # n # bs)"
  shows "\<exists>h'. list_del_between p n h = Some h' \<and> chain h' (as @ p # n # bs) \<and> dom h' = dom h \<and>
    (\<forall>q. q \<notin> {p, n} \<longrightarrow> h' q = h q)"
proof -
  let ?h = "upd_next p n (upd_prev n p h)"
  have sub: "p \<in> dom h" "n \<in> dom h" using chain_dom [OF assms(1)] by auto
  have "chain h (as @ [p])" "chain h (n # bs)"
    using assms(1) chain_append [of h as p "x # n # bs"] by auto
  with chain_parts [OF assms(2,3,4), of ?h h] have "chain ?h (as @ [p])" "chain ?h (n # bs)"
    using sub by simp_all
  then have "chain ?h (as @ p # n # bs)"
    using chain_append [of ?h as p "n # bs"] sub by auto
  then show ?thesis using sub by (auto simp: list_del_between_eq)
qed

section \<open>Operations on lists\<close>

text \<open>A list with a cut: the node before the cut is \<open>last (head # as)\<close>, the one after it \<open>hd (bs @ [head])\<close>.\<close>

lemma cut_form:
  obtains ps p n ns where "head # as = ps @ [p]" and "bs @ [head] = n # ns" and "last (head # as) = p"
    and "head # as @ bs @ [head] = ps @ p # n # ns"
proof -
  have "head # as = butlast (head # as) @ [last (head # as)]" by simp
  moreover obtain n ns where "bs @ [head] = n # ns" by (cases bs) auto
  ultimately show thesis using that [of "butlast (head # as)" "last (head # as)" n ns]
    by (metis append_Cons append_assoc append_Nil)
qed

lemma dlist_list_add:
  assumes "dlist h head (as @ bs)" and "new \<notin> set (head # as @ bs)" and "new \<in> dom h"
  shows "\<exists>h'. list_add new (last (head # as)) h = Some h' \<and> dlist h' head (as @ new # bs) \<and> dom h' = dom h \<and>
    (\<forall>q. q \<notin> set (new # head # as @ bs) \<longrightarrow> h' q = h q)"
proof -
  obtain ps p n ns where c: "head # as = ps @ [p]" "bs @ [head] = n # ns" "last (head # as) = p"
      "head # as @ bs @ [head] = ps @ p # n # ns"
    by (rule cut_form)
  have ch: "chain h (ps @ p # n # ns)" using assms(1) c(4) by (simp add: dlist_def)
  have d: "distinct (butlast (ps @ p # n # ns))" "distinct (tl (ps @ p # n # ns))" "new \<notin> set (ps @ p # n # ns)"
    using assms(1,2) unfolding dlist_def c(4) [symmetric] by (auto simp: butlast_append)
  have nx: "get_next h p = Some n" using ch chain_append [of h ps p "n # ns"] by simp
  obtain h' where h': "list_add_between new p n h = Some h'" "chain h' (ps @ p # new # n # ns)" "dom h' = dom h"
      "\<forall>q. q \<notin> {new, p, n} \<longrightarrow> h' q = h q"
    using chain_insert [OF ch d assms(3)] by blast
  have "ps @ p # new # n # ns = head # (as @ new # bs) @ [head]" using c(1,2) by (metis append.assoc append_Cons append_Nil)
  then have "dlist h' head (as @ new # bs)" using h'(2) assms(1,2) by (auto simp: dlist_def)
  moreover have "{p, n} \<subseteq> set (head # as @ bs)"
  proof -
    have "set (head # as @ bs) = set (ps @ p # n # ns)" unfolding c(4) [symmetric] by auto
    then show ?thesis by auto
  qed
  ultimately show ?thesis using h' nx c(3) by (auto simp: list_add_def)
qed

lemma dlist_list_del:
  assumes "dlist h head (as @ x # bs)"
  shows "\<exists>h'. list_del x h = Some h' \<and> dlist h' head (as @ bs) \<and> h' x = Some \<lparr>lh_next = LIST_POISON1, lh_prev = LIST_POISON2\<rparr> \<and>
    dom h' = dom h \<and> (\<forall>q. q \<notin> set (head # as @ x # bs) \<longrightarrow> h' q = h q)"
proof -
  obtain ps p n ns where c: "head # as = ps @ [p]" "bs @ [head] = n # ns" "last (head # as) = p"
      "head # as @ bs @ [head] = ps @ p # n # ns"
    by (rule cut_form)
  have form: "head # (as @ x # bs) @ [head] = ps @ p # x # n # ns"
    using c(1,2) by (metis append.assoc append_Cons append_Nil)
  have ch: "chain h (ps @ p # x # n # ns)" using assms form by (simp add: dlist_def)
  have d: "distinct (butlast (ps @ p # n # ns))" "distinct (tl (ps @ p # n # ns))" "x \<notin> set (ps @ p # n # ns)"
    using assms unfolding dlist_def c(4) [symmetric] by (auto simp: butlast_append)
  have links: "get_prev h x = Some p" "get_next h x = Some n"
    using ch chain_append [of h ps p "x # n # ns"] by auto
  obtain g where g: "list_del_between p n h = Some g" "chain g (ps @ p # n # ns)" "dom g = dom h"
      "\<forall>q. q \<notin> {p, n} \<longrightarrow> g q = h q"
    using chain_remove [OF ch d] by blast
  let ?h = "upd_prev x LIST_POISON2 (upd_next x LIST_POISON1 g)"
  have x: "x \<in> dom g" using links g(3) get_dom by auto
  have eq: "list_del x h = Some ?h" using links g(1) x by (simp add: list_del_def)
  have "chain ?h (ps @ p # n # ns) \<longleftrightarrow> chain g (ps @ p # n # ns)"
    using d(3) x by (intro chain_cong) (auto simp: butlast_append split: if_splits dest: in_set_butlastD, (cases ps; auto)+)
  then have "dlist ?h head (as @ bs)" using assms g(2) c(4) by (auto simp: dlist_def)
  moreover have "?h x = Some \<lparr>lh_next = LIST_POISON1, lh_prev = LIST_POISON2\<rparr>"
    using x by (auto simp: upd_prev_def upd_next_def)
  moreover have "{p, n} \<subseteq> set (head # as @ x # bs)"
  proof -
    have "set (ps @ p # x # n # ns) \<subseteq> set (head # as @ x # bs)" unfolding form [symmetric] by auto
    then show ?thesis by auto
  qed
  ultimately show ?thesis using eq g x by (auto simp: subset_iff)
qed

lemma dlist_init:
  assumes "head \<in> dom h"
  shows "\<exists>h'. INIT_LIST_HEAD head h = Some h' \<and> dlist h' head [] \<and> dom h' = dom h \<and> (\<forall>q. q \<noteq> head \<longrightarrow> h' q = h q)"
  using assms by (auto simp: INIT_LIST_HEAD_def dlist_def)

lemma dlist_empty: "dlist h head xs \<Longrightarrow> list_empty head h = Some (xs = [])"
  by (cases xs) (auto simp: dlist_def list_empty_def)

lemma dlist_frame: "dlist h head xs \<Longrightarrow> (\<And>q. q \<in> set (head # xs) \<Longrightarrow> h' q = h q) \<Longrightarrow> dlist h' head xs"
  using chain_cong [of "head # xs @ [head]" h' h] by (auto simp: dlist_def get_next_def get_prev_def butlast_append)

section \<open>The contract of an intrusive list\<close>

text \<open>Sequences of insertions and deletions, and what they do to the abstract list behind \<open>head\<close>.\<close>

datatype 'p list_op = Add 'p 'p | Del 'p \<comment> \<open>\<open>Add new after\<close>\<close>

fun insert_after :: "'p \<Rightarrow> 'p \<Rightarrow> 'p list \<Rightarrow> 'p list" where
  "insert_after y new [] = []"
| "insert_after y new (x # xs) = (if x = y then x # new # xs else x # insert_after y new xs)"

fun abs_step :: "'p \<Rightarrow> 'p list_op \<Rightarrow> 'p list \<Rightarrow> 'p list option" where
  "abs_step head (Add new y) xs =
     (if y \<in> set (head # xs) \<and> new \<notin> set (head # xs) then Some (tl (insert_after y new (head # xs))) else None)"
| "abs_step head (Del x) xs = (if x \<in> set xs then Some (remove1 x xs) else None)"

fun abs_run :: "'p \<Rightarrow> 'p list_op list \<Rightarrow> 'p list \<Rightarrow> 'p list option" where
  "abs_run head [] xs = Some xs"
| "abs_run head (c # cs) xs = Option.bind (abs_step head c xs) (abs_run head cs)"

fun added :: "'p list_op list \<Rightarrow> 'p set" where
  "added [] = {}"
| "added (Add new y # cs) = insert new (added cs)"
| "added (Del x # cs) = added cs"

fun run_step :: "('p \<Rightarrow> 'p \<Rightarrow> 'h \<Rightarrow> 'h option) \<Rightarrow> ('p \<Rightarrow> 'h \<Rightarrow> 'h option) \<Rightarrow> 'p list_op \<Rightarrow> 'h \<Rightarrow> 'h option" where
  "run_step add del (Add new y) h = add new y h"
| "run_step add del (Del x) h = del x h"

fun run_ops :: "('p \<Rightarrow> 'p \<Rightarrow> 'h \<Rightarrow> 'h option) \<Rightarrow> ('p \<Rightarrow> 'h \<Rightarrow> 'h option) \<Rightarrow> 'p list_op list \<Rightarrow> 'h \<Rightarrow> 'h option" where
  "run_ops add del [] h = Some h"
| "run_ops add del (c # cs) h = Option.bind (run_step add del c h) (run_ops add del cs)"

lemma insert_after_cut:
  assumes "y \<in> set (head # xs)" and "distinct (head # xs)"
  obtains as bs where "xs = as @ bs" and "last (head # as) = y" and "tl (insert_after y new (head # xs)) = as @ new # bs"
proof (cases "y = head")
  case True
  with that [of "[]" xs] show thesis by simp
next
  case False
  with assms(1) have "y \<in> set xs" by simp
  then obtain as bs where s: "xs = as @ y # bs" "y \<notin> set as" by (metis split_list_first)
  have "insert_after y new (as @ y # bs) = as @ y # new # bs" using s(2) by (induction as) auto
  with False s show thesis by (intro that [of "as @ [y]" bs]) auto
qed

locale intrusive_list =
  fixes rep :: "'h \<Rightarrow> 'p \<Rightarrow> 'p list \<Rightarrow> bool"
    and objects :: "'h \<Rightarrow> 'p set"
    and add :: "'p \<Rightarrow> 'p \<Rightarrow> 'h \<Rightarrow> 'h option"
    and del :: "'p \<Rightarrow> 'h \<Rightarrow> 'h option"
  assumes rep_distinct: "rep h head xs \<Longrightarrow> distinct (head # xs)"
    and rep_add: "rep h head (as @ bs) \<Longrightarrow> new \<notin> set (head # as @ bs) \<Longrightarrow> new \<in> objects h \<Longrightarrow>
      \<exists>h'. add new (last (head # as)) h = Some h' \<and> rep h' head (as @ new # bs) \<and> objects h' = objects h \<and>
        (\<forall>hd2 zs. rep h hd2 zs \<longrightarrow> set (hd2 # zs) \<inter> set (new # head # as @ bs) = {} \<longrightarrow> rep h' hd2 zs)"
    and rep_del: "rep h head (as @ x # bs) \<Longrightarrow>
      \<exists>h'. del x h = Some h' \<and> rep h' head (as @ bs) \<and> objects h' = objects h \<and>
        (\<forall>hd2 zs. rep h hd2 zs \<longrightarrow> set (hd2 # zs) \<inter> set (head # as @ x # bs) = {} \<longrightarrow> rep h' hd2 zs)"
begin

lemma step_refines:
  assumes "rep h head xs" and "abs_step head c xs = Some ys" and "added [c] \<subseteq> objects h"
  shows "\<exists>h'. run_step add del c h = Some h' \<and> rep h' head ys \<and> objects h' = objects h \<and>
    set ys \<subseteq> set xs \<union> added [c] \<and>
    (\<forall>hd2 zs. rep h hd2 zs \<longrightarrow> set (hd2 # zs) \<inter> (set (head # xs) \<union> added [c]) = {} \<longrightarrow> rep h' hd2 zs)"
proof (cases c)
  case (Add new y)
  from assms(2) Add have y: "y \<in> set (head # xs)" "new \<notin> set (head # xs)"
      and ys: "ys = tl (insert_after y new (head # xs))"
    by (auto split: if_splits)
  obtain as bs where c: "xs = as @ bs" "last (head # as) = y" "tl (insert_after y new (head # xs)) = as @ new # bs"
    by (rule insert_after_cut [OF y(1) rep_distinct [OF assms(1)]])
  have "new \<in> objects h" using assms(3) Add by simp
  from rep_add [OF assms(1) [unfolded c(1)] y(2) [unfolded c(1)] this] show ?thesis
    using Add ys c by (auto simp: Int_commute)
next
  case (Del x)
  with assms(2) have "x \<in> set xs" "ys = remove1 x xs" by (auto split: if_splits)
  then obtain as bs where c: "xs = as @ x # bs" "ys = as @ bs"
    by (metis remove1_append remove1.simps(2) split_list_first)
  from rep_del [OF assms(1) [unfolded c(1)]] show ?thesis using Del c by (auto simp: Int_commute)
qed

lemma run_refines:
  assumes "rep h head xs" and "abs_run head cs xs = Some ys" and "added cs \<subseteq> objects h"
  shows "\<exists>h'. run_ops add del cs h = Some h' \<and> rep h' head ys \<and>
    (\<forall>hd2 zs. rep h hd2 zs \<longrightarrow> set (hd2 # zs) \<inter> (set (head # xs) \<union> added cs) = {} \<longrightarrow> rep h' hd2 zs)"
  using assms
proof (induction cs arbitrary: h xs)
  case Nil
  then show ?case by simp
next
  case (Cons c cs)
  have split: "added (c # cs) = added [c] \<union> added cs" by (cases c) auto
  from Cons.prems(2) obtain us where us: "abs_step head c xs = Some us" "abs_run head cs us = Some ys"
    by (auto simp: bind_eq_Some_conv)
  from step_refines [OF Cons.prems(1) us(1)] Cons.prems(3) split obtain h1 where h1: "run_step add del c h = Some h1"
      "rep h1 head us" "objects h1 = objects h" "set us \<subseteq> set xs \<union> added [c]"
      "\<forall>hd2 zs. rep h hd2 zs \<longrightarrow> set (hd2 # zs) \<inter> (set (head # xs) \<union> added [c]) = {} \<longrightarrow> rep h1 hd2 zs"
    by auto
  have "added cs \<subseteq> objects h1" using Cons.prems(3) split h1(3) by auto
  from Cons.IH [OF h1(2) us(2) this] obtain h' where h': "run_ops add del cs h1 = Some h'" "rep h' head ys"
      "\<forall>hd2 zs. rep h1 hd2 zs \<longrightarrow> set (hd2 # zs) \<inter> (set (head # us) \<union> added cs) = {} \<longrightarrow> rep h' hd2 zs"
    by blast
  have "rep h' hd2 zs" if "rep h hd2 zs" "set (hd2 # zs) \<inter> (set (head # xs) \<union> added (c # cs)) = {}" for hd2 zs
  proof -
    have "rep h1 hd2 zs" using h1(5) that split by blast
    moreover have "set (hd2 # zs) \<inter> (set (head # us) \<union> added cs) = {}" using that(2) h1(4) split by auto
    ultimately show ?thesis using h'(3) by blast
  qed
  then show ?case using h1(1) h'(1,2) by simp
qed

end

interpretation linux_list: intrusive_list dlist dom list_add list_del
proof
  fix h head xs assume "dlist h head xs" then show "distinct (head # xs)" by (simp add: dlist_def)
next
  fix h head as bs new
  assume "dlist h head (as @ bs)" "new \<notin> set (head # as @ bs)" "new \<in> dom h"
  from dlist_list_add [OF this] show "\<exists>h'. list_add new (last (head # as)) h = Some h' \<and> dlist h' head (as @ new # bs) \<and>
      dom h' = dom h \<and> (\<forall>hd2 zs. dlist h hd2 zs \<longrightarrow> set (hd2 # zs) \<inter> set (new # head # as @ bs) = {} \<longrightarrow> dlist h' hd2 zs)"
    by (elim ex_forward conj_forward) (blast intro: dlist_frame)+
next
  fix h head as x bs
  assume "dlist h head (as @ x # bs)"
  from dlist_list_del [OF this] show "\<exists>h'. list_del x h = Some h' \<and> dlist h' head (as @ bs) \<and>
      dom h' = dom h \<and> (\<forall>hd2 zs. dlist h hd2 zs \<longrightarrow> set (hd2 # zs) \<inter> set (head # as @ x # bs) = {} \<longrightarrow> dlist h' hd2 zs)"
    by (blast intro: dlist_frame)
qed

section \<open>Traversal\<close>

fun fold_option :: "('x \<Rightarrow> 's \<Rightarrow> 's option) \<Rightarrow> 'x list \<Rightarrow> 's \<Rightarrow> 's option" where
  "fold_option f [] s = Some s"
| "fold_option f (x # xs) s = Option.bind (f x s) (fold_option f xs)"

lemma dlist_successor:
  assumes "dlist h head (as @ x # bs)"
  shows "get_next h x = Some (hd (bs @ [head]))" and "x \<noteq> head"
proof -
  have "chain h (x # bs @ [head])" using assms by (simp add: dlist_split)
  then show "get_next h x = Some (hd (bs @ [head]))" by (cases bs) auto
  show "x \<noteq> head" using assms by (auto simp: dlist_def)
qed

lemma for_each_from:
  assumes "xs = as @ bs" and "dlist (fst st) head xs"
    and "\<And>x st st'. x \<in> set xs \<Longrightarrow> dlist (fst st) head xs \<Longrightarrow> body (container_of x off) st = Some st' \<Longrightarrow> dlist (fst st') head xs"
  shows "list_for_each_from body head off (container_of (hd (bs @ [head])) off) st =
    fold_option body (map (\<lambda>x. container_of x off) bs) st"
  using assms(1,2)
proof (induction bs arbitrary: as st)
  case Nil
  then show ?case by (subst list_for_each_from.simps) (simp add: container_of_def)
next
  case (Cons x bs)
  have step: "list_next_entry (container_of x off) off (fst st') = Some (container_of (hd (bs @ [head])) off)"
    if "dlist (fst st') head xs" for st' :: "lheap \<times> 'a"
    using dlist_successor(1) [of "fst st'" head as x bs] that Cons.prems(1)
    by (simp add: list_next_entry_def container_of_def)
  have x: "x \<in> set xs" "x \<noteq> head"
    using Cons.prems dlist_successor(2) [of "fst st" head as x bs] by auto
  show ?case
  proof (cases "body (container_of x off) st")
    case None
    then show ?thesis using x(2) by (subst list_for_each_from.simps) (simp add: container_of_def)
  next
    case (Some st')
    have d: "dlist (fst st') head xs" by (rule assms(3) [OF x(1) Cons.prems(2) Some])
    have "list_for_each_from body head off (container_of (hd (bs @ [head])) off) st' =
        fold_option body (map (\<lambda>x. container_of x off) bs) st'"
      using Cons.IH [of "as @ [x]" st'] Cons.prems(1) d by simp
    then show ?thesis using x(2) Some step [OF d]
      by (subst list_for_each_from.simps) (simp add: container_of_def)
  qed
qed

text \<open>The body of a loop that deletes the entry it is at; there is no \<open>_safe\<close> form of the loop in this header.\<close>

definition delete_body :: "u64 \<Rightarrow> u64 \<Rightarrow> lheap \<times> unit \<Rightarrow> (lheap \<times> unit) option" where
  "delete_body off pos st = map_option (\<lambda>h. (h, ())) (list_del (pos + off) (fst st))"

lemma deleting_in_loop_faults:
  assumes "dlist h head (x # xs)" and "LIST_POISON1 \<notin> dom h"
  shows "list_for_each_entry (delete_body off) head off (h, ()) = None"
proof -
  have first: "list_first_entry head off h = Some (container_of x off)" and x: "x \<noteq> head"
    using assms(1) by (auto simp: dlist_def list_first_entry_def)
  obtain h' where h': "list_del x h = Some h'" "h' x = Some \<lparr>lh_next = LIST_POISON1, lh_prev = LIST_POISON2\<rparr>"
      "dom h' = dom h"
    using dlist_list_del [of h head "[]" x xs] assms(1) by auto
  have "head \<in> dom h" using dlist_dom [OF assms(1)] by auto
  then have "LIST_POISON1 \<noteq> head" using assms(2) by auto
  moreover have "get_prev h' LIST_POISON1 = None"
    using assms(2) h'(3) by (auto simp: get_prev_def)
  ultimately have "list_for_each_from (delete_body off) head off (container_of LIST_POISON1 off) (h', ()) = None"
    by (subst list_for_each_from.simps) (simp add: container_of_def delete_body_def list_del_def)
  moreover have "list_next_entry (container_of x off) off h' = Some (container_of LIST_POISON1 off)"
    using h'(2) by (simp add: list_next_entry_def container_of_def get_next_def)
  ultimately have "list_for_each_from (delete_body off) head off (container_of x off) (h, ()) = None"
    using x h'(1) by (subst list_for_each_from.simps) (simp add: container_of_def delete_body_def)
  then show ?thesis using first by (simp add: list_for_each_entry_def)
qed

section \<open>Properties\<close>

text \<open>
  (C34) Lists.  Every sequence of \<open>list_add\<close> and \<open>list_del\<close> that makes sense on the abstract list runs without touching
  memory outside the objects, and leaves the links of exactly the list that inserting behind the named node and deleting
  give; \<open>list_empty\<close> tells whether it is empty, and every other list that shares no node with it is unchanged.
\<close>

theorem list_operations_refine:
  assumes "dlist h head xs" and "abs_run head cs xs = Some ys" and "added cs \<subseteq> dom h"
  shows "\<exists>h'. run_ops list_add list_del cs h = Some h' \<and> dlist h' head ys \<and> list_empty head h' = Some (ys = []) \<and>
    (\<forall>hd2 zs. dlist h hd2 zs \<and> set (hd2 # zs) \<inter> (set (head # xs) \<union> added cs) = {} \<longrightarrow> dlist h' hd2 zs)"
  using linux_list.run_refines [OF assms] dlist_empty by blast

definition three_nodes :: lheap where
  "three_nodes = [8 \<mapsto> LIST_HEAD_INIT 8, 16 \<mapsto> LIST_HEAD_INIT 16, 24 \<mapsto> LIST_HEAD_INIT 0]"

theorem list_operations_refine_witness:
  "\<exists>h'. run_ops list_add list_del [Add 16 8, Add 24 16, Del 16] three_nodes = Some h' \<and> dlist h' 8 [24]"
proof -
  have "dlist three_nodes 8 []" by (simp add: dlist_def three_nodes_def LIST_HEAD_INIT_def get_next_def get_prev_def)
  moreover have "abs_run 8 [Add 16 8, Add 24 16, Del 16] [] = Some [24 :: u64]" by simp
  moreover have "added [Add 16 8, Add 24 16, Del 16] \<subseteq> dom three_nodes" by (simp add: three_nodes_def)
  ultimately show ?thesis
    using list_operations_refine [of three_nodes 8 "[]" "[Add 16 8, Add 24 16, Del 16]" "[24]"] by blast
qed

text \<open>
  (C35) Traversal.  As long as its body keeps the links of the list, \<open>list_for_each_entry\<close> ends and runs the body once for
  each entry, in the order of the list and on the enclosing objects; it stops early only where the body itself faults.
\<close>

theorem list_for_each_entry_visits_all:
  assumes "dlist h head xs"
    and "\<And>x st st'. x \<in> set xs \<Longrightarrow> dlist (fst st) head xs \<Longrightarrow> body (container_of x off) st = Some st' \<Longrightarrow> dlist (fst st') head xs"
  shows "list_for_each_entry body head off (h, s) = fold_option body (map (\<lambda>x. container_of x off) xs) (h, s)"
proof -
  have "get_next h head = Some (hd (xs @ [head]))" using assms(1) by (cases xs) (auto simp: dlist_def)
  then have "list_for_each_entry body head off (h, s) =
      list_for_each_from body head off (container_of (hd (xs @ [head])) off) (h, s)"
    by (simp add: list_for_each_entry_def list_first_entry_def)
  then show ?thesis using for_each_from [of xs "[]" xs "(h, s)" head body off] assms by simp
qed

theorem list_for_each_entry_visits_all_witness:
  "list_for_each_entry (\<lambda>pos st. Some (fst st, snd st @ [pos])) 8 4
     ([8 \<mapsto> \<lparr>lh_next = 16, lh_prev = 16\<rparr>, 16 \<mapsto> \<lparr>lh_next = 8, lh_prev = 8\<rparr>], []) =
   Some ([8 \<mapsto> \<lparr>lh_next = 16, lh_prev = 16\<rparr>, 16 \<mapsto> \<lparr>lh_next = 8, lh_prev = 8\<rparr>], [12])"
proof -
  let ?h = "[8 \<mapsto> \<lparr>lh_next = 16, lh_prev = 16\<rparr>, 16 \<mapsto> \<lparr>lh_next = 8, lh_prev = 8\<rparr>] :: lheap"
  have "dlist ?h 8 [16]" by (simp add: dlist_def get_next_def get_prev_def)
  then show ?thesis by (subst list_for_each_entry_visits_all) (auto simp: container_of_def)
qed

end
