(* ===== verification/Bpf_Insn.thy ===== *)
theory Bpf_Insn
  imports Prelude
begin

unbundle bit_operations_syntax

text \<open>
  BPF instructions: \<open>struct bpf_insn\<close> and the opcode fields of \<open>bpf_common.h\<close> and \<open>bpf.h\<close>, and the macros of the SDK's
  \<open>linux/filter.h\<close> that build instructions.  The macros are the encoder; a decoder that looks only at the fields the
  headers document is its specification.  Operation and size arguments are the constants of the headers, which fit a byte.
\<close>

section \<open>Instructions\<close>

record bpf_insn =
  code :: u8
  dst_reg :: "4 word"
  src_reg :: "4 word"
  off :: u16
  imm :: i32

definition BPF_CLASS :: "u8 \<Rightarrow> u8" where "BPF_CLASS c = c AND 0x07"
definition BPF_LD :: u8 where "BPF_LD = 0x00"
definition BPF_LDX :: u8 where "BPF_LDX = 0x01"
definition BPF_ST :: u8 where "BPF_ST = 0x02"
definition BPF_STX :: u8 where "BPF_STX = 0x03"
definition BPF_ALU :: u8 where "BPF_ALU = 0x04"
definition BPF_JMP :: u8 where "BPF_JMP = 0x05"
definition BPF_JMP32 :: u8 where "BPF_JMP32 = 0x06"
definition BPF_ALU64 :: u8 where "BPF_ALU64 = 0x07"

definition BPF_SIZE :: "u8 \<Rightarrow> u8" where "BPF_SIZE c = c AND 0x18"
definition BPF_W :: u8 where "BPF_W = 0x00"
definition BPF_H :: u8 where "BPF_H = 0x08"
definition BPF_B :: u8 where "BPF_B = 0x10"
definition BPF_DW :: u8 where "BPF_DW = 0x18"

definition BPF_MODE :: "u8 \<Rightarrow> u8" where "BPF_MODE c = c AND 0xe0"
definition BPF_IMM :: u8 where "BPF_IMM = 0x00"
definition BPF_MEM :: u8 where "BPF_MEM = 0x60"

definition BPF_OP :: "u8 \<Rightarrow> u8" where "BPF_OP c = c AND 0xf0"
definition BPF_SRC :: "u8 \<Rightarrow> u8" where "BPF_SRC c = c AND 0x08"
definition BPF_K :: u8 where "BPF_K = 0x00"
definition BPF_X :: u8 where "BPF_X = 0x08"
definition BPF_MOV :: u8 where "BPF_MOV = 0xb0"
definition BPF_CALL :: u8 where "BPF_CALL = 0x80"
definition BPF_EXIT :: u8 where "BPF_EXIT = 0x90"

text \<open>\<open>BPF_ADD\<close>, \<open>SUB\<close>, \<open>MUL\<close>, \<open>DIV\<close>, \<open>OR\<close>, \<open>AND\<close>, \<open>LSH\<close>, \<open>RSH\<close>, \<open>NEG\<close>, \<open>MOD\<close>, \<open>XOR\<close>, and \<open>MOV\<close>, \<open>ARSH\<close>, \<open>END\<close> of \<open>bpf.h\<close>.\<close>

definition alu_ops :: "u8 list" where
  "alu_ops = [0x00, 0x10, 0x20, 0x30, 0x40, 0x50, 0x60, 0x70, 0x80, 0x90, 0xa0, BPF_MOV, 0xc0, 0xd0]"

text \<open>\<open>BPF_JA\<close>, \<open>JEQ\<close>, \<open>JGT\<close>, \<open>JGE\<close>, \<open>JSET\<close>; \<open>JNE\<close>, \<open>JLT\<close>, \<open>JLE\<close>, \<open>JSGT\<close>, \<open>JSGE\<close>, \<open>JSLT\<close>, \<open>JSLE\<close>.\<close>

definition jmp_ops :: "u8 list" where
  "jmp_ops = [0x00, 0x10, 0x20, 0x30, 0x40] @ [0x50, 0xa0, 0xb0, 0x60, 0x70, 0xc0, 0xd0]"

definition mem_sizes :: "u8 list" where
  "mem_sizes = [BPF_W, BPF_H, BPF_B, BPF_DW]"

section \<open>The macros of \<open>filter.h\<close>\<close>

text \<open>Register and offset arguments are \<open>int\<close>s, cut to the width of their field.\<close>

definition BPF_RAW_INSN :: "u8 \<Rightarrow> i32 \<Rightarrow> i32 \<Rightarrow> i32 \<Rightarrow> i32 \<Rightarrow> bpf_insn" where
  "BPF_RAW_INSN CODE DST SRC OFF IMM =
     \<lparr>code = CODE, dst_reg = ucast DST, src_reg = ucast SRC, off = ucast OFF, imm = IMM\<rparr>"

definition BPF_ALU32_IMM :: "u8 \<Rightarrow> i32 \<Rightarrow> i32 \<Rightarrow> bpf_insn" where
  "BPF_ALU32_IMM OP DST IMM =
     \<lparr>code = BPF_ALU OR BPF_OP OP OR BPF_K, dst_reg = ucast DST, src_reg = 0, off = 0, imm = IMM\<rparr>"

definition BPF_ALU64_IMM :: "u8 \<Rightarrow> i32 \<Rightarrow> i32 \<Rightarrow> bpf_insn" where
  "BPF_ALU64_IMM OP DST IMM =
     \<lparr>code = BPF_ALU64 OR BPF_OP OP OR BPF_K, dst_reg = ucast DST, src_reg = 0, off = 0, imm = IMM\<rparr>"

definition BPF_MOV64_IMM :: "i32 \<Rightarrow> i32 \<Rightarrow> bpf_insn" where
  "BPF_MOV64_IMM DST IMM =
     \<lparr>code = BPF_ALU64 OR BPF_MOV OR BPF_K, dst_reg = ucast DST, src_reg = 0, off = 0, imm = IMM\<rparr>"

definition BPF_EXIT_INSN :: bpf_insn where
  "BPF_EXIT_INSN = \<lparr>code = BPF_JMP OR BPF_EXIT, dst_reg = 0, src_reg = 0, off = 0, imm = 0\<rparr>"

definition BPF_FUNC_unspec :: i32 where "BPF_FUNC_unspec = 0"

definition BPF_EMIT_CALL :: "i32 \<Rightarrow> bpf_insn" where
  "BPF_EMIT_CALL FUNC =
     \<lparr>code = BPF_JMP OR BPF_CALL, dst_reg = 0, src_reg = 0, off = 0, imm = FUNC - BPF_FUNC_unspec\<rparr>"

definition BPF_LDX_MEM :: "u8 \<Rightarrow> i32 \<Rightarrow> i32 \<Rightarrow> i32 \<Rightarrow> bpf_insn" where
  "BPF_LDX_MEM SIZE DST SRC OFF =
     \<lparr>code = BPF_LDX OR BPF_SIZE SIZE OR BPF_MEM, dst_reg = ucast DST, src_reg = ucast SRC, off = ucast OFF, imm = 0\<rparr>"

definition BPF_STX_MEM :: "u8 \<Rightarrow> i32 \<Rightarrow> i32 \<Rightarrow> i32 \<Rightarrow> bpf_insn" where
  "BPF_STX_MEM SIZE DST SRC OFF =
     \<lparr>code = BPF_STX OR BPF_SIZE SIZE OR BPF_MEM, dst_reg = ucast DST, src_reg = ucast SRC, off = ucast OFF, imm = 0\<rparr>"

definition BPF_ST_MEM :: "u8 \<Rightarrow> i32 \<Rightarrow> i32 \<Rightarrow> i32 \<Rightarrow> bpf_insn" where
  "BPF_ST_MEM SIZE DST OFF IMM =
     \<lparr>code = BPF_ST OR BPF_SIZE SIZE OR BPF_MEM, dst_reg = ucast DST, src_reg = 0, off = ucast OFF, imm = IMM\<rparr>"

definition BPF_MOV64_REG :: "i32 \<Rightarrow> i32 \<Rightarrow> bpf_insn" where
  "BPF_MOV64_REG DST SRC =
     \<lparr>code = BPF_ALU64 OR BPF_MOV OR BPF_X, dst_reg = ucast DST, src_reg = ucast SRC, off = 0, imm = 0\<rparr>"

definition BPF_MOV32_IMM :: "i32 \<Rightarrow> i32 \<Rightarrow> bpf_insn" where
  "BPF_MOV32_IMM DST IMM =
     \<lparr>code = BPF_ALU OR BPF_MOV OR BPF_K, dst_reg = ucast DST, src_reg = 0, off = 0, imm = IMM\<rparr>"

text \<open>A 64-bit load is two instructions.\<close>

definition BPF_LD_IMM64_RAW_FULL :: "i32 \<Rightarrow> i32 \<Rightarrow> i32 \<Rightarrow> i32 \<Rightarrow> i32 \<Rightarrow> i32 \<Rightarrow> bpf_insn list" where
  "BPF_LD_IMM64_RAW_FULL DST SRC OFF1 OFF2 IMM1 IMM2 =
     [\<lparr>code = BPF_LD OR BPF_DW OR BPF_IMM, dst_reg = ucast DST, src_reg = ucast SRC, off = ucast OFF1, imm = IMM1\<rparr>,
      \<lparr>code = 0, dst_reg = 0, src_reg = 0, off = ucast OFF2, imm = IMM2\<rparr>]"

definition BPF_PSEUDO_MAP_FD :: i32 where "BPF_PSEUDO_MAP_FD = 1"
definition BPF_PSEUDO_MAP_VALUE :: i32 where "BPF_PSEUDO_MAP_VALUE = 2"

definition BPF_LD_MAP_FD :: "i32 \<Rightarrow> i32 \<Rightarrow> bpf_insn list" where
  "BPF_LD_MAP_FD DST MAP_FD = BPF_LD_IMM64_RAW_FULL DST BPF_PSEUDO_MAP_FD 0 0 MAP_FD 0"

definition BPF_LD_MAP_VALUE :: "i32 \<Rightarrow> i32 \<Rightarrow> i32 \<Rightarrow> bpf_insn list" where
  "BPF_LD_MAP_VALUE DST MAP_FD VALUE_OFF = BPF_LD_IMM64_RAW_FULL DST BPF_PSEUDO_MAP_VALUE 0 0 MAP_FD VALUE_OFF"

definition BPF_JMP_IMM :: "u8 \<Rightarrow> i32 \<Rightarrow> i32 \<Rightarrow> i32 \<Rightarrow> bpf_insn" where
  "BPF_JMP_IMM OP DST IMM OFF =
     \<lparr>code = BPF_JMP OR BPF_OP OP OR BPF_K, dst_reg = ucast DST, src_reg = 0, off = ucast OFF, imm = IMM\<rparr>"

definition BPF_JMP32_IMM :: "u8 \<Rightarrow> i32 \<Rightarrow> i32 \<Rightarrow> i32 \<Rightarrow> bpf_insn" where
  "BPF_JMP32_IMM OP DST IMM OFF =
     \<lparr>code = BPF_JMP32 OR BPF_OP OP OR BPF_K, dst_reg = ucast DST, src_reg = 0, off = ucast OFF, imm = IMM\<rparr>"

section \<open>Specification: instructions and their decoder\<close>

datatype instr =
  Alu32_Imm u8 "4 word" i32
| Alu64_Imm u8 "4 word" i32
| Mov64_Reg "4 word" "4 word"
| Jump_Imm u8 "4 word" i32 u16
| Jump32_Imm u8 "4 word" i32 u16
| Call i32
| Exit
| Load u8 "4 word" "4 word" u16
| Store u8 "4 word" "4 word" u16
| Store_Imm u8 "4 word" u16 i32
| Load_Imm64 "4 word" "4 word" u16 u16 i32 i32

fun wf_instr :: "instr \<Rightarrow> bool" where
  "wf_instr (Alu32_Imm op d i) \<longleftrightarrow> op \<in> set alu_ops"
| "wf_instr (Alu64_Imm op d i) \<longleftrightarrow> op \<in> set alu_ops"
| "wf_instr (Jump_Imm op d i o') \<longleftrightarrow> op \<in> set jmp_ops"
| "wf_instr (Jump32_Imm op d i o') \<longleftrightarrow> op \<in> set jmp_ops"
| "wf_instr (Load s d r o') \<longleftrightarrow> s \<in> set mem_sizes"
| "wf_instr (Store s d r o') \<longleftrightarrow> s \<in> set mem_sizes"
| "wf_instr (Store_Imm s d o' i) \<longleftrightarrow> s \<in> set mem_sizes"
| "wf_instr _ \<longleftrightarrow> True"

text \<open>
  Each instruction through its macro.  \<open>BPF_RAW_INSN\<close> is not among them: it takes the code itself as an argument and can
  build what any other macro builds.
\<close>

fun emit :: "instr \<Rightarrow> bpf_insn list" where
  "emit (Alu32_Imm op d i) = [BPF_ALU32_IMM op (ucast d) i]"
| "emit (Alu64_Imm op d i) = [BPF_ALU64_IMM op (ucast d) i]"
| "emit (Mov64_Reg d r) = [BPF_MOV64_REG (ucast d) (ucast r)]"
| "emit (Jump_Imm op d i o') = [BPF_JMP_IMM op (ucast d) i (ucast o')]"
| "emit (Jump32_Imm op d i o') = [BPF_JMP32_IMM op (ucast d) i (ucast o')]"
| "emit (Call f) = [BPF_EMIT_CALL f]"
| "emit Exit = [BPF_EXIT_INSN]"
| "emit (Load s d r o') = [BPF_LDX_MEM s (ucast d) (ucast r) (ucast o')]"
| "emit (Store s d r o') = [BPF_STX_MEM s (ucast d) (ucast r) (ucast o')]"
| "emit (Store_Imm s d o' i) = [BPF_ST_MEM s (ucast d) (ucast o') i]"
| "emit (Load_Imm64 d r o1 o2 i1 i2) = BPF_LD_IMM64_RAW_FULL (ucast d) (ucast r) (ucast o1) (ucast o2) i1 i2"

text \<open>The decoder reads class, operation, source, size and mode of the code; a 64-bit load takes the next slot as well.\<close>

definition is_wide :: "bpf_insn \<Rightarrow> bool" where
  "is_wide i \<longleftrightarrow> BPF_CLASS (code i) = BPF_LD \<and> BPF_SIZE (code i) = BPF_DW \<and> BPF_MODE (code i) = BPF_IMM"

definition decode_one :: "bpf_insn \<Rightarrow> instr option" where
  "decode_one i =
     (let c = code i; cl = BPF_CLASS c
      in if cl = BPF_ALU \<and> BPF_SRC c = BPF_K then Some (Alu32_Imm (BPF_OP c) (dst_reg i) (imm i))
         else if cl = BPF_ALU64 \<and> BPF_SRC c = BPF_K then Some (Alu64_Imm (BPF_OP c) (dst_reg i) (imm i))
         else if cl = BPF_ALU64 \<and> BPF_OP c = BPF_MOV then Some (Mov64_Reg (dst_reg i) (src_reg i))
         else if cl = BPF_JMP \<and> BPF_OP c = BPF_CALL then Some (Call (imm i))
         else if cl = BPF_JMP \<and> BPF_OP c = BPF_EXIT then Some Exit
         else if cl = BPF_JMP \<and> BPF_SRC c = BPF_K then Some (Jump_Imm (BPF_OP c) (dst_reg i) (imm i) (off i))
         else if cl = BPF_JMP32 \<and> BPF_SRC c = BPF_K then Some (Jump32_Imm (BPF_OP c) (dst_reg i) (imm i) (off i))
         else if cl = BPF_LDX \<and> BPF_MODE c = BPF_MEM then Some (Load (BPF_SIZE c) (dst_reg i) (src_reg i) (off i))
         else if cl = BPF_STX \<and> BPF_MODE c = BPF_MEM then Some (Store (BPF_SIZE c) (dst_reg i) (src_reg i) (off i))
         else if cl = BPF_ST \<and> BPF_MODE c = BPF_MEM then Some (Store_Imm (BPF_SIZE c) (dst_reg i) (off i) (imm i))
         else None)"

fun decode :: "bpf_insn list \<Rightarrow> instr list option" where
  "decode [] = Some []"
| "decode [i] = (if is_wide i then None else map_option (\<lambda>x. [x]) (decode_one i))"
| "decode (i # j # is) =
     (if is_wide i then map_option ((#) (Load_Imm64 (dst_reg i) (src_reg i) (off i) (off j) (imm i) (imm j))) (decode is)
      else case decode_one i of None \<Rightarrow> None | Some x \<Rightarrow> map_option ((#) x) (decode (j # is)))"

section \<open>The bytes of a program\<close>

text \<open>On both (little-endian) targets \<open>dst_reg\<close> is the lower half of the second byte.\<close>

definition insn_bytes :: "bpf_insn \<Rightarrow> bytes" where
  "insn_bytes i = [code i, ucast (dst_reg i) OR push_bit 4 (ucast (src_reg i))] @ le_store 2 (off i) @ le_store 4 (imm i)"

definition insn_of_bytes :: "bytes \<Rightarrow> bpf_insn" where
  "insn_of_bytes bs = \<lparr>code = bs ! 0, dst_reg = ucast (bs ! 1), src_reg = ucast (drop_bit 4 (bs ! 1)),
     off = le_word (chunk 2 2 bs), imm = le_word (chunk 4 4 bs)\<rparr>"

fun insns_of_bytes :: "bytes \<Rightarrow> bpf_insn list" where
  "insns_of_bytes bs = (if length bs < 8 then [] else insn_of_bytes (take 8 bs) # insns_of_bytes (drop 8 bs))"

section \<open>Lemmas\<close>

lemmas opcode_defs = BPF_CLASS_def BPF_LD_def BPF_LDX_def BPF_ST_def BPF_STX_def BPF_ALU_def BPF_JMP_def BPF_JMP32_def
  BPF_ALU64_def BPF_SIZE_def BPF_W_def BPF_H_def BPF_B_def BPF_DW_def BPF_MODE_def BPF_IMM_def BPF_MEM_def BPF_OP_def
  BPF_SRC_def BPF_K_def BPF_X_def BPF_MOV_def BPF_CALL_def BPF_EXIT_def

lemmas macro_defs = BPF_ALU32_IMM_def BPF_ALU64_IMM_def BPF_MOV64_REG_def BPF_JMP_IMM_def BPF_JMP32_IMM_def
  BPF_EMIT_CALL_def BPF_EXIT_INSN_def BPF_LDX_MEM_def BPF_STX_MEM_def BPF_ST_MEM_def BPF_FUNC_unspec_def

lemma ucast_field [simp]:
  "ucast (ucast (r :: 4 word) :: i32) = r" "ucast (ucast (v :: u16) :: i32) = v"
  by (simp_all add: unsigned_ucast_eq, (rule bit_word_eqI, simp add: bit_simps)+)

text \<open>The fields of the codes the macros build.\<close>

definition op_fields :: "u8 \<Rightarrow> u8 \<Rightarrow> bool" where
  "op_fields cl op \<longleftrightarrow> (let c = cl OR BPF_OP op OR BPF_K in BPF_CLASS c = cl \<and> BPF_OP c = op \<and> BPF_SRC c = BPF_K)"

definition mem_fields :: "u8 \<Rightarrow> u8 \<Rightarrow> bool" where
  "mem_fields cl s \<longleftrightarrow> (let c = cl OR BPF_SIZE s OR BPF_MEM in BPF_CLASS c = cl \<and> BPF_SIZE c = s \<and> BPF_MODE c = BPF_MEM)"

lemma alu_fields: "op \<in> set alu_ops \<Longrightarrow> op_fields BPF_ALU op" "op \<in> set alu_ops \<Longrightarrow> op_fields BPF_ALU64 op"
  by (auto simp: alu_ops_def op_fields_def opcode_defs)

lemma jmp_fields: "op \<in> set jmp_ops \<Longrightarrow> op_fields BPF_JMP op \<and> op \<noteq> BPF_CALL \<and> op \<noteq> BPF_EXIT"
    "op \<in> set jmp_ops \<Longrightarrow> op_fields BPF_JMP32 op"
  by (auto simp: jmp_ops_def op_fields_def opcode_defs)

lemma size_fields: "s \<in> set mem_sizes \<Longrightarrow> mem_fields BPF_LDX s" "s \<in> set mem_sizes \<Longrightarrow> mem_fields BPF_STX s"
    "s \<in> set mem_sizes \<Longrightarrow> mem_fields BPF_ST s"
  by (auto simp: mem_sizes_def mem_fields_def opcode_defs)

lemma fixed_fields:
  "BPF_CLASS (BPF_JMP OR BPF_CALL) = BPF_JMP" "BPF_OP (BPF_JMP OR BPF_CALL) = BPF_CALL"
  "BPF_CLASS (BPF_JMP OR BPF_EXIT) = BPF_JMP" "BPF_OP (BPF_JMP OR BPF_EXIT) = BPF_EXIT" "BPF_CALL \<noteq> BPF_EXIT"
  "BPF_CLASS (BPF_ALU64 OR BPF_MOV OR BPF_X) = BPF_ALU64" "BPF_SRC (BPF_ALU64 OR BPF_MOV OR BPF_X) \<noteq> BPF_K"
  "BPF_OP (BPF_ALU64 OR BPF_MOV OR BPF_X) = BPF_MOV"
  "BPF_CLASS (BPF_LD OR BPF_DW OR BPF_IMM) = BPF_LD" "BPF_SIZE (BPF_LD OR BPF_DW OR BPF_IMM) = BPF_DW"
  "BPF_MODE (BPF_LD OR BPF_DW OR BPF_IMM) = BPF_IMM"
  by (simp_all add: opcode_defs)

lemmas class_defs = BPF_LD_def BPF_LDX_def BPF_ST_def BPF_STX_def BPF_ALU_def BPF_JMP_def BPF_JMP32_def BPF_ALU64_def

lemma decode_alu:
  "BPF_CLASS (code i) = BPF_ALU \<Longrightarrow> BPF_SRC (code i) = BPF_K \<Longrightarrow>
   \<not> is_wide i \<and> decode_one i = Some (Alu32_Imm (BPF_OP (code i)) (dst_reg i) (imm i))"
  "BPF_CLASS (code i) = BPF_ALU64 \<Longrightarrow> BPF_SRC (code i) = BPF_K \<Longrightarrow>
   \<not> is_wide i \<and> decode_one i = Some (Alu64_Imm (BPF_OP (code i)) (dst_reg i) (imm i))"
  "BPF_CLASS (code i) = BPF_ALU64 \<Longrightarrow> BPF_SRC (code i) \<noteq> BPF_K \<Longrightarrow> BPF_OP (code i) = BPF_MOV \<Longrightarrow>
   \<not> is_wide i \<and> decode_one i = Some (Mov64_Reg (dst_reg i) (src_reg i))"
  by (simp_all add: decode_one_def is_wide_def class_defs)

lemma decode_jmp:
  "BPF_CLASS (code i) = BPF_JMP \<Longrightarrow> BPF_OP (code i) = BPF_CALL \<Longrightarrow> \<not> is_wide i \<and> decode_one i = Some (Call (imm i))"
  "BPF_CLASS (code i) = BPF_JMP \<Longrightarrow> BPF_OP (code i) = BPF_EXIT \<Longrightarrow> \<not> is_wide i \<and> decode_one i = Some Exit"
  "BPF_CLASS (code i) = BPF_JMP \<Longrightarrow> BPF_OP (code i) \<noteq> BPF_CALL \<Longrightarrow> BPF_OP (code i) \<noteq> BPF_EXIT \<Longrightarrow>
   BPF_SRC (code i) = BPF_K \<Longrightarrow>
   \<not> is_wide i \<and> decode_one i = Some (Jump_Imm (BPF_OP (code i)) (dst_reg i) (imm i) (off i))"
  "BPF_CLASS (code i) = BPF_JMP32 \<Longrightarrow> BPF_SRC (code i) = BPF_K \<Longrightarrow>
   \<not> is_wide i \<and> decode_one i = Some (Jump32_Imm (BPF_OP (code i)) (dst_reg i) (imm i) (off i))"
  using fixed_fields(5) by (simp_all add: decode_one_def is_wide_def class_defs)

lemma decode_mem:
  "BPF_CLASS (code i) = BPF_LDX \<Longrightarrow> BPF_MODE (code i) = BPF_MEM \<Longrightarrow>
   \<not> is_wide i \<and> decode_one i = Some (Load (BPF_SIZE (code i)) (dst_reg i) (src_reg i) (off i))"
  "BPF_CLASS (code i) = BPF_STX \<Longrightarrow> BPF_MODE (code i) = BPF_MEM \<Longrightarrow>
   \<not> is_wide i \<and> decode_one i = Some (Store (BPF_SIZE (code i)) (dst_reg i) (src_reg i) (off i))"
  "BPF_CLASS (code i) = BPF_ST \<Longrightarrow> BPF_MODE (code i) = BPF_MEM \<Longrightarrow>
   \<not> is_wide i \<and> decode_one i = Some (Store_Imm (BPF_SIZE (code i)) (dst_reg i) (off i) (imm i))"
  by (simp_all add: decode_one_def is_wide_def class_defs)

text \<open>A list of instructions whose first one is narrow.\<close>

lemma decode_narrow:
  "\<not> is_wide i \<Longrightarrow> decode_one i = Some x \<Longrightarrow> decode (i # is) = map_option ((#) x) (decode is)"
  by (cases "is") auto

lemma emit_narrow:
  assumes "wf_instr x" and "emit x = [i]"
  shows "\<not> is_wide i \<and> decode_one i = Some x"
proof (cases x)
  case (Alu32_Imm op d v)
  then show ?thesis using assms alu_fields(1) [of op] decode_alu(1) [of i] by (auto simp: op_fields_def Let_def BPF_ALU32_IMM_def)
next
  case (Alu64_Imm op d v)
  then show ?thesis using assms alu_fields(2) [of op] decode_alu(2) [of i] by (auto simp: op_fields_def Let_def BPF_ALU64_IMM_def)
next
  case (Mov64_Reg d r)
  then show ?thesis using assms decode_alu(3) [of i] by (auto simp: fixed_fields BPF_MOV64_REG_def)
next
  case (Jump_Imm op d v t)
  then show ?thesis using assms jmp_fields(1) [of op] decode_jmp(3) [of i] by (auto simp: op_fields_def Let_def BPF_JMP_IMM_def)
next
  case (Jump32_Imm op d v t)
  then show ?thesis using assms jmp_fields(2) [of op] decode_jmp(4) [of i] by (auto simp: op_fields_def Let_def BPF_JMP32_IMM_def)
next
  case (Call f)
  then show ?thesis using assms decode_jmp(1) [of i] by (auto simp: fixed_fields BPF_EMIT_CALL_def BPF_FUNC_unspec_def)
next
  case Exit
  then show ?thesis using assms decode_jmp(2) [of i] by (auto simp: fixed_fields BPF_EXIT_INSN_def)
next
  case (Load s d r t)
  then show ?thesis using assms size_fields(1) [of s] decode_mem(1) [of i] by (auto simp: mem_fields_def Let_def BPF_LDX_MEM_def)
next
  case (Store s d r t)
  then show ?thesis using assms size_fields(2) [of s] decode_mem(2) [of i] by (auto simp: mem_fields_def Let_def BPF_STX_MEM_def)
next
  case (Store_Imm s d t v)
  then show ?thesis using assms size_fields(3) [of s] decode_mem(3) [of i] by (auto simp: mem_fields_def Let_def BPF_ST_MEM_def)
next
  case (Load_Imm64 d r t u v w)
  then show ?thesis using assms by (simp add: BPF_LD_IMM64_RAW_FULL_def)
qed

lemma decode_emit: "wf_instr x \<Longrightarrow> decode (emit x @ is) = map_option ((#) x) (decode is)"
proof (cases "\<exists>i. emit x = [i]")
  case True
  assume "wf_instr x"
  with True emit_narrow [of x] decode_narrow show ?thesis by fastforce
next
  case False
  then obtain d r t u v w where "x = Load_Imm64 d r t u v w" by (cases x) auto
  then show ?thesis by (simp add: BPF_LD_IMM64_RAW_FULL_def is_wide_def fixed_fields)
qed

lemma decode_program: "\<forall>x \<in> set xs. wf_instr x \<Longrightarrow> decode (concat (map emit xs)) = Some xs"
  by (induction xs) (simp_all add: decode_emit)

lemma insn_bytes_roundtrip: "length (insn_bytes i) = 8" "insn_of_bytes (insn_bytes i) = i"
proof -
  show "length (insn_bytes i) = 8" by (simp add: insn_bytes_def)
  let ?b = "ucast (dst_reg i) OR push_bit 4 (ucast (src_reg i)) :: u8"
  have "ucast ?b = dst_reg i" "ucast (drop_bit 4 ?b) = src_reg i"
    by (rule bit_word_eqI, auto simp: bit_simps dest: bit_imp_le_length)+
  moreover have "chunk 2 2 (insn_bytes i) = le_store 2 (off i)" "chunk 4 4 (insn_bytes i) = le_store 4 (imm i)"
    by (simp_all add: insn_bytes_def chunk_def)
  ultimately show "insn_of_bytes (insn_bytes i) = i"
    by (simp add: insn_of_bytes_def le_simps) (simp add: insn_bytes_def)
qed

lemma insns_of_bytes_concat: "insns_of_bytes (concat (map insn_bytes is)) = is"
  by (induction "is") (subst insns_of_bytes.simps, simp add: insn_bytes_roundtrip)+

declare insns_of_bytes.simps [simp del]

section \<open>Properties\<close>

text \<open>
  (C37) Instruction encoding.  For every program written with the constants of the headers and the macros of \<open>filter.h\<close>
  other than \<open>BPF_RAW_INSN\<close>, decoding its bytes gives the program back: the fields do not overlap, no two of these macros
  build the same code for different instructions, and a 64-bit load takes two slots.  The move macros build the general
  instruction with \<open>BPF_MOV\<close>, and map references are 64-bit loads that name the descriptor.  For any sequence of
  instructions, also those built by \<open>BPF_RAW_INSN\<close>, whose code is an argument, the bytes determine all fields, and
  \<open>BPF_RAW_INSN\<close> puts each argument, cut to its width, into its own field.
\<close>

theorem insn_encoding_roundtrip:
  assumes "\<forall>x \<in> set prog. wf_instr x"
  shows "decode (insns_of_bytes (concat (map insn_bytes (concat (map emit prog))))) = Some prog \<and>
    [BPF_MOV64_IMM d v] = emit (Alu64_Imm BPF_MOV (ucast d) v) \<and> [BPF_MOV32_IMM d v] = emit (Alu32_Imm BPF_MOV (ucast d) v) \<and>
    BPF_LD_MAP_FD d fd = emit (Load_Imm64 (ucast d) 1 0 0 fd 0) \<and>
    BPF_LD_MAP_VALUE d fd v = emit (Load_Imm64 (ucast d) 2 0 0 fd v) \<and>
    insns_of_bytes (concat (map insn_bytes insns)) = insns \<and>
    insn_of_bytes (insn_bytes (BPF_RAW_INSN c d r t v)) =
      \<lparr>code = c, dst_reg = ucast d, src_reg = ucast r, off = ucast t, imm = v\<rparr>"
proof -
  have op: "BPF_OP BPF_MOV = BPF_MOV" by (simp add: opcode_defs)
  show ?thesis
    using decode_program [OF assms]
    by (simp add: insns_of_bytes_concat insn_bytes_roundtrip BPF_RAW_INSN_def BPF_MOV64_IMM_def BPF_MOV32_IMM_def BPF_ALU64_IMM_def BPF_ALU32_IMM_def op
        BPF_LD_MAP_FD_def BPF_LD_MAP_VALUE_def BPF_LD_IMM64_RAW_FULL_def BPF_PSEUDO_MAP_FD_def BPF_PSEUDO_MAP_VALUE_def)
qed

theorem insn_encoding_roundtrip_witness:
  "decode (insns_of_bytes (concat (map insn_bytes (concat (map emit
     [Load_Imm64 1 1 0 0 5 0, Alu64_Imm BPF_MOV 0 7, Store BPF_DW 10 0 (- 8), Call 1, Exit]))))) =
   Some [Load_Imm64 1 1 0 0 5 0, Alu64_Imm BPF_MOV 0 7, Store BPF_DW 10 0 (- 8), Call 1, Exit]"
  using insn_encoding_roundtrip [of "[Load_Imm64 1 1 0 0 5 0, Alu64_Imm BPF_MOV 0 7, Store BPF_DW 10 0 (- 8), Call 1, Exit]"]
  by (simp add: alu_ops_def mem_sizes_def)

end
