(* ===== verification/Bpf_Helpers.thy ===== *)
theory Bpf_Helpers
  imports Bpf_Insn Linux_Arith
begin

text \<open>
  What \<open>bpf_helpers.h\<close> has beside its printing macros: \<open>KERNEL_VERSION\<close> and the static tail call, an inline assembly
  of four instructions, which are run here on the registers they name.  The compiler chooses the registers of the inputs;
  the clobber list forbids it the argument registers.
\<close>

unbundle bit_operations_syntax

section \<open>\<open>KERNEL_VERSION\<close>\<close>

definition KERNEL_VERSION :: "i32 \<Rightarrow> i32 \<Rightarrow> i32 \<Rightarrow> i32" where
  "KERNEL_VERSION a b c = push_bit 16 a + push_bit 8 b + (if sint c > 255 then 255 else c)"

section \<open>\<open>bpf_tail_call_static\<close>\<close>

type_synonym bpf_reg = "4 word"

text \<open>The assembly with the registers the compiler put \<open>ctx\<close> and \<open>map\<close> into and the constant slot.\<close>

definition tail_call_insns :: "i32 \<Rightarrow> i32 \<Rightarrow> u32 \<Rightarrow> bpf_insn list" where
  "tail_call_insns ctx_reg map_reg slot =
     [BPF_MOV64_REG 1 ctx_reg, BPF_MOV64_REG 2 map_reg, BPF_MOV64_IMM 3 slot, BPF_EMIT_CALL 12]"

definition tail_call_clobbers :: "i32 list" where
  "tail_call_clobbers = [0, 1, 2, 3, 4, 5]"

text \<open>A slot that is no constant leaves \<open>__builtin_trap\<close> in the program, which the BPF backend does not compile.\<close>

definition bpf_tail_call_static :: "bool \<Rightarrow> i32 \<Rightarrow> i32 \<Rightarrow> u32 \<Rightarrow> bpf_insn list option" where
  "bpf_tail_call_static slot_constant ctx_reg map_reg slot =
     (if \<not> slot_constant then None else Some (tail_call_insns ctx_reg map_reg slot))"

text \<open>Register moves and calls of helpers; a call is reported with its number and its arguments.\<close>

fun run_insns :: "(bpf_reg \<Rightarrow> u64) \<Rightarrow> bpf_insn list \<Rightarrow> (i32 \<times> u64 \<times> u64 \<times> u64) list" where
  "run_insns r [] = []"
| "run_insns r (x # xs) =
     (if code x = BPF_ALU64 OR BPF_MOV OR BPF_X then run_insns (r(dst_reg x := r (src_reg x))) xs
      else if code x = BPF_ALU64 OR BPF_MOV OR BPF_K then run_insns (r(dst_reg x := scast (imm x))) xs
      else if code x = BPF_JMP OR BPF_CALL then (imm x, r 1, r 2, r 3) # run_insns r xs
      else [])"

section \<open>Properties\<close>

lemma tail_call_runs:
  "run_insns r (tail_call_insns ctx_reg map_reg slot) =
     [(12, (let r1 = r(1 := r (ucast ctx_reg)); r2 = r1(2 := r1 (ucast map_reg)); r3 = r2(3 := scast slot)
            in (r3 1, r3 2, r3 3)))]"
  by (simp add: tail_call_insns_def BPF_MOV64_REG_def BPF_MOV64_IMM_def BPF_EMIT_CALL_def BPF_ALU64_def BPF_MOV_def
      BPF_X_def BPF_K_def BPF_JMP_def BPF_CALL_def BPF_FUNC_unspec_def Let_def)

text \<open>
  Tail calls.  A static tail call with a constant slot compiles, and because its inputs are kept out of the
  clobbered registers it calls helper 12 with the context, the map and the slot in the three argument registers, whatever
  registers were chosen; the slot is the low half of the third one.
\<close>

theorem tail_call_passes_arguments:
  assumes "ctx_reg \<in> {6, 7, 8, 9, 10}" and "map_reg \<in> {6, 7, 8, 9, 10}"
  shows "\<exists>insns third. bpf_tail_call_static True ctx_reg map_reg slot = Some insns \<and>
    run_insns r insns = [(12, r (ucast ctx_reg), r (ucast map_reg), third)] \<and> ucast third = slot \<and>
    ctx_reg \<notin> set tail_call_clobbers \<and> map_reg \<notin> set tail_call_clobbers"
proof -
  have "(ucast ctx_reg :: bpf_reg) \<notin> {1, 2, 3}" "(ucast map_reg :: bpf_reg) \<notin> {1, 2, 3}" using assms by auto
  then have "run_insns r (tail_call_insns ctx_reg map_reg slot) = [(12, r (ucast ctx_reg), r (ucast map_reg), scast slot)]"
    by (simp add: tail_call_runs Let_def)
  moreover have "ucast (scast slot :: u64) = slot" by (rule bit_word_eqI) (simp add: bit_simps)
  moreover have "ctx_reg \<notin> set tail_call_clobbers" "map_reg \<notin> set tail_call_clobbers"
    using assms by (auto simp: tail_call_clobbers_def)
  ultimately show ?thesis by (auto simp: bpf_tail_call_static_def)
qed

text \<open>Without the clobber list the arguments could be lost: the inputs in swapped argument registers.\<close>

theorem tail_call_needs_clobbers: "run_insns r (tail_call_insns 2 1 slot) = [(12, r 2, r 2, scast slot)]"
  by (simp add: tail_call_runs Let_def)

text \<open>Versions are compared like their numbers; sublevels above 255 count as 255.\<close>

lemma kernel_version_value:
  assumes "unat a < 2 ^ 15" and "unat b < 2 ^ 8" and "0 \<le> sint c"
  shows "unat (KERNEL_VERSION a b c) = unat a * 2 ^ 16 + unat b * 2 ^ 8 + min (unat c) 255"
proof -
  have c: "(if sint c > 255 then 255 else c) = of_nat (min (unat c) 255)"
    using sint_nonneg [OF assms(3)] by (auto simp: min_def simp del: of_nat_unat) (simp add: ucast_id)
  have "KERNEL_VERSION a b c = of_nat (unat a * 2 ^ 16 + unat b * 2 ^ 8 + min (unat c) 255)"
    unfolding KERNEL_VERSION_def c by (simp add: push_bit_eq_mult mult.commute)
  moreover have "unat a * 2 ^ 16 + unat b * 2 ^ 8 + min (unat c) 255 < 2 ^ 32" using assms(1,2) by simp
  ultimately show ?thesis by (simp only: unat_of_nat) simp
qed

theorem tail_call_passes_arguments_witness:
  "\<exists>insns third. bpf_tail_call_static True 6 7 3 = Some insns \<and>
    run_insns (\<lambda>r. ucast r) insns = [(12, 6, 7, third)] \<and> ucast third = (3 :: u32)"
  using tail_call_passes_arguments [of 6 7 3 "\<lambda>r. ucast r"] by auto

end
