(* ===== verification/Barriers.thy ===== *)
theory Barriers
  imports C_Layout
begin

text \<open>
  Memory order: the barriers and the acquire and release macros of \<open>linux/compiler.h\<close> and of \<open>xsk.h\<close>, for every
  architecture they distinguish, and the two functions of \<open>ring_buffer.h\<close>.  A macro is the list of accesses and barriers
  it compiles to.  Accesses of a thread may be performed in any order that keeps accesses of one address and whatever the
  barriers between them order on that architecture; the accesses of all threads are performed one at a time on one
  memory.  Dependencies between accesses are not used, which allows more than the architectures do; a thread that reads
  back its own store before others see it is not described.  The locale \<open>release_acquire\<close> is what the rings of
  \<open>xsk.h\<close> and the perf buffer rely on.
\<close>

section \<open>Accesses and barriers\<close>

datatype arch = I386 | X86_64 | Aarch64 | Riscv | Other_Arch

datatype access_order = Plain | Acq | Rel \<comment> \<open>ordinary accesses, \<open>ldar\<close>, \<open>stlr\<close>\<close>

datatype op =
  Load access_order u64
| Store access_order u64 u64
| Compiler_Barrier \<comment> \<open>an empty \<open>asm volatile\<close> that clobbers memory\<close>
| Lock_Addl
| Dmb_Ish
| Dmb_Ishld
| Dmb_Ishst
| Fence_RW_W
| Fence_R_RW
| Sync_Synchronize

fun is_load :: "op \<Rightarrow> bool" where
  "is_load (Load ord a) = True"
| "is_load _ = False"

fun is_store :: "op \<Rightarrow> bool" where
  "is_store (Store ord a v) = True"
| "is_store _ = False"

definition is_access :: "op \<Rightarrow> bool" where
  "is_access x \<longleftrightarrow> is_load x \<or> is_store x"

fun op_addr :: "op \<Rightarrow> u64 option" where
  "op_addr (Load ord a) = Some a"
| "op_addr (Store ord a v) = Some a"
| "op_addr _ = None"

section \<open>\<open>linux/compiler.h\<close>\<close>

definition READ_ONCE :: "u64 \<Rightarrow> op list" where
  "READ_ONCE p = [Load Plain p]"

definition WRITE_ONCE :: "u64 \<Rightarrow> u64 \<Rightarrow> op list" where
  "WRITE_ONCE p v = [Store Plain p v]"

definition barrier :: "op list" where
  "barrier = [Compiler_Barrier]"

definition smp_mb :: "arch \<Rightarrow> op list" where
  "smp_mb arch = (case arch of X86_64 \<Rightarrow> [Lock_Addl] | Aarch64 \<Rightarrow> [Dmb_Ish] | _ \<Rightarrow> [Sync_Synchronize])"

definition smp_rmb :: "arch \<Rightarrow> op list" where
  "smp_rmb arch = (case arch of X86_64 \<Rightarrow> barrier | Aarch64 \<Rightarrow> [Dmb_Ishld] | _ \<Rightarrow> smp_mb arch)"

definition smp_wmb :: "arch \<Rightarrow> op list" where
  "smp_wmb arch = (case arch of X86_64 \<Rightarrow> barrier | Aarch64 \<Rightarrow> [Dmb_Ishst] | _ \<Rightarrow> smp_mb arch)"

definition smp_store_release :: "arch \<Rightarrow> u64 \<Rightarrow> u64 \<Rightarrow> op list" where
  "smp_store_release arch p v = (if arch = X86_64 then barrier @ WRITE_ONCE p v else smp_mb arch @ WRITE_ONCE p v)"

definition smp_load_acquire :: "arch \<Rightarrow> u64 \<Rightarrow> op list" where
  "smp_load_acquire arch p = (if arch = X86_64 then READ_ONCE p @ barrier else READ_ONCE p @ smp_mb arch)"

section \<open>\<open>xsk.h\<close>\<close>

definition libbpf_smp_store_release :: "arch \<Rightarrow> u64 \<Rightarrow> u64 \<Rightarrow> op list" where
  "libbpf_smp_store_release arch p v = (case arch of
       I386 \<Rightarrow> [Compiler_Barrier, Store Plain p v]
     | X86_64 \<Rightarrow> [Compiler_Barrier, Store Plain p v]
     | Aarch64 \<Rightarrow> [Store Rel p v]
     | Riscv \<Rightarrow> [Fence_RW_W, Store Plain p v]
     | Other_Arch \<Rightarrow> [Sync_Synchronize, Store Plain p v])"

definition libbpf_smp_load_acquire :: "arch \<Rightarrow> u64 \<Rightarrow> op list" where
  "libbpf_smp_load_acquire arch p = (case arch of
       I386 \<Rightarrow> [Load Plain p, Compiler_Barrier]
     | X86_64 \<Rightarrow> [Load Plain p, Compiler_Barrier]
     | Aarch64 \<Rightarrow> [Load Acq p]
     | Riscv \<Rightarrow> [Load Plain p, Fence_R_RW]
     | Other_Arch \<Rightarrow> [Load Plain p, Sync_Synchronize])"

section \<open>\<open>ring_buffer.h\<close>\<close>

definition perf_event_mmap_page_layout :: layout where
  "perf_event_mmap_page_layout = [(''version'', 4, 4), (''compat_version'', 4, 4), (''lock'', 4, 4), (''index'', 4, 4),
     (''offset'', 8, 8), (''time_enabled'', 8, 8), (''time_running'', 8, 8), (''capabilities'', 8, 8),
     (''pmc_width'', 2, 2), (''time_shift'', 2, 2), (''time_mult'', 4, 4), (''time_offset'', 8, 8), (''time_zero'', 8, 8),
     (''size'', 4, 4), (''__reserved_1'', 4, 4), (''time_cycles'', 8, 8), (''time_mask'', 8, 8),
     (''__reserved'', 928, 1), (''data_head'', 8, 8), (''data_tail'', 8, 8), (''data_offset'', 8, 8), (''data_size'', 8, 8),
     (''aux_head'', 8, 8), (''aux_tail'', 8, 8), (''aux_offset'', 8, 8), (''aux_size'', 8, 8)]"

definition data_head :: "u64 \<Rightarrow> u64" where
  "data_head base = base + of_nat (offset_of perf_event_mmap_page_layout ''data_head'')"

definition data_tail :: "u64 \<Rightarrow> u64" where
  "data_tail base = base + of_nat (offset_of perf_event_mmap_page_layout ''data_tail'')"

definition ring_buffer_read_head :: "arch \<Rightarrow> u64 \<Rightarrow> op list" where
  "ring_buffer_read_head arch base = smp_load_acquire arch (data_head base)"

definition ring_buffer_write_tail :: "arch \<Rightarrow> u64 \<Rightarrow> u64 \<Rightarrow> op list" where
  "ring_buffer_write_tail arch base tail = smp_store_release arch (data_tail base) tail"

section \<open>Executions\<close>

text \<open>Does a barrier between an access and a later one keep their order?\<close>

fun orders :: "arch \<Rightarrow> op \<Rightarrow> op \<Rightarrow> op \<Rightarrow> bool" where
  "orders arch Compiler_Barrier x y \<longleftrightarrow> arch \<in> {I386, X86_64} \<and> \<not> (is_store x \<and> is_load y)"
| "orders arch Dmb_Ishld x y \<longleftrightarrow> is_load x"
| "orders arch Dmb_Ishst x y \<longleftrightarrow> is_store x \<and> is_store y"
| "orders arch Fence_RW_W x y \<longleftrightarrow> is_store y"
| "orders arch Fence_R_RW x y \<longleftrightarrow> is_load x"
| "orders arch Lock_Addl x y \<longleftrightarrow> True"
| "orders arch Dmb_Ish x y \<longleftrightarrow> True"
| "orders arch Sync_Synchronize x y \<longleftrightarrow> True"
| "orders arch _ x y \<longleftrightarrow> False"

fun op_acquires :: "op \<Rightarrow> bool" where
  "op_acquires (Load Acq a) = True"
| "op_acquires _ = False"

fun op_releases :: "op \<Rightarrow> bool" where
  "op_releases (Store Rel a v) = True"
| "op_releases _ = False"

definition ppo :: "arch \<Rightarrow> op list \<Rightarrow> nat \<Rightarrow> nat \<Rightarrow> bool" where
  "ppo arch prog i j \<longleftrightarrow> i < j \<and> j < length prog \<and> is_access (prog ! i) \<and> is_access (prog ! j) \<and>
     (op_addr (prog ! i) = op_addr (prog ! j) \<or> op_acquires (prog ! i) \<or> op_releases (prog ! j) \<or>
      (\<exists>k \<in> {i<..<j}. orders arch (prog ! k) (prog ! i) (prog ! j)))"

type_synonym event = "nat \<times> nat" \<comment> \<open>thread and index in its program\<close>

definition op_of :: "op list list \<Rightarrow> event \<Rightarrow> op" where
  "op_of progs e = progs ! fst e ! snd e"

definition access_events :: "op list list \<Rightarrow> event set" where
  "access_events progs = {(t, i). t < length progs \<and> i < length (progs ! t) \<and> is_access (progs ! t ! i)}"

definition at :: "event list \<Rightarrow> event \<Rightarrow> nat" where
  "at ex e = length (takeWhile (\<lambda>x. x \<noteq> e) ex)"

definition execution :: "arch \<Rightarrow> op list list \<Rightarrow> event list \<Rightarrow> bool" where
  "execution arch progs ex \<longleftrightarrow> distinct ex \<and> set ex = access_events progs \<and>
     (\<forall>t < length progs. \<forall>i j. ppo arch (progs ! t) i j \<longrightarrow> at ex (t, i) < at ex (t, j))"

fun write_op :: "op \<Rightarrow> (u64 \<Rightarrow> u64) \<Rightarrow> u64 \<Rightarrow> u64" where
  "write_op (Store ord a v) m = m(a := v)"
| "write_op _ m = m"

text \<open>The value a load returns: what memory holds when it is performed.\<close>

definition value_read :: "op list list \<Rightarrow> (u64 \<Rightarrow> u64) \<Rightarrow> event list \<Rightarrow> event \<Rightarrow> u64" where
  "value_read progs m ex e =
     (let m' = fold (\<lambda>x. write_op (op_of progs x)) (take (at ex e) ex) m
      in case op_addr (op_of progs e) of Some a \<Rightarrow> m' a | None \<Rightarrow> 0)"

section \<open>Positions and values\<close>

lemma at_nth: "distinct ex \<Longrightarrow> n < length ex \<Longrightarrow> at ex (ex ! n) = n"
proof -
  assume d: "distinct ex" and n: "n < length ex"
  have "takeWhile (\<lambda>x. x \<noteq> ex ! n) ex = take n ex"
    using d n by (intro takeWhile_eq_take_P_nth) (auto simp: nth_eq_iff_index_eq)
  then show ?thesis using n by (simp add: at_def)
qed

lemma take_at:
  assumes "distinct ex" and "l \<in> set ex"
  shows "e \<in> set (take (at ex l) ex) \<longleftrightarrow> e \<in> set ex \<and> at ex e < at ex l"
proof -
  have "at ex l \<le> length ex" by (simp add: at_def length_takeWhile_le)
  then show ?thesis using assms(1) by (auto simp: in_set_conv_nth at_nth) (metis at_nth less_le_trans)
qed

definition stores_to :: "op list list \<Rightarrow> u64 \<Rightarrow> event \<Rightarrow> bool" where
  "stores_to progs a e \<longleftrightarrow> is_store (op_of progs e) \<and> op_addr (op_of progs e) = Some a"

lemma write_other: "\<not> (is_store x \<and> op_addr x = Some a) \<Longrightarrow> write_op x m a = m a"
  by (cases x) auto

lemma fold_write_other:
  "\<forall>e \<in> set xs. \<not> stores_to progs a e \<Longrightarrow> fold (\<lambda>x. write_op (op_of progs x)) xs m a = m a"
  by (induction xs arbitrary: m) (auto simp: stores_to_def write_other)

lemma fold_write_source:
  "fold (\<lambda>x. write_op (op_of progs x)) xs m a = v \<Longrightarrow> m a \<noteq> v \<Longrightarrow> \<exists>e \<in> set xs. \<exists>ord. op_of progs e = Store ord a v"
proof (induction xs arbitrary: m)
  case (Cons x xs)
  show ?case
  proof (cases "write_op (op_of progs x) m a = v")
    case True
    then have "\<exists>ord. op_of progs x = Store ord a v" using Cons.prems(2) by (cases "op_of progs x") (auto split: if_splits)
    then show ?thesis by auto
  next
    case False
    then show ?thesis using Cons.IH [of "write_op (op_of progs x) m"] Cons.prems(1) by auto
  qed
qed simp

lemma value_read_source:
  assumes "distinct ex" and "l \<in> set ex" and "op_addr (op_of progs l) = Some a"
    and "value_read progs m ex l = v" and "m a \<noteq> v"
  shows "\<exists>e \<in> set ex. at ex e < at ex l \<and> (\<exists>ord. op_of progs e = Store ord a v)"
  using fold_write_source [of progs "take (at ex l) ex" m a v] assms take_at [OF assms(1,2)]
  by (auto simp: value_read_def)

lemma value_read_last:
  assumes "distinct ex" and "l \<in> set ex" and "op_addr (op_of progs l) = Some a"
    and "s \<in> set ex" and "op_of progs s = Store ord a w" and "at ex s < at ex l"
    and last: "\<forall>e \<in> set ex. stores_to progs a e \<longrightarrow> at ex e \<le> at ex s"
  shows "value_read progs m ex l = w"
proof -
  let ?f = "\<lambda>x. write_op (op_of progs x)"
  have "s \<in> set (take (at ex l) ex)" using take_at [OF assms(1,2)] assms(4,6) by simp
  then obtain us vs where split: "take (at ex l) ex = us @ s # vs" by (auto dest: split_list)
  have "\<not> stores_to progs a e" if mem: "e \<in> set vs" for e
  proof -
    obtain n where n: "n < length vs" "e = vs ! n" using mem by (auto simp: in_set_conv_nth)
    have e: "ex = us @ s # vs @ drop (at ex l) ex" using split append_take_drop_id [of "at ex l" ex] by simp
    have "at ex s = length us" using at_nth [OF assms(1), of "length us"] e by (metis add_Suc_right length_Cons length_append less_add_Suc1 nth_append_length)
    moreover have "ex ! (length us + 1 + n) = e" "length us + 1 + n < length ex"
      by (subst e, use n in \<open>simp add: nth_append\<close>)+
    then have "at ex e = length us + 1 + n" using at_nth [OF assms(1)] by metis
    moreover have "e \<in> set ex" using mem by (subst e) simp
    ultimately show ?thesis using last by force
  qed
  then have "fold ?f vs m' a = m' a" for m' by (intro fold_write_other) blast
  then have "fold ?f (take (at ex l) ex) m a = w" unfolding split using assms(5) by simp
  then show ?thesis using assms(3) by (simp add: value_read_def)
qed

section \<open>Handing data over\<close>

lemma ppo_suffix: "ppo arch p i j \<Longrightarrow> ppo arch (p @ q) i j"
  by (auto simp: ppo_def nth_append)

lemma ppo_prefix: "ppo arch p i j \<Longrightarrow> ppo arch (q @ p) (length q + i) (length q + j)"
  unfolding ppo_def by (auto simp: nth_append) (metis add_less_cancel_left diff_add_inverse greaterThanLessThan_iff not_add_less1)

locale release_acquire =
  fixes arch :: arch
    and release :: "u64 \<Rightarrow> u64 \<Rightarrow> op list"
    and acquire :: "u64 \<Rightarrow> op list"
  assumes release_stores: "\<exists>fs ord. release p v = fs @ [Store ord p v] \<and> (\<forall>x \<in> set fs. \<not> is_access x)"
    and acquire_loads: "\<exists>fs ord. acquire p = Load ord p # fs \<and> (\<forall>x \<in> set fs. \<not> is_access x)"
    and release_orders: "i < length A \<Longrightarrow> is_access (A ! i) \<Longrightarrow>
      ppo arch (A @ release p v) i (length A + length (release p v) - 1)"
    and acquire_orders: "j < length B \<Longrightarrow> is_access (B ! j) \<Longrightarrow>
      ppo arch (acquire p @ B) 0 (length (acquire p) + j)"
begin

lemma hand_off:
  assumes progs: "progs = [A @ release p v @ A', B' @ acquire p @ B]"
    and ex: "execution arch progs ex"
    and seen: "at ex (0, length A + length (release p v) - 1) < at ex (1, length B')"
    and i: "i < length A" "is_access (A ! i)" and j: "j < length B" "is_access (B ! j)"
  shows "at ex (0, i) < at ex (1, length B' + length (acquire p) + j)"
proof -
  have "ppo arch (progs ! 0) i (length A + length (release p v) - 1)"
    using ppo_suffix [OF release_orders [OF i]] by (simp add: progs)
  moreover have "ppo arch (progs ! 1) (length B') (length B' + length (acquire p) + j)"
    using ppo_prefix [OF acquire_orders [OF j], of B' p] by (simp add: progs add.assoc)
  ultimately have "at ex (0, i) < at ex (0, length A + length (release p v) - 1)"
    "at ex (1, length B') < at ex (1, length B' + length (acquire p) + j)"
    using ex progs unfolding execution_def by (metis length_Cons zero_less_Suc, metis One_nat_def length_Cons lessI less_Suc_eq list.size(3))
  with seen show ?thesis by simp
qed

lemma published:
  assumes progs: "progs = [A @ release p v @ A', B' @ acquire p @ B]"
    and ex: "execution arch progs ex"
    and fresh: "m p \<noteq> v" "\<And>e ord. e \<in> access_events progs \<Longrightarrow> op_of progs e = Store ord p v \<Longrightarrow>
      e = (0, length A + length (release p v) - 1)"
    and seen: "value_read progs m ex (1, length B') = v"
    and i: "i < length A" "A ! i = Store ord a w" and j: "j < length B" "B ! j = Load ord' a"
    and only: "\<And>e. e \<in> access_events progs \<Longrightarrow> stores_to progs a e \<Longrightarrow> fst e = 0 \<and> snd e \<le> i"
  shows "value_read progs m ex (1, length B' + length (acquire p) + j) = w"
proof -
  let ?l = "(1, length B')" and ?s = "(0, i)" and ?r = "(1, length B' + length (acquire p) + j)"
  have d: "distinct ex" "set ex = access_events progs" using ex by (auto simp: execution_def)
  obtain fs o1 where acq: "acquire p = Load o1 p # fs" using acquire_loads by blast
  have l: "?l \<in> set ex" "op_addr (op_of progs ?l) = Some p"
    by (auto simp: d(2) access_events_def progs acq op_of_def is_access_def nth_append)
  have s: "?s \<in> set ex" "op_of progs ?s = Store ord a w"
    using i by (auto simp: d(2) access_events_def progs op_of_def is_access_def nth_append)
  have "(B' @ acquire p @ B) ! (length B' + length (acquire p) + j) = B ! j" by (simp add: nth_append add.assoc)
  then have r: "?r \<in> set ex" "op_addr (op_of progs ?r) = Some a"
    using j by (auto simp: d(2) access_events_def progs op_of_def is_access_def)
  have "at ex (0, length A + length (release p v) - 1) < at ex ?l"
    using value_read_source [OF d(1) l seen fresh(1)] fresh(2) d(2) by blast
  from hand_off [OF progs ex this i(1) _ j(1)] have before: "at ex ?s < at ex ?r" using i(2) j(2) by (simp add: is_access_def)
  have "at ex e \<le> at ex ?s" if e: "e \<in> set ex" "stores_to progs a e" for e
  proof -
    obtain k where k: "e = (0, k)" "k \<le> i" using only [of e] e d(2) by (cases e) auto
    show ?thesis
    proof (cases "k = i")
      case False
      then have "ppo arch (progs ! 0) k i"
        using k e s i d(2) by (auto simp: ppo_def progs access_events_def stores_to_def op_of_def is_access_def nth_append)
      then have "at ex (0, k) < at ex (0, i)" using ex progs unfolding execution_def by (metis length_Cons zero_less_Suc)
      then show ?thesis using k(1) by simp
    qed (simp add: k)
  qed
  then show ?thesis using value_read_last [OF d(1) r s before] by blast
qed

end

text \<open>The macros of \<open>compiler.h\<close> and of \<open>xsk.h\<close>, on every architecture.\<close>

lemma release_ordersI:
  assumes "i < length A" and "is_access (A ! i)"
    and "op_releases (Store ord p v) \<or> (\<exists>k < length fs. \<forall>x. is_access x \<longrightarrow> orders arch (fs ! k) x (Store ord p v))"
  shows "ppo arch (A @ fs @ [Store ord p v]) i (length A + length fs)"
proof -
  let ?prog = "A @ fs @ [Store ord p v]" and ?n = "length A + length fs"
  have "(A @ fs @ [Store ord p v]) ! (length A + length fs) = Store ord p v" by (simp add: nth_append)
  moreover have "\<exists>k \<in> {i<..<length A + length fs}. orders arch ((A @ fs @ [Store ord p v]) ! k) (A ! i) (Store ord p v)"
    if f: "\<exists>k < length fs. \<forall>x. is_access x \<longrightarrow> orders arch (fs ! k) x (Store ord p v)"
  proof -
    obtain k where "k < length fs" "orders arch (fs ! k) (A ! i) (Store ord p v)" using f assms(2) by blast
    then show ?thesis using assms(1) by (intro bexI [of _ "length A + k"]) (auto simp: nth_append)
  qed
  moreover have "(A @ fs @ [Store ord p v]) ! i = A ! i" using assms(1) by (simp add: nth_append)
  ultimately have "?prog ! ?n = Store ord p v" "?prog ! i = A ! i"
    "op_releases (Store ord p v) \<or> (\<exists>k \<in> {i<..<?n}. orders arch (?prog ! k) (A ! i) (Store ord p v))"
    using assms(3) by blast+
  then show ?thesis unfolding ppo_def using assms(1,2) by (simp only:) (auto simp: is_access_def)
qed

lemma acquire_ordersI:
  assumes "j < length B" and "is_access (B ! j)"
    and "op_acquires (Load ord p) \<or> (\<exists>k < length fs. \<forall>x. is_access x \<longrightarrow> orders arch (fs ! k) (Load ord p) x)"
  shows "ppo arch (Load ord p # fs @ B) 0 (Suc (length fs) + j)"
proof -
  have "(Load ord p # fs @ B) ! (Suc (length fs) + j) = B ! j" by (simp add: nth_append)
  moreover have "\<exists>k \<in> {0<..<Suc (length fs) + j}. orders arch ((Load ord p # fs @ B) ! k) (Load ord p) (B ! j)"
    if f: "\<exists>k < length fs. \<forall>x. is_access x \<longrightarrow> orders arch (fs ! k) (Load ord p) x"
  proof -
    obtain k where "k < length fs" "orders arch (fs ! k) (Load ord p) (B ! j)" using f assms(2) by blast
    then show ?thesis by (intro bexI [of _ "Suc k"]) (auto simp: nth_append)
  qed
  ultimately show ?thesis using assms by (auto simp: ppo_def is_access_def)
qed

lemmas barrier_defs = smp_store_release_def smp_load_acquire_def smp_mb_def barrier_def READ_ONCE_def WRITE_ONCE_def
  libbpf_smp_store_release_def libbpf_smp_load_acquire_def is_access_def

interpretation smp: release_acquire arch "smp_store_release arch" "smp_load_acquire arch" for arch
proof
  fix p v i j and A B :: "op list"
  show "\<exists>fs ord. smp_store_release arch p v = fs @ [Store ord p v] \<and> (\<forall>x \<in> set fs. \<not> is_access x)"
    by (cases arch) (auto simp: barrier_defs)
  show "\<exists>fs ord. smp_load_acquire arch p = Load ord p # fs \<and> (\<forall>x \<in> set fs. \<not> is_access x)"
    by (cases arch) (auto simp: barrier_defs)
  show "ppo arch (A @ smp_store_release arch p v) i (length A + length (smp_store_release arch p v) - 1)"
    if "i < length A" "is_access (A ! i)"
    using release_ordersI [OF that, of Plain p v "if arch = X86_64 then barrier else smp_mb arch" arch]
    by (cases arch) (simp_all add: barrier_defs)
  show "ppo arch (smp_load_acquire arch p @ B) 0 (length (smp_load_acquire arch p) + j)"
    if "j < length B" "is_access (B ! j)"
    using acquire_ordersI [OF that, of Plain p "if arch = X86_64 then barrier else smp_mb arch" arch]
    by (cases arch) (simp_all add: barrier_defs)
qed

interpretation xsk: release_acquire arch "libbpf_smp_store_release arch" "libbpf_smp_load_acquire arch" for arch
proof
  fix p v i j and A B :: "op list"
  show "\<exists>fs ord. libbpf_smp_store_release arch p v = fs @ [Store ord p v] \<and> (\<forall>x \<in> set fs. \<not> is_access x)"
    by (cases arch) (auto simp: barrier_defs)
  show "\<exists>fs ord. libbpf_smp_load_acquire arch p = Load ord p # fs \<and> (\<forall>x \<in> set fs. \<not> is_access x)"
    by (cases arch) (auto simp: barrier_defs)
  show "ppo arch (A @ libbpf_smp_store_release arch p v) i (length A + length (libbpf_smp_store_release arch p v) - 1)"
    if "i < length A" "is_access (A ! i)"
    using release_ordersI [OF that, of "if arch = Aarch64 then Rel else Plain" p v "butlast (libbpf_smp_store_release arch p v)" arch]
    by (cases arch) (simp_all add: barrier_defs)
  show "ppo arch (libbpf_smp_load_acquire arch p @ B) 0 (length (libbpf_smp_load_acquire arch p) + j)"
    if "j < length B" "is_access (B ! j)"
    using acquire_ordersI [OF that, of "if arch = Aarch64 then Acq else Plain" p "tl (libbpf_smp_load_acquire arch p)" arch]
    by (cases arch) (simp_all add: barrier_defs)
qed

section \<open>Properties\<close>

text \<open>
  (C33) Publication.  On every architecture, when one thread writes data and then an index with \<open>smp_store_release\<close> of
  \<open>compiler.h\<close> or \<open>libbpf_smp_store_release\<close> of \<open>xsk.h\<close>, and another reads the new index with the matching acquire macro
  and then the data, it reads the data that was written, in whatever order the processors perform the accesses.
\<close>

theorem release_acquire_publishes:
  assumes macros: "(release, acquire) \<in> {(smp_store_release, smp_load_acquire), (libbpf_smp_store_release, libbpf_smp_load_acquire)}"
    and progs: "progs = [A @ release arch p v @ A', B' @ acquire arch p @ B]"
    and ex: "execution arch progs ex"
    and fresh: "m p \<noteq> v" "\<forall>e \<in> access_events progs. \<forall>ord. op_of progs e = Store ord p v \<longrightarrow>
      e = (0, length A + length (release arch p v) - 1)"
    and seen: "value_read progs m ex (1, length B') = v"
    and i: "i < length A" "A ! i = Store ord a w" and j: "j < length B" "B ! j = Load ord' a"
    and only: "\<forall>e \<in> access_events progs. stores_to progs a e \<longrightarrow> fst e = 0 \<and> snd e \<le> i"
  shows "value_read progs m ex (1, length B' + length (acquire arch p) + j) = w"
proof -
  have "release_acquire arch (release arch) (acquire arch)"
    using macros smp.release_acquire_axioms xsk.release_acquire_axioms by auto
  from release_acquire.published [OF this progs ex fresh(1) _ seen i j] fresh(2) only show ?thesis by blast
qed

text \<open>
  The perf ring.  Data that user space read before it wrote the tail with \<open>ring_buffer_write_tail\<close> was read before
  anything the kernel does after it saw that tail, so the kernel cannot overwrite it; and user space reads nothing of the
  data before \<open>ring_buffer_read_head\<close> returned.
\<close>

theorem perf_ring_ordered:
  assumes progs: "progs = [A @ ring_buffer_write_tail arch base t @ A', B' @ smp_load_acquire arch (data_tail base) @ B]"
    and ex: "execution arch progs ex"
    and seen: "at ex (0, length A + length (ring_buffer_write_tail arch base t) - 1) < at ex (1, length B')"
    and i: "i < length A" "is_access (A ! i)" and j: "j < length B" "is_access (B ! j)"
  shows "at ex (0, i) < at ex (1, length B' + length (smp_load_acquire arch (data_tail base)) + j) \<and>
    (A = C @ ring_buffer_read_head arch base @ D \<longrightarrow> k < length D \<longrightarrow> is_access (D ! k) \<longrightarrow>
      at ex (0, length C) < at ex (0, length C + length (ring_buffer_read_head arch base) + k))"
proof (intro conjI impI)
  show "at ex (0, i) < at ex (1, length B' + length (smp_load_acquire arch (data_tail base)) + j)"
    using smp.hand_off [OF progs [unfolded ring_buffer_write_tail_def] ex _ i j] seen
    by (simp add: ring_buffer_write_tail_def)
  assume A: "A = C @ ring_buffer_read_head arch base @ D" and k: "k < length D" "is_access (D ! k)"
  have "ppo arch (progs ! 0) (length C) (length C + length (ring_buffer_read_head arch base) + k)"
    using ppo_prefix [OF ppo_suffix [OF smp.acquire_orders [OF k]], where q = C]
    by (simp add: progs A ring_buffer_read_head_def add.assoc)
  then show "at ex (0, length C) < at ex (0, length C + length (ring_buffer_read_head arch base) + k)"
    using ex progs unfolding execution_def by (metis length_Cons zero_less_Suc)
qed

section \<open>Two small programs\<close>

lemma access_events_two:
  assumes "is_access a" "is_access b" "is_access c" "is_access d"
  shows "access_events [[a, b], [c, d]] = {(0, 0), (0, 1), (1, 0), (1, 1)}"
  using assms by (auto simp: access_events_def less_Suc_eq nth_Cons split: nat.splits)

lemma ppo_two: "ppo arch [a, b] i j \<Longrightarrow> i = 0 \<and> j = 1"
  by (auto simp: ppo_def less_Suc_eq)

lemma execution_two:
  assumes "is_access a" "is_access b" "is_access c" "is_access d"
    and "distinct ex" "set ex = {(0, 0), (0, 1), (1, 0), (1, 1)}"
    and "ppo arch [a, b] 0 1 \<Longrightarrow> at ex (0, 0) < at ex (0, 1)" "ppo arch [c, d] 0 1 \<Longrightarrow> at ex (1, 0) < at ex (1, 1)"
  shows "execution arch [[a, b], [c, d]] ex"
proof -
  have "at ex (t, i) < at ex (t, j)" if t: "t < 2" "ppo arch ([[a, b], [c, d]] ! t) i j" for t i j
  proof -
    consider "t = 0" "ppo arch [a, b] i j" | "t = 1" "ppo arch [c, d] i j" using t by (auto simp: less_Suc_eq numeral_2_eq_2)
    then show ?thesis by cases (use assms(7,8) ppo_two in blast)+
  qed
  then show ?thesis unfolding execution_def using assms(5,6) access_events_two [OF assms(1-4)] by simp
qed

text \<open>Plain accesses are not enough: on a processor that may reorder them, a new index is read with old data.\<close>

theorem plain_accesses_reordered:
  "\<exists>ex. execution Aarch64 [WRITE_ONCE 8 1 @ WRITE_ONCE 0 1, READ_ONCE 0 @ READ_ONCE 8] ex \<and>
     value_read [WRITE_ONCE 8 1 @ WRITE_ONCE 0 1, READ_ONCE 0 @ READ_ONCE 8] (\<lambda>_. 0) ex (1, 0) = 1 \<and>
     value_read [WRITE_ONCE 8 1 @ WRITE_ONCE 0 1, READ_ONCE 0 @ READ_ONCE 8] (\<lambda>_. 0) ex (1, 1) = 0"
proof (intro exI conjI)
  let ?ex = "[(0, 1), (1, 0), (1, 1), (0, 0)]"
  show "execution Aarch64 [WRITE_ONCE 8 1 @ WRITE_ONCE 0 1, READ_ONCE 0 @ READ_ONCE 8] ?ex"
    unfolding WRITE_ONCE_def READ_ONCE_def append.simps
    by (rule execution_two) (auto simp: is_access_def at_def ppo_def)
qed (simp_all add: value_read_def at_def op_of_def WRITE_ONCE_def READ_ONCE_def)

theorem release_acquire_publishes_witness:
  "value_read [[Store Plain 8 1, Store Rel 0 1], [Load Acq 0, Load Plain 8]] (\<lambda>_. 0) [(0, 0), (0, 1), (1, 0), (1, 1)] (1, 1) = 1"
proof -
  let ?progs = "[[Store Plain 8 1, Store Rel 0 1], [Load Acq 0, Load Plain 8]]" and ?ex = "[(0, 0), (0, 1), (1, 0), (1, 1)]"
  have ex: "execution Aarch64 ?progs ?ex" by (rule execution_two) (auto simp: is_access_def at_def)
  have ev: "access_events ?progs = {(0, 0), (0, 1), (1, 0), (1, 1)}" by (rule access_events_two) (simp_all add: is_access_def)
  have macros: "(libbpf_smp_store_release, libbpf_smp_load_acquire) \<in>
      {(smp_store_release, smp_load_acquire), (libbpf_smp_store_release, libbpf_smp_load_acquire)}" by simp
  have "value_read ?progs (\<lambda>_. 0) ?ex (1, length ([] :: op list) + length (libbpf_smp_load_acquire Aarch64 0) + 0) = 1"
    by (rule release_acquire_publishes [OF macros, where arch = Aarch64 and p = 0 and v = 1
          and A = "[Store Plain 8 1]" and A' = "[]" and B' = "[]" and B = "[Load Plain 8]" and i = 0 and j = 0 and a = 8])
      (use ex in \<open>simp_all add: ev libbpf_smp_store_release_def libbpf_smp_load_acquire_def value_read_def at_def op_of_def stores_to_def\<close>)
  then show ?thesis by (simp add: libbpf_smp_load_acquire_def)
qed

theorem perf_ring_ordered_witness:
  "\<exists>ex. execution Riscv [[Load Plain 64] @ ring_buffer_write_tail Riscv 0 8, smp_load_acquire Riscv (data_tail 0) @ [Store Plain 64 9]] ex \<and>
     at ex (0, 0) < at ex (1, 2)"
proof -
  let ?progs = "[[Load Plain 64] @ ring_buffer_write_tail Riscv 0 8 @ [], [] @ smp_load_acquire Riscv (data_tail 0) @ [Store Plain 64 9]]"
  let ?ex = "[(0, 0), (0, 2), (1, 0), (1, 2)]"
  have ex: "execution Riscv ?progs ?ex"
    by (auto simp: execution_def access_events_def ring_buffer_write_tail_def barrier_defs less_Suc_eq ppo_def at_def nth_Cons
        split: nat.splits)
  from perf_ring_ordered [OF refl ex, of 0 0]
  have "at ?ex (0, 0) < at ?ex (1, 2)"
    by (simp add: ring_buffer_write_tail_def barrier_defs at_def)
  with ex show ?thesis by auto
qed

end
