(* ===== verification/Netlink.thy ===== *)
theory Netlink
  imports C_Layout Linux_Arith "HOL-Library.Monad_Syntax"
begin

text \<open>
  Reading netlink messages: the alignment and length macros of \<open>uapi/linux/netlink.h\<close>, which libbpf is built from, and
  the functions and loops of the kernel's \<open>net/netlink.h\<close> over messages and attributes.  Pointers are offsets into the
  receive buffer, sizes keep their C types (an \<open>int\<close> that counts the remaining bytes may become negative), and a read
  outside the buffer is \<open>None\<close>.  The locale \<open>tlv_walk\<close> is what both loops rely on: it holds the lemmas that the loops
  end, stay inside the buffer and visit exactly the records a reference splitter finds.
\<close>

unbundle bit_operations_syntax

section \<open>Headers\<close>

record nlmsghdr =
  nlmsg_length :: u32
  nlmsg_type :: u16
  nlmsg_flags :: u16
  nlmsg_seq :: u32
  nlmsg_pid :: u32

definition nlmsghdr_layout :: layout where
  "nlmsghdr_layout = [(''nlmsg_len'', 4, 4), (''nlmsg_type'', 2, 2), (''nlmsg_flags'', 2, 2), (''nlmsg_seq'', 4, 4),
     (''nlmsg_pid'', 4, 4)]"

record nlattr =
  nla_length :: u16
  nla_kind :: u16

definition nlattr_layout :: layout where
  "nlattr_layout = [(''nla_len'', 2, 2), (''nla_type'', 2, 2)]"

text \<open>Reading \<open>n\<close> bytes at an offset of a buffer.\<close>

definition read_at :: "bytes \<Rightarrow> int \<Rightarrow> nat \<Rightarrow> bytes option" where
  "read_at buf p n = (if 0 \<le> p \<and> p + int n \<le> int (length buf) then Some (chunk (nat p) n buf) else None)"

definition load_nlmsghdr :: "bytes \<Rightarrow> int \<Rightarrow> nlmsghdr option" where
  "load_nlmsghdr buf p = do {
     bs \<leftarrow> read_at buf p (size_of nlmsghdr_layout);
     Some \<lparr>nlmsg_length = le_word (chunk 0 4 bs), nlmsg_type = le_word (chunk 4 2 bs), nlmsg_flags = le_word (chunk 6 2 bs),
       nlmsg_seq = le_word (chunk 8 4 bs), nlmsg_pid = le_word (chunk 12 4 bs)\<rparr> }"

definition load_nlattr :: "bytes \<Rightarrow> int \<Rightarrow> nlattr option" where
  "load_nlattr buf p = do {
     bs \<leftarrow> read_at buf p (size_of nlattr_layout);
     Some \<lparr>nla_length = le_word (chunk 0 2 bs), nla_kind = le_word (chunk 2 2 bs)\<rparr> }"

section \<open>The macros of \<open>uapi/linux/netlink.h\<close>\<close>

text \<open>The mask of \<open>NLMSG_ALIGN\<close> is an \<open>unsigned int\<close> whatever the type of the argument is.\<close>

definition NLMSG_ALIGNTO :: u32 where "NLMSG_ALIGNTO = 4"

definition NLMSG_ALIGN :: "'a::len word \<Rightarrow> 'a word" where
  "NLMSG_ALIGN len = (len + ucast NLMSG_ALIGNTO - 1) AND ucast (NOT (NLMSG_ALIGNTO - 1))"

definition NLMSG_HDRLEN :: i32 where
  "NLMSG_HDRLEN = ucast (NLMSG_ALIGN (of_nat (size_of nlmsghdr_layout) :: u64))"

definition NLMSG_LENGTH :: "i32 \<Rightarrow> i32" where
  "NLMSG_LENGTH len = len + NLMSG_HDRLEN"

definition NLMSG_SPACE :: "i32 \<Rightarrow> u32" where
  "NLMSG_SPACE len = NLMSG_ALIGN (NLMSG_LENGTH len)"

definition NLMSG_DATA :: "int \<Rightarrow> int" where
  "NLMSG_DATA nlh = nlh + sint (NLMSG_LENGTH 0)"

definition NLMSG_NEXT :: "bytes \<Rightarrow> int \<Rightarrow> i32 \<Rightarrow> (int \<times> i32) option" where
  "NLMSG_NEXT buf nlh len = do {
     h \<leftarrow> load_nlmsghdr buf nlh;
     Some (nlh + uint (NLMSG_ALIGN (nlmsg_length h)), len - NLMSG_ALIGN (nlmsg_length h)) }"

definition NLMSG_OK :: "bytes \<Rightarrow> int \<Rightarrow> i32 \<Rightarrow> bool option" where
  "NLMSG_OK buf nlh len =
     (if sint len \<ge> sint (of_nat (size_of nlmsghdr_layout) :: i32)
      then do {
        h \<leftarrow> load_nlmsghdr buf nlh;
        Some ((ucast (nlmsg_length h) :: u64) \<ge> of_nat (size_of nlmsghdr_layout) \<and> nlmsg_length h \<le> len) }
      else Some False)"

definition NLMSG_PAYLOAD :: "nlmsghdr \<Rightarrow> i32 \<Rightarrow> u32" where
  "NLMSG_PAYLOAD h len = nlmsg_length h - NLMSG_SPACE len"

definition NLA_F_NESTED :: i32 where "NLA_F_NESTED = push_bit 15 1"
definition NLA_F_NET_BYTEORDER :: i32 where "NLA_F_NET_BYTEORDER = push_bit 14 1"
definition NLA_TYPE_MASK :: i32 where "NLA_TYPE_MASK = NOT (NLA_F_NESTED OR NLA_F_NET_BYTEORDER)"
definition NLA_ALIGNTO :: i32 where "NLA_ALIGNTO = 4"

definition NLA_ALIGN :: "i32 \<Rightarrow> i32" where
  "NLA_ALIGN len = (len + NLA_ALIGNTO - 1) AND NOT (NLA_ALIGNTO - 1)"

text \<open>\<open>sizeof\<close> is 64 bits wide; the value and the mask are small, so the cast to \<open>int\<close> may be taken first.\<close>

definition NLA_HDRLEN :: i32 where
  "NLA_HDRLEN = NLA_ALIGN (of_nat (size_of nlattr_layout))"

section \<open>Messages in \<open>net/netlink.h\<close>\<close>

definition nlmsg_msg_size :: "i32 \<Rightarrow> i32" where
  "nlmsg_msg_size payload = NLMSG_HDRLEN + payload"

definition nlmsg_total_size :: "i32 \<Rightarrow> i32" where
  "nlmsg_total_size payload = NLMSG_ALIGN (nlmsg_msg_size payload)"

definition nlmsg_padlen :: "i32 \<Rightarrow> i32" where
  "nlmsg_padlen payload = nlmsg_total_size payload - nlmsg_msg_size payload"

definition nlmsg_data :: "int \<Rightarrow> int" where
  "nlmsg_data nlh = nlh + sint NLMSG_HDRLEN"

definition nlmsg_len :: "nlmsghdr \<Rightarrow> i32" where
  "nlmsg_len h = nlmsg_length h - NLMSG_HDRLEN"

definition nlmsg_attrdata :: "int \<Rightarrow> i32 \<Rightarrow> int" where
  "nlmsg_attrdata nlh hdrlen = nlmsg_data nlh + uint (NLMSG_ALIGN hdrlen)"

definition nlmsg_attrlen :: "nlmsghdr \<Rightarrow> i32 \<Rightarrow> i32" where
  "nlmsg_attrlen h hdrlen = nlmsg_len h - NLMSG_ALIGN hdrlen"

definition nlmsg_ok :: "bytes \<Rightarrow> int \<Rightarrow> i32 \<Rightarrow> bool option" where
  "nlmsg_ok buf nlh remaining =
     (if sint remaining \<ge> sint (of_nat (size_of nlmsghdr_layout) :: i32)
      then do {
        h \<leftarrow> load_nlmsghdr buf nlh;
        Some ((ucast (nlmsg_length h) :: u64) \<ge> of_nat (size_of nlmsghdr_layout) \<and> nlmsg_length h \<le> remaining) }
      else Some False)"

text \<open>\<open>remaining\<close> is decreased with the wrap-around the kernel is compiled for; it matters only for lengths near 2 GB.\<close>

definition nlmsg_next :: "bytes \<Rightarrow> int \<Rightarrow> i32 \<Rightarrow> (int \<times> i32) option" where
  "nlmsg_next buf nlh remaining = do {
     h \<leftarrow> load_nlmsghdr buf nlh;
     let totlen = (NLMSG_ALIGN (nlmsg_length h) :: i32) in
     Some (nlh + sint totlen, remaining - totlen) }"

definition nlmsg_report :: "nlmsghdr option \<Rightarrow> bool" where
  "nlmsg_report nlh = (case nlh of Some h \<Rightarrow> nlmsg_flags h AND 8 \<noteq> 0 | None \<Rightarrow> False)"

text \<open>The loop both \<open>for_each\<close> macros expand to; the visited positions with the bytes that remain there.\<close>

partial_function (option) for_each ::
  "(int \<Rightarrow> i32 \<Rightarrow> bool option) \<Rightarrow> (int \<Rightarrow> i32 \<Rightarrow> (int \<times> i32) option) \<Rightarrow> int \<Rightarrow> i32 \<Rightarrow> (int \<times> i32) list option" where
  [code]: "for_each ok nxt pos rem = do {
     go \<leftarrow> ok pos rem;
     if go then do {
       (pos', rem') \<leftarrow> nxt pos rem;
       rest \<leftarrow> for_each ok nxt pos' rem';
       Some ((pos, rem) # rest) }
     else Some [] }"

definition nlmsg_for_each_msg :: "bytes \<Rightarrow> int \<Rightarrow> i32 \<Rightarrow> (int \<times> i32) list option" where
  "nlmsg_for_each_msg buf head len = for_each (nlmsg_ok buf) (nlmsg_next buf) head len"

section \<open>Attributes in \<open>net/netlink.h\<close>\<close>

definition nla_attr_size :: "i32 \<Rightarrow> i32" where
  "nla_attr_size payload = NLA_HDRLEN + payload"

definition nla_total_size :: "i32 \<Rightarrow> i32" where
  "nla_total_size payload = NLA_ALIGN (nla_attr_size payload)"

definition nla_padlen :: "i32 \<Rightarrow> i32" where
  "nla_padlen payload = nla_total_size payload - nla_attr_size payload"

definition nla_type :: "nlattr \<Rightarrow> i32" where
  "nla_type a = ucast (nla_kind a) AND NLA_TYPE_MASK"

definition nla_data :: "int \<Rightarrow> int" where
  "nla_data nla = nla + sint NLA_HDRLEN"

definition nla_len :: "nlattr \<Rightarrow> i32" where
  "nla_len a = ucast (nla_length a) - NLA_HDRLEN"

definition nla_ok :: "bytes \<Rightarrow> int \<Rightarrow> i32 \<Rightarrow> bool option" where
  "nla_ok buf nla remaining =
     (if sint remaining \<ge> sint (of_nat (size_of nlattr_layout) :: i32)
      then do {
        a \<leftarrow> load_nlattr buf nla;
        Some ((ucast (nla_length a) :: u64) \<ge> of_nat (size_of nlattr_layout) \<and>
          sint (ucast (nla_length a) :: i32) \<le> sint remaining) }
      else Some False)"

definition nla_next :: "bytes \<Rightarrow> int \<Rightarrow> i32 \<Rightarrow> (int \<times> i32) option" where
  "nla_next buf nla remaining = do {
     a \<leftarrow> load_nlattr buf nla;
     let totlen = (NLA_ALIGN (ucast (nla_length a)) :: u32) in
     Some (nla + uint totlen, remaining - totlen) }"

definition nla_for_each_attr :: "bytes \<Rightarrow> int \<Rightarrow> i32 \<Rightarrow> (int \<times> i32) list option" where
  "nla_for_each_attr buf head len = for_each (nla_ok buf) (nla_next buf) head len"

definition nla_for_each_nested :: "bytes \<Rightarrow> int \<Rightarrow> (int \<times> i32) list option" where
  "nla_for_each_nested buf nla = do {
     a \<leftarrow> load_nlattr buf nla;
     nla_for_each_attr buf (nla_data nla) (nla_len a) }"

definition nlmsg_for_each_attr :: "bytes \<Rightarrow> int \<Rightarrow> i32 \<Rightarrow> (int \<times> i32) list option" where
  "nlmsg_for_each_attr buf nlh hdrlen = do {
     h \<leftarrow> load_nlmsghdr buf nlh;
     nla_for_each_attr buf (nlmsg_attrdata nlh hdrlen) (nlmsg_attrlen h hdrlen) }"

definition nla_is_last :: "nlattr \<Rightarrow> i32 \<Rightarrow> bool" where
  "nla_is_last a rem \<longleftrightarrow> (ucast (nla_length a) :: i32) = rem"

section \<open>Alignment\<close>

lemma size_of_headers [simp]: "size_of nlmsghdr_layout = 16" "size_of nlattr_layout = 4"
  by (simp_all add: size_of_def layout_align_def align_up_def nlmsghdr_layout_def nlattr_layout_def del: One_nat_def)

definition align4 :: "nat \<Rightarrow> nat" where
  "align4 n = (n + 3) div 4 * 4"

lemma align4_bounds: "n \<le> align4 n" "align4 n < n + 4" "4 dvd align4 n"
  by (auto simp: align4_def)

lemma align4_id: "4 dvd n \<Longrightarrow> align4 n = n"
  by (auto simp: align4_def dvd_def)

lemma and_not_3:
  assumes "3 \<le> LENGTH('a)"
  shows "unat ((x :: 'a::len word) AND - 4) = unat x div 4 * 4"
proof -
  have "3 = (mask 2 :: 'a word)" by (simp add: mask_eq_exp_minus_1)
  moreover have "x AND NOT (mask 2) = push_bit 2 (drop_bit 2 x)"
    by (rule bit_word_eqI) (auto simp: bit_and_iff bit_not_iff bit_mask_iff bit_push_bit_iff bit_drop_bit_eq not_less
      simp del: add_2_eq_Suc add_2_eq_Suc')
  ultimately have "x AND NOT 3 = push_bit 2 (drop_bit 2 x)" by metis
  moreover have "NOT 3 = (- 4 :: 'a word)" by simp
  moreover have "take_bit LENGTH('a) (unat x) = unat x" by (simp add: take_bit_nat_eq_self)
  ultimately have "unat (x AND - 4) = take_bit LENGTH('a) (unat x div 4 * 4)"
    by (simp only: unsigned_push_bit_eq unsigned_drop_bit_eq) (simp add: push_bit_eq_mult drop_bit_eq_div)
  moreover have "unat x div 4 * 4 < 2 ^ LENGTH('a)"
    using unsigned_less [of x] by (meson div_times_less_eq_dividend le_less_trans)
  ultimately show ?thesis by (simp add: take_bit_nat_eq_self)
qed

section \<open>Records of a byte buffer\<close>

text \<open>
  The reference: a buffer is a sequence of records, each as long as its header says and padded to a multiple of four; what
  follows the last complete record is ignored.
\<close>

function tlv_split :: "nat \<Rightarrow> (bytes \<Rightarrow> nat) \<Rightarrow> bytes \<Rightarrow> bytes list" where
  "tlv_split hl rl bs =
     (let n = rl (take hl bs)
      in if 0 < hl \<and> hl \<le> n \<and> n \<le> length bs then take n bs # tlv_split hl rl (drop (align4 n) bs) else [])"
  by pat_completeness auto
termination
proof (relation "measure (\<lambda>(hl, rl, bs). length bs)")
  fix hl :: nat and rl :: "bytes \<Rightarrow> nat" and bs :: bytes and n
  assume "n = rl (take hl bs)" and "0 < hl \<and> hl \<le> n \<and> n \<le> length bs"
  then show "((hl, rl, drop (align4 n) bs), hl, rl, bs) \<in> measure (\<lambda>(hl, rl, bs). length bs)"
    using align4_bounds(1) [of n] by auto
qed simp

declare tlv_split.simps [simp del]

definition tlv_pad :: "bytes \<Rightarrow> bytes" where
  "tlv_pad bs = bs @ replicate (align4 (length bs) - length bs) 0"

definition tlv_ok :: "nat \<Rightarrow> (bytes \<Rightarrow> nat) \<Rightarrow> bytes \<Rightarrow> bool" where
  "tlv_ok hl rl bs \<longleftrightarrow> 0 < hl \<and> hl \<le> length bs \<and> rl (take hl bs) = length bs"

lemma length_tlv_pad [simp]: "length (tlv_pad bs) = align4 (length bs)"
  using align4_bounds(1) [of "length bs"] by (simp add: tlv_pad_def)

lemma tlv_split_short: "length bs < hl \<Longrightarrow> tlv_split hl rl bs = []"
  by (subst tlv_split.simps) (simp add: Let_def)

lemma tlv_split_pad:
  assumes "tlv_ok hl rl b"
  shows "tlv_split hl rl (tlv_pad b @ rest) = b # tlv_split hl rl rest"
proof -
  have "take hl (tlv_pad b @ rest) = take hl b" "take (length b) (tlv_pad b @ rest) = b"
    "drop (align4 (length b)) (tlv_pad b @ rest) = rest"
    using assms align4_bounds(1) [of "length b"] by (auto simp: tlv_pad_def tlv_ok_def)
  then show ?thesis using assms align4_bounds(1) [of "length b"]
    by (subst tlv_split.simps) (simp add: tlv_ok_def Let_def)
qed

lemma tlv_split_last:
  assumes "tlv_ok hl rl b"
  shows "tlv_split hl rl b = [b]"
  using assms align4_bounds(1) [of "length b"]
  by (subst tlv_split.simps) (simp add: tlv_ok_def Let_def tlv_split_short)

lemma tlv_split_encoded:
  "\<forall>b \<in> set items. tlv_ok hl rl b \<Longrightarrow> 0 < hl \<Longrightarrow> tlv_split hl rl (concat (map tlv_pad items)) = items"
  by (induction items) (auto simp: tlv_split_pad tlv_split_short)

section \<open>What the loops rely on\<close>

locale tlv_walk =
  fixes hl :: nat
    and rl :: "bytes \<Rightarrow> nat" \<comment> \<open>the length in a header\<close>
    and ok :: "bytes \<Rightarrow> int \<Rightarrow> i32 \<Rightarrow> bool option"
    and nxt :: "bytes \<Rightarrow> int \<Rightarrow> i32 \<Rightarrow> (int \<times> i32) option"
  assumes hl_pos: "0 < hl"
    and ok_short: "sint rem < int hl \<Longrightarrow> ok buf p rem = Some False"
    and ok_room: "0 \<le> p \<Longrightarrow> int hl \<le> sint rem \<Longrightarrow> p + sint rem \<le> int (length buf) \<Longrightarrow>
      ok buf p rem = Some (hl \<le> rl (chunk (nat p) hl buf) \<and> int (rl (chunk (nat p) hl buf)) \<le> sint rem)"
    and nxt_room: "0 \<le> p \<Longrightarrow> p + sint rem \<le> int (length buf) \<Longrightarrow>
      n = rl (chunk (nat p) hl buf) \<Longrightarrow> hl \<le> n \<Longrightarrow> int n \<le> sint rem \<Longrightarrow>
      \<exists>p' rem'. nxt buf p rem = Some (p', rem') \<and> sint rem' = sint rem - int (align4 n) \<and>
        (0 \<le> sint rem' \<longrightarrow> p' = p + int (align4 n))"
begin

lemma visits_records:
  assumes "0 \<le> p" and "p + sint rem \<le> int (length buf)"
  shows "\<exists>vs. for_each (ok buf) (nxt buf) p rem = Some vs \<and>
    map (\<lambda>(q, r). chunk (nat q) (rl (chunk (nat q) hl buf)) buf) vs = tlv_split hl rl (chunk (nat p) (nat (sint rem)) buf) \<and>
    (\<forall>(q, r) \<in> set vs. p \<le> q \<and> q + int (rl (chunk (nat q) hl buf)) \<le> p + sint rem \<and> q + sint r = p + sint rem)"
  using assms
proof (induction "nat (sint rem)" arbitrary: p rem rule: less_induct)
  case less
  let ?n = "rl (chunk (nat p) hl buf)"
  let ?bs = "chunk (nat p) (nat (sint rem)) buf"
  have len: "length ?bs = nat (sint rem)" using less.prems by (simp add: min_def nat_le_iff) arith
  show ?case
  proof (cases "int hl \<le> sint rem \<and> hl \<le> ?n \<and> int ?n \<le> sint rem")
    case False
    then have "ok buf p rem = Some False" using ok_short [of rem buf p] ok_room [of p rem buf] less.prems by force
    moreover have "take hl ?bs = chunk (nat p) hl buf" if "hl \<le> nat (sint rem)" using that by (simp add: chunk_def)
    then have "tlv_split hl rl ?bs = []"
      using False len by (subst tlv_split.simps) (auto simp: Let_def nat_le_iff)
    ultimately show ?thesis by (subst for_each.simps) simp
  next
    case True
    then have n: "hl \<le> ?n" "int ?n \<le> sint rem" "int hl \<le> sint rem" by auto
    obtain p' rem' where nx: "nxt buf p rem = Some (p', rem')" "sint rem' = sint rem - int (align4 ?n)"
      "0 \<le> sint rem' \<Longrightarrow> p' = p + int (align4 ?n)"
      using nxt_room [OF less.prems refl n(1,2)] by blast
    have go: "ok buf p rem = Some True" using ok_room [of p rem buf] less.prems n by simp
    have a: "?n \<le> align4 ?n" by (rule align4_bounds)
    have rec: "take ?n ?bs = chunk (nat p) ?n buf" "take hl ?bs = chunk (nat p) hl buf"
      using n by (simp_all add: chunk_def min_def le_nat_iff)
    then have split: "tlv_split hl rl ?bs = chunk (nat p) ?n buf # tlv_split hl rl (drop (align4 ?n) ?bs)"
      using n hl_pos len by (subst tlv_split.simps) (simp add: Let_def nat_le_iff le_nat_iff)
    show ?thesis
    proof (cases "0 \<le> sint rem'")
      case False
      then have "for_each (ok buf) (nxt buf) p' rem' = Some []"
        by (subst for_each.simps) (simp add: ok_short hl_pos)
      moreover have "drop (align4 ?n) ?bs = []" using False nx(2) len by simp
      ultimately show ?thesis using go nx(1) split n hl_pos
        by (subst for_each.simps) (simp add: tlv_split_short)
    next
      case True
      then have p': "p' = p + int (align4 ?n)" by (rule nx)
      have "nat (sint rem') < nat (sint rem)" using nx(2) a n hl_pos by linarith
      moreover have "p' + sint rem' = p + sint rem" using p' nx(2) by simp
      ultimately obtain vs where vs: "for_each (ok buf) (nxt buf) p' rem' = Some vs"
        "map (\<lambda>(q, r). chunk (nat q) (rl (chunk (nat q) hl buf)) buf) vs =
           tlv_split hl rl (chunk (nat p') (nat (sint rem')) buf)"
        "\<forall>(q, r) \<in> set vs. p' \<le> q \<and> q + int (rl (chunk (nat q) hl buf)) \<le> p' + sint rem' \<and> q + sint r = p' + sint rem'"
        using less.hyps [of rem' p'] less.prems p' by auto
      have "nat (sint rem') = nat (sint rem) - align4 ?n" using nx(2) by linarith
      then have "chunk (nat p') (nat (sint rem')) buf = drop (align4 ?n) ?bs"
        using p' less.prems by (simp add: chunk_def drop_take nat_add_distrib add.commute)
      with vs(2) split have m: "map (\<lambda>(q, r). chunk (nat q) (rl (chunk (nat q) hl buf)) buf) ((p, rem) # vs) = tlv_split hl rl ?bs"
        by simp
      have f: "for_each (ok buf) (nxt buf) p rem = Some ((p, rem) # vs)"
        using go nx(1) vs(1) by (subst for_each.simps) simp
      show ?thesis using f m vs(3) p' nx(2) n by (intro exI [of _ "(p, rem) # vs"]) auto
    qed
  qed
qed

end

section \<open>The loops of \<open>net/netlink.h\<close>\<close>

definition msg_rl :: "bytes \<Rightarrow> nat" where
  "msg_rl bs = unat (le_word (chunk 0 4 bs) :: u32)"

definition attr_rl :: "bytes \<Rightarrow> nat" where
  "attr_rl bs = unat (le_word (chunk 0 2 bs) :: u16)"

lemma align_words:
  "NLMSG_ALIGN (x :: u32) = (x + 3) AND - 4" "NLA_ALIGN y = (y + 3) AND - 4"
  by (simp_all add: NLMSG_ALIGN_def NLMSG_ALIGNTO_def NLA_ALIGN_def NLA_ALIGNTO_def add.commute)

lemma unat_align:
  assumes "unat (x :: u32) + 3 < 2 ^ 32"
  shows "unat (NLMSG_ALIGN x) = align4 (unat x)" "unat (NLA_ALIGN x) = align4 (unat x)"
proof -
  have "unat (x + 3) = unat x + 3" using assms by (simp add: unat_word_ariths)
  then show "unat (NLMSG_ALIGN x) = align4 (unat x)" "unat (NLA_ALIGN x) = align4 (unat x)"
    by (simp_all add: align_words and_not_3 align4_def)
qed

lemma sint_minus:
  assumes "0 \<le> sint (r :: i32)" and "unat w \<le> 2 ^ 31"
  shows "sint (r - w) = sint r - int (unat w)"
proof -
  have "r - w = of_int (sint r - int (unat w))" by simp
  moreover have "sint r < 2 ^ 31" using sint_less [of r] by simp
  moreover have "int (unat w) \<le> 2 ^ 31" "0 \<le> int (unat w)" using assms(2) by (simp_all add: unat_uint_numeral)
  moreover from this(2) have "sint r - int (unat w) < 2 ^ 31" using \<open>sint r < 2 ^ 31\<close> by linarith
  ultimately show ?thesis using assms(1) sint_of_int_range [of "sint r - int (unat w)", where 'a = 32] by simp
qed

lemma load_nlmsghdr_room:
  "0 \<le> p \<Longrightarrow> p + 16 \<le> int (length buf) \<Longrightarrow>
   \<exists>h. load_nlmsghdr buf p = Some h \<and> unat (nlmsg_length h) = msg_rl (chunk (nat p) 16 buf)"
  by (simp add: load_nlmsghdr_def read_at_def msg_rl_def)

lemma load_nlattr_room:
  "0 \<le> p \<Longrightarrow> p + 4 \<le> int (length buf) \<Longrightarrow>
   \<exists>a. load_nlattr buf p = Some a \<and> unat (nla_length a) = attr_rl (chunk (nat p) 4 buf)"
  by (simp add: load_nlattr_def read_at_def attr_rl_def)

lemma ok_words:
  "(16 :: u64) \<le> ucast (x :: u32) \<longleftrightarrow> 16 \<le> unat x" "(4 :: u64) \<le> ucast (y :: u16) \<longleftrightarrow> 4 \<le> unat y"
  "0 \<le> sint r \<Longrightarrow> x \<le> r \<longleftrightarrow> int (unat x) \<le> sint r" "sint (ucast y :: i32) = int (unat y)"
proof -
  have "unat x < 2 ^ 64" "unat y < 2 ^ 31" using unsigned_less [of x, where 'a = nat] unsigned_less [of y, where 'a = nat] by simp_all
  moreover from this(2) have "unat y < 2 ^ 64" by simp
  ultimately have u: "unat (ucast x :: u64) = unat x" "unat (ucast y :: u64) = unat y" "unat (ucast y :: i32) = unat y"
    by (simp_all add: unsigned_ucast_eq take_bit_nat_eq_self)
  show "(16 :: u64) \<le> ucast x \<longleftrightarrow> 16 \<le> unat x" "(4 :: u64) \<le> ucast y \<longleftrightarrow> 4 \<le> unat y"
    using u by (simp_all add: word_le_nat_alt)
  show "0 \<le> sint r \<Longrightarrow> x \<le> r \<longleftrightarrow> int (unat x) \<le> sint r" by (simp add: sint_nonneg word_le_nat_alt del: of_nat_unat)
  show "sint (ucast y :: i32) = int (unat y)" using u(3) \<open>unat y < 2 ^ 31\<close> by (simp add: sint_cases)
qed

text \<open>One step forward, for a record of \<open>n\<close> bytes that fits: the counter goes down by the padded length.\<close>

lemma step_words:
  assumes "unat w = align4 n" and "int n \<le> sint (rem :: i32)"
  shows "sint (rem - w) = sint rem - int (align4 n)" and "0 \<le> sint (rem - w) \<Longrightarrow> sint w = int (align4 n)"
proof -
  have r: "int n < 2 ^ 31" using assms(2) sint_less [of rem] by simp
  have "align4 n \<le> 2 ^ 31"
  proof -
    have "n \<le> 2 ^ 31" using r by simp
    then have "(n + 3) div 4 \<le> 2 ^ 29" by simp
    then show ?thesis by (simp add: align4_def)
  qed
  then show m: "sint (rem - w) = sint rem - int (align4 n)" using sint_minus [of rem w] assms by simp
  assume "0 \<le> sint (rem - w)"
  then have "int (align4 n) < 2 ^ 31" using m sint_less [of rem] by simp
  then show "sint w = int (align4 n)" using assms(1) by (simp add: sint_cases del: of_nat_unat)
qed

lemma msg_align:
  assumes "unat (x :: u32) = n" and "int n \<le> sint (rem :: i32)"
  shows "unat (NLMSG_ALIGN x) = align4 n"
proof -
  have "int n < 2 ^ 31" using assms(2) sint_less [of rem] by simp
  then show ?thesis using unat_align(1) [of x] assms(1) by simp
qed

interpretation msgs: tlv_walk 16 msg_rl nlmsg_ok nlmsg_next
proof
  fix rem :: i32 and buf p n
  show "(0 :: nat) < 16" by simp
  show "nlmsg_ok buf p rem = Some False" if "sint rem < int 16" using that by (simp add: nlmsg_ok_def)
  show "nlmsg_ok buf p rem = Some (16 \<le> msg_rl (chunk (nat p) 16 buf) \<and> int (msg_rl (chunk (nat p) 16 buf)) \<le> sint rem)"
    if "0 \<le> p" "int 16 \<le> sint rem" "p + sint rem \<le> int (length buf)"
    using load_nlmsghdr_room [of p buf] that by (auto simp: nlmsg_ok_def ok_words simp del: of_nat_unat)
  assume a: "0 \<le> p" "p + sint rem \<le> int (length buf)" "n = msg_rl (chunk (nat p) 16 buf)" "16 \<le> n" "int n \<le> sint rem"
  then obtain h where "load_nlmsghdr buf p = Some h" "unat (nlmsg_length h) = n"
    using load_nlmsghdr_room [of p buf] by auto
  then show "\<exists>p' rem'. nlmsg_next buf p rem = Some (p', rem') \<and> sint rem' = sint rem - int (align4 n) \<and>
      (0 \<le> sint rem' \<longrightarrow> p' = p + int (align4 n))"
    using step_words [OF msg_align a(5)] a(5) by (simp add: nlmsg_next_def Let_def)
qed

interpretation uapi_msgs: tlv_walk 16 msg_rl NLMSG_OK NLMSG_NEXT
proof
  fix rem :: i32 and buf p n
  show "(0 :: nat) < 16" by simp
  show "NLMSG_OK buf p rem = Some False" if "sint rem < int 16" using that by (simp add: NLMSG_OK_def)
  show "NLMSG_OK buf p rem = Some (16 \<le> msg_rl (chunk (nat p) 16 buf) \<and> int (msg_rl (chunk (nat p) 16 buf)) \<le> sint rem)"
    if "0 \<le> p" "int 16 \<le> sint rem" "p + sint rem \<le> int (length buf)"
    using load_nlmsghdr_room [of p buf] that by (auto simp: NLMSG_OK_def ok_words simp del: of_nat_unat)
  assume a: "0 \<le> p" "p + sint rem \<le> int (length buf)" "n = msg_rl (chunk (nat p) 16 buf)" "16 \<le> n" "int n \<le> sint rem"
  then obtain h where "load_nlmsghdr buf p = Some h" "unat (nlmsg_length h) = n"
    using load_nlmsghdr_room [of p buf] by auto
  then show "\<exists>p' rem'. NLMSG_NEXT buf p rem = Some (p', rem') \<and> sint rem' = sint rem - int (align4 n) \<and>
      (0 \<le> sint rem' \<longrightarrow> p' = p + int (align4 n))"
    using step_words(1) [OF msg_align a(5)] msg_align [of "nlmsg_length h"] a(5)
    by (simp add: NLMSG_NEXT_def uint_unat del: of_nat_unat)
qed

interpretation attrs: tlv_walk 4 attr_rl nla_ok nla_next
proof
  fix rem :: i32 and buf p n
  show "(0 :: nat) < 4" by simp
  show "nla_ok buf p rem = Some False" if "sint rem < int 4" using that by (simp add: nla_ok_def)
  show "nla_ok buf p rem = Some (4 \<le> attr_rl (chunk (nat p) 4 buf) \<and> int (attr_rl (chunk (nat p) 4 buf)) \<le> sint rem)"
    if "0 \<le> p" "int 4 \<le> sint rem" "p + sint rem \<le> int (length buf)"
    using load_nlattr_room [of p buf] that by (auto simp: nla_ok_def ok_words simp del: of_nat_unat)
  assume a: "0 \<le> p" "p + sint rem \<le> int (length buf)" "n = attr_rl (chunk (nat p) 4 buf)" "4 \<le> n" "int n \<le> sint rem"
  then obtain h where h: "load_nlattr buf p = Some h" "unat (nla_length h) = n"
    using load_nlattr_room [of p buf] by auto
  have "unat (nla_length h) < 2 ^ 16" using unsigned_less [of "nla_length h"] by simp
  then have "unat (NLA_ALIGN (ucast (nla_length h))) = align4 n"
    using unat_align(2) [of "ucast (nla_length h)"] h(2) by (simp add: unsigned_ucast_eq take_bit_nat_eq_self)
  with h(1) show "\<exists>p' rem'. nla_next buf p rem = Some (p', rem') \<and> sint rem' = sint rem - int (align4 n) \<and>
      (0 \<le> sint rem' \<longrightarrow> p' = p + int (align4 n))"
    using step_words(1) [OF _ a(5)] by (simp add: nla_next_def Let_def uint_unat del: of_nat_unat)
qed

section \<open>Records in memory\<close>

definition enc_nlmsghdr :: "nlmsghdr \<Rightarrow> bytes" where
  "enc_nlmsghdr h = le_store 4 (nlmsg_length h) @ le_store 2 (nlmsg_type h) @ le_store 2 (nlmsg_flags h) @
     le_store 4 (nlmsg_seq h) @ le_store 4 (nlmsg_pid h)"

definition enc_attr :: "u16 \<Rightarrow> bytes \<Rightarrow> bytes" where
  "enc_attr t d = le_store 2 (of_nat (4 + length d) :: u16) @ le_store 2 t @ d"

lemma length_enc [simp]: "length (enc_nlmsghdr h) = 16" "length (enc_attr t d) = 4 + length d"
  by (simp_all add: enc_nlmsghdr_def enc_attr_def)

lemma tlv_ok_msg:
  "unat (nlmsg_length h) = 16 + length payload \<Longrightarrow> tlv_ok 16 msg_rl (enc_nlmsghdr h @ payload)"
  by (simp add: tlv_ok_def msg_rl_def) (simp add: enc_nlmsghdr_def chunk_def le_simps)

lemma tlv_ok_attr:
  assumes "4 + length d < 2 ^ 16"
  shows "tlv_ok 4 attr_rl (enc_attr t d)"
proof -
  have "chunk 0 2 (take 4 (enc_attr t d)) = le_store 2 (of_nat (4 + length d) :: u16)"
    by (simp add: enc_attr_def chunk_def)
  then show ?thesis using assms by (simp add: tlv_ok_def attr_rl_def le_simps unat_of_nat del: of_nat_add)
qed

lemma load_enc_nlmsghdr:
  assumes "chunk n 16 buf = enc_nlmsghdr h" and "n + 16 \<le> length buf"
  shows "load_nlmsghdr buf (int n) = Some h"
proof -
  have "n + 16 \<le> length buf \<longleftrightarrow> int n + 16 \<le> int (length buf)" by linarith
  then show ?thesis
    using assms by (simp add: load_nlmsghdr_def read_at_def enc_nlmsghdr_def chunk_append_left chunk_append_right le_simps)
qed

lemma load_enc_attr:
  assumes "chunk n 4 buf = take 4 (enc_attr t d)" and "n + 4 \<le> length buf"
  shows "load_nlattr buf (int n) = Some \<lparr>nla_length = of_nat (4 + length d), nla_kind = t\<rparr>"
proof -
  have "n + 4 \<le> length buf \<longleftrightarrow> int n + 4 \<le> int (length buf)" by linarith
  moreover have "take 4 (enc_attr t d) = le_store 2 (of_nat (4 + length d) :: u16) @ le_store 2 t"
    by (simp add: enc_attr_def)
  ultimately show ?thesis
    using assms by (simp add: load_nlattr_def read_at_def chunk_append_left chunk_append_right le_simps)
qed

section \<open>Properties\<close>

definition msg_at :: "bytes \<Rightarrow> int \<times> i32 \<Rightarrow> bytes" where
  "msg_at buf v = chunk (nat (fst v)) (msg_rl (chunk (nat (fst v)) 16 buf)) buf"

definition attr_at :: "bytes \<Rightarrow> int \<times> i32 \<Rightarrow> bytes" where
  "attr_at buf v = chunk (nat (fst v)) (attr_rl (chunk (nat (fst v)) 4 buf)) buf"

lemma msgs_visited:
  assumes "0 \<le> p" and "p + sint len \<le> int (length buf)"
  shows "\<exists>vs. nlmsg_for_each_msg buf p len = Some vs \<and>
    map (msg_at buf) vs = tlv_split 16 msg_rl (chunk (nat p) (nat (sint len)) buf) \<and>
    (\<forall>v \<in> set vs. p \<le> fst v \<and> fst v + int (length (msg_at buf v)) \<le> p + sint len)"
proof -
  have eq: "(\<lambda>(q, r). chunk (nat q) (msg_rl (chunk (nat q) 16 buf)) buf) = msg_at buf" by (auto simp: msg_at_def)
  obtain vs where vs: "for_each (nlmsg_ok buf) (nlmsg_next buf) p len = Some vs"
    "map (msg_at buf) vs = tlv_split 16 msg_rl (chunk (nat p) (nat (sint len)) buf)"
    "\<forall>(q, r) \<in> set vs. p \<le> q \<and> q + int (msg_rl (chunk (nat q) 16 buf)) \<le> p + sint len \<and> q + sint r = p + sint len"
    using msgs.visits_records [OF assms] unfolding eq by blast
  have "p \<le> fst v \<and> fst v + int (length (msg_at buf v)) \<le> p + sint len" if "v \<in> set vs" for v
    using bspec [OF vs(3) that] by (simp add: msg_at_def split_def min_def)
  with vs(1,2) show ?thesis unfolding nlmsg_for_each_msg_def by blast
qed

lemma attrs_visited:
  assumes "0 \<le> p" and "p + sint len \<le> int (length buf)"
  shows "\<exists>vs. nla_for_each_attr buf p len = Some vs \<and>
    map (attr_at buf) vs = tlv_split 4 attr_rl (chunk (nat p) (nat (sint len)) buf) \<and>
    (\<forall>v \<in> set vs. p \<le> fst v \<and> fst v + int (length (attr_at buf v)) \<le> p + sint len)"
proof -
  have eq: "(\<lambda>(q, r). chunk (nat q) (attr_rl (chunk (nat q) 4 buf)) buf) = attr_at buf" by (auto simp: attr_at_def)
  obtain vs where vs: "for_each (nla_ok buf) (nla_next buf) p len = Some vs"
    "map (attr_at buf) vs = tlv_split 4 attr_rl (chunk (nat p) (nat (sint len)) buf)"
    "\<forall>(q, r) \<in> set vs. p \<le> q \<and> q + int (attr_rl (chunk (nat q) 4 buf)) \<le> p + sint len \<and> q + sint r = p + sint len"
    using attrs.visits_records [OF assms] unfolding eq by blast
  have "p \<le> fst v \<and> fst v + int (length (attr_at buf v)) \<le> p + sint len" if "v \<in> set vs" for v
    using bspec [OF vs(3) that] by (simp add: attr_at_def split_def min_def)
  with vs(1,2) show ?thesis unfolding nla_for_each_attr_def by blast
qed

text \<open>
  (C38) Netlink loops.  Whatever bytes were received, with a length up to the largest \<open>int\<close>, the kernel's loop over the
  messages of a buffer ends, never reads outside the buffer, although its counter may become negative, and visits exactly
  the messages a reference splitter finds; the macros user space uses, which advance the pointer as an unsigned number,
  give the same messages; and so does the loop over attributes.
\<close>

theorem netlink_loops_correct:
  assumes "0 \<le> sint len" and "sint len \<le> int (length buf)"
  shows "(\<exists>vs. nlmsg_for_each_msg buf 0 len = Some vs \<and>
      map (msg_at buf) vs = tlv_split 16 msg_rl (take (nat (sint len)) buf) \<and>
      (\<forall>v \<in> set vs. 0 \<le> fst v \<and> fst v + int (length (msg_at buf v)) \<le> sint len)) \<and>
    (\<exists>vs. for_each (NLMSG_OK buf) (NLMSG_NEXT buf) 0 len = Some vs \<and>
      map (msg_at buf) vs = tlv_split 16 msg_rl (take (nat (sint len)) buf)) \<and>
    (\<exists>vs. nla_for_each_attr buf 0 len = Some vs \<and>
      map (attr_at buf) vs = tlv_split 4 attr_rl (take (nat (sint len)) buf) \<and>
      (\<forall>v \<in> set vs. 0 \<le> fst v \<and> fst v + int (length (attr_at buf v)) \<le> sint len))"
proof (intro conjI)
  have c: "chunk (nat 0) (nat (sint len)) buf = take (nat (sint len)) buf" by (simp add: chunk_def)
  show "\<exists>vs. nlmsg_for_each_msg buf 0 len = Some vs \<and>
      map (msg_at buf) vs = tlv_split 16 msg_rl (take (nat (sint len)) buf) \<and>
      (\<forall>v \<in> set vs. 0 \<le> fst v \<and> fst v + int (length (msg_at buf v)) \<le> sint len)"
    using msgs_visited [of 0 len buf] assms unfolding c by simp
  show "\<exists>vs. nla_for_each_attr buf 0 len = Some vs \<and>
      map (attr_at buf) vs = tlv_split 4 attr_rl (take (nat (sint len)) buf) \<and>
      (\<forall>v \<in> set vs. 0 \<le> fst v \<and> fst v + int (length (attr_at buf v)) \<le> sint len)"
    using attrs_visited [of 0 len buf] assms unfolding c by simp
  have "(\<lambda>(q, r). chunk (nat q) (msg_rl (chunk (nat q) 16 buf)) buf) = msg_at buf" by (auto simp: msg_at_def)
  then show "\<exists>vs. for_each (NLMSG_OK buf) (NLMSG_NEXT buf) 0 len = Some vs \<and>
      map (msg_at buf) vs = tlv_split 16 msg_rl (take (nat (sint len)) buf)"
    using uapi_msgs.visits_records [of 0 len buf] assms c by auto
qed

definition demo_msg :: "u32 \<Rightarrow> bytes \<Rightarrow> bytes" where
  "demo_msg seq payload = enc_nlmsghdr \<lparr>nlmsg_length = of_nat (16 + length payload), nlmsg_type = 16, nlmsg_flags = 2,
     nlmsg_seq = seq, nlmsg_pid = 0\<rparr> @ payload"

theorem netlink_loops_correct_witness:
  "\<exists>vs. nlmsg_for_each_msg (tlv_pad (demo_msg 1 [7]) @ demo_msg 2 [8, 9, 10]) 0 39 = Some vs \<and>
     map (msg_at (tlv_pad (demo_msg 1 [7]) @ demo_msg 2 [8, 9, 10])) vs = [demo_msg 1 [7], demo_msg 2 [8, 9, 10]]"
proof -
  let ?buf = "tlv_pad (demo_msg 1 [7]) @ demo_msg 2 [8, 9, 10]"
  have ok: "tlv_ok 16 msg_rl (demo_msg 1 [7])" "tlv_ok 16 msg_rl (demo_msg 2 [8, 9, 10])"
    by (simp_all add: demo_msg_def tlv_ok_msg)
  have len: "length ?buf = 39" by (simp add: demo_msg_def align4_def)
  have "tlv_split 16 msg_rl (take (nat (sint (39 :: i32))) ?buf) = [demo_msg 1 [7], demo_msg 2 [8, 9, 10]]"
    using ok len by (simp add: tlv_split_pad tlv_split_last)
  then show ?thesis using netlink_loops_correct [of 39 ?buf] len by auto
qed

end
