(* ===== verification/Netlink_Build.thy ===== *)
theory Netlink_Build
  imports Netlink
begin

text \<open>
  Building netlink messages with \<open>net/netlink.h\<close> and the linear socket buffers of \<open>linux/skbuff.h\<close>: starting and ending
  a message, putting attributes, nesting, and undoing.  A socket buffer is the memory from its data to its end, stale
  beyond the tail, with the length in use; pointers into it are offsets.  The functions that are only declared
  (\<open>nla_put\<close>, \<open>__nlmsg_put\<close>, \<open>skb_trim\<close>) are the record \<open>nl_core\<close>; what the kernel documents of them is the locale
  \<open>netlink_core\<close>, interpreted on a reference implementation.
\<close>

unbundle bit_operations_syntax

section \<open>Socket buffers\<close>

record sk_buff =
  skb_mem :: bytes
  skb_length :: nat

definition skb_bytes :: "sk_buff \<Rightarrow> bytes" where
  "skb_bytes skb = take (skb_length skb) (skb_mem skb)"

definition skb_ok :: "sk_buff \<Rightarrow> bool" where
  "skb_ok skb \<longleftrightarrow> skb_length skb \<le> length (skb_mem skb) \<and> length (skb_mem skb) < 2 ^ 31"

definition skb_tail_pointer :: "sk_buff \<Rightarrow> nat" where
  "skb_tail_pointer skb = skb_length skb"

definition skb_tailroom :: "sk_buff \<Rightarrow> i32" where
  "skb_tailroom skb = of_nat (length (skb_mem skb) - skb_length skb)"

definition skb_put_raw :: "sk_buff \<Rightarrow> u32 \<Rightarrow> nat \<times> sk_buff" where
  "skb_put_raw skb len = (skb_tail_pointer skb, skb\<lparr>skb_length := skb_length skb + unat len\<rparr>)"

record nl_core =
  nla_put :: "sk_buff \<Rightarrow> i32 \<Rightarrow> bytes \<Rightarrow> i32 \<times> sk_buff"
  nlmsg_put_raw :: "sk_buff \<Rightarrow> u32 \<Rightarrow> u32 \<Rightarrow> i32 \<Rightarrow> i32 \<Rightarrow> i32 \<Rightarrow> nat \<times> sk_buff"
  skb_trim :: "sk_buff \<Rightarrow> u32 \<Rightarrow> sk_buff"

section \<open>Messages\<close>

definition nlmsg_put :: "nl_core \<Rightarrow> sk_buff \<Rightarrow> u32 \<Rightarrow> u32 \<Rightarrow> i32 \<Rightarrow> i32 \<Rightarrow> i32 \<Rightarrow> nat option \<times> sk_buff" where
  "nlmsg_put core skb portid seq type payload flags =
     (if sint (skb_tailroom skb) < sint (nlmsg_total_size payload) then (None, skb)
      else let (nlh, skb') = nlmsg_put_raw core skb portid seq type payload flags in (Some nlh, skb'))"

definition nlmsg_append :: "sk_buff \<Rightarrow> u32 \<Rightarrow> nat option \<times> sk_buff" where
  "nlmsg_append skb sz =
     (if skb_tailroom skb < NLMSG_ALIGN sz then (None, skb)
      else let skb' = (if NLMSG_ALIGN sz - sz \<noteq> 0
                       then skb\<lparr>skb_mem := poke (skb_tail_pointer skb + unat sz)
                              (replicate (unat (NLMSG_ALIGN sz - sz)) 0) (skb_mem skb)\<rparr>
                       else skb);
               (p, skb'') = skb_put_raw skb' (NLMSG_ALIGN sz)
           in (Some p, skb''))"

definition nlmsg_end :: "sk_buff \<Rightarrow> nat \<Rightarrow> sk_buff" where
  "nlmsg_end skb nlh =
     skb\<lparr>skb_mem := poke nlh (le_store 4 (of_nat (skb_tail_pointer skb - nlh) :: u32)) (skb_mem skb)\<rparr>"

definition nlmsg_get_pos :: "sk_buff \<Rightarrow> nat" where
  "nlmsg_get_pos skb = skb_tail_pointer skb"

text \<open>
  A mark is an offset from \<open>skb->data\<close>, taken from the buffer before, so that the warning about one that lies before the
  data has no counterpart here.
\<close>

definition nlmsg_trim :: "nl_core \<Rightarrow> sk_buff \<Rightarrow> nat option \<Rightarrow> sk_buff" where
  "nlmsg_trim core skb mark = (case mark of Some m \<Rightarrow> skb_trim core skb (of_nat m) | None \<Rightarrow> skb)"

definition nlmsg_cancel :: "nl_core \<Rightarrow> sk_buff \<Rightarrow> nat \<Rightarrow> sk_buff" where
  "nlmsg_cancel core skb nlh = nlmsg_trim core skb (Some nlh)"

text \<open>
  Sending turns a positive result, the number of bytes or receivers, into success.  The control block of the buffer
  keeps the group a message is sent to; the first result is that group.
\<close>

definition nlmsg_multicast :: "(u32 \<Rightarrow> u32 \<Rightarrow> u32 \<Rightarrow> i32) \<Rightarrow> u32 \<Rightarrow> u32 \<Rightarrow> u32 \<Rightarrow> u32 \<times> i32" where
  "nlmsg_multicast netlink_broadcast portid grp flags =
     (let dst_group = grp; err = netlink_broadcast portid grp flags in (dst_group, if sint err > 0 then 0 else err))"

definition MSG_DONTWAIT :: i32 where "MSG_DONTWAIT = 0x40"

definition nlmsg_unicast :: "(u32 \<Rightarrow> i32 \<Rightarrow> i32) \<Rightarrow> u32 \<Rightarrow> i32" where
  "nlmsg_unicast netlink_unicast portid =
     (let err = netlink_unicast portid MSG_DONTWAIT in if sint err > 0 then 0 else err)"

definition nl_dump_check_consistent :: "u32 \<times> u32 \<Rightarrow> nlmsghdr \<Rightarrow> (u32 \<times> u32) \<times> nlmsghdr" where
  "nl_dump_check_consistent cb nlh =
     (case cb of (prev_seq, seq) \<Rightarrow>
       ((seq, seq), if prev_seq \<noteq> 0 \<and> seq \<noteq> prev_seq then nlh\<lparr>nlmsg_flags := nlmsg_flags nlh OR 0x10\<rparr> else nlh))"

section \<open>Attributes\<close>

definition nla_put_u8 :: "nl_core \<Rightarrow> sk_buff \<Rightarrow> i32 \<Rightarrow> u8 \<Rightarrow> i32 \<times> sk_buff" where
  "nla_put_u8 core skb attrtype value = nla_put core skb attrtype (le_store 1 value)"

definition nla_put_u16 :: "nl_core \<Rightarrow> sk_buff \<Rightarrow> i32 \<Rightarrow> u16 \<Rightarrow> i32 \<times> sk_buff" where
  "nla_put_u16 core skb attrtype value = nla_put core skb attrtype (le_store 2 value)"

definition nla_put_be16 :: "nl_core \<Rightarrow> sk_buff \<Rightarrow> i32 \<Rightarrow> u16 \<Rightarrow> i32 \<times> sk_buff" where
  "nla_put_be16 core skb attrtype value = nla_put core skb attrtype (le_store 2 value)"

definition nla_put_net16 :: "nl_core \<Rightarrow> sk_buff \<Rightarrow> i32 \<Rightarrow> u16 \<Rightarrow> i32 \<times> sk_buff" where
  "nla_put_net16 core skb attrtype value = nla_put_be16 core skb (attrtype OR NLA_F_NET_BYTEORDER) value"

definition nla_put_le16 :: "nl_core \<Rightarrow> sk_buff \<Rightarrow> i32 \<Rightarrow> u16 \<Rightarrow> i32 \<times> sk_buff" where
  "nla_put_le16 core skb attrtype value = nla_put core skb attrtype (le_store 2 value)"

definition nla_put_u32 :: "nl_core \<Rightarrow> sk_buff \<Rightarrow> i32 \<Rightarrow> u32 \<Rightarrow> i32 \<times> sk_buff" where
  "nla_put_u32 core skb attrtype value = nla_put core skb attrtype (le_store 4 value)"

definition nla_put_be32 :: "nl_core \<Rightarrow> sk_buff \<Rightarrow> i32 \<Rightarrow> u32 \<Rightarrow> i32 \<times> sk_buff" where
  "nla_put_be32 core skb attrtype value = nla_put core skb attrtype (le_store 4 value)"

definition nla_put_net32 :: "nl_core \<Rightarrow> sk_buff \<Rightarrow> i32 \<Rightarrow> u32 \<Rightarrow> i32 \<times> sk_buff" where
  "nla_put_net32 core skb attrtype value = nla_put_be32 core skb (attrtype OR NLA_F_NET_BYTEORDER) value"

definition nla_put_le32 :: "nl_core \<Rightarrow> sk_buff \<Rightarrow> i32 \<Rightarrow> u32 \<Rightarrow> i32 \<times> sk_buff" where
  "nla_put_le32 core skb attrtype value = nla_put core skb attrtype (le_store 4 value)"

definition nla_put_s8 :: "nl_core \<Rightarrow> sk_buff \<Rightarrow> i32 \<Rightarrow> u8 \<Rightarrow> i32 \<times> sk_buff" where
  "nla_put_s8 core skb attrtype value = nla_put core skb attrtype (le_store 1 value)"

definition nla_put_s16 :: "nl_core \<Rightarrow> sk_buff \<Rightarrow> i32 \<Rightarrow> u16 \<Rightarrow> i32 \<times> sk_buff" where
  "nla_put_s16 core skb attrtype value = nla_put core skb attrtype (le_store 2 value)"

definition nla_put_s32 :: "nl_core \<Rightarrow> sk_buff \<Rightarrow> i32 \<Rightarrow> i32 \<Rightarrow> i32 \<times> sk_buff" where
  "nla_put_s32 core skb attrtype value = nla_put core skb attrtype (le_store 4 value)"

definition nla_put_string :: "nl_core \<Rightarrow> sk_buff \<Rightarrow> i32 \<Rightarrow> string \<Rightarrow> i32 \<times> sk_buff" where
  "nla_put_string core skb attrtype str = nla_put core skb attrtype (map byte_of_char (c_str str @ [NUL]))"

definition nla_put_flag :: "nl_core \<Rightarrow> sk_buff \<Rightarrow> i32 \<Rightarrow> i32 \<times> sk_buff" where
  "nla_put_flag core skb attrtype = nla_put core skb attrtype []"

definition nla_put_in_addr :: "nl_core \<Rightarrow> sk_buff \<Rightarrow> i32 \<Rightarrow> u32 \<Rightarrow> i32 \<times> sk_buff" where
  "nla_put_in_addr core skb attrtype addr = nla_put_be32 core skb attrtype addr"

definition nla_put_in6_addr :: "nl_core \<Rightarrow> sk_buff \<Rightarrow> i32 \<Rightarrow> bytes \<Rightarrow> i32 \<times> sk_buff" where
  "nla_put_in6_addr core skb attrtype addr = nla_put core skb attrtype (take 16 addr)"

definition nla_put_bitfield32 :: "nl_core \<Rightarrow> sk_buff \<Rightarrow> i32 \<Rightarrow> u32 \<Rightarrow> u32 \<Rightarrow> i32 \<times> sk_buff" where
  "nla_put_bitfield32 core skb attrtype value selector =
     nla_put core skb attrtype (le_store 4 value @ le_store 4 selector)"

section \<open>Reading the value of an attribute\<close>

definition nla_load :: "nat \<Rightarrow> bytes \<Rightarrow> int \<Rightarrow> 'a::len word option" where
  "nla_load n buf nla = map_option le_word (read_at buf (nla_data nla) n)"

definition nla_get_u32 :: "bytes \<Rightarrow> int \<Rightarrow> u32 option" where "nla_get_u32 = nla_load 4"
definition nla_get_be32 :: "bytes \<Rightarrow> int \<Rightarrow> u32 option" where "nla_get_be32 = nla_load 4"
definition nla_get_le32 :: "bytes \<Rightarrow> int \<Rightarrow> u32 option" where "nla_get_le32 = nla_load 4"
definition nla_get_u16 :: "bytes \<Rightarrow> int \<Rightarrow> u16 option" where "nla_get_u16 = nla_load 2"
definition nla_get_be16 :: "bytes \<Rightarrow> int \<Rightarrow> u16 option" where "nla_get_be16 = nla_load 2"
definition nla_get_le16 :: "bytes \<Rightarrow> int \<Rightarrow> u16 option" where "nla_get_le16 = nla_load 2"
definition nla_get_u8 :: "bytes \<Rightarrow> int \<Rightarrow> u8 option" where "nla_get_u8 = nla_load 1"
definition nla_get_s32 :: "bytes \<Rightarrow> int \<Rightarrow> i32 option" where "nla_get_s32 = nla_load 4"
definition nla_get_s16 :: "bytes \<Rightarrow> int \<Rightarrow> u16 option" where "nla_get_s16 = nla_load 2"
definition nla_get_s8 :: "bytes \<Rightarrow> int \<Rightarrow> u8 option" where "nla_get_s8 = nla_load 1"
definition nla_get_in_addr :: "bytes \<Rightarrow> int \<Rightarrow> u32 option" where "nla_get_in_addr = nla_load 4"

definition nla_get_flag :: "int option \<Rightarrow> i32" where
  "nla_get_flag nla = (if nla \<noteq> None then 1 else 0)"

section \<open>Nested attributes\<close>

definition nla_nest_start_noflag :: "nl_core \<Rightarrow> sk_buff \<Rightarrow> i32 \<Rightarrow> nat option \<times> sk_buff" where
  "nla_nest_start_noflag core skb attrtype =
     (let start = skb_tail_pointer skb; (rc, skb') = nla_put core skb attrtype []
      in (if sint rc < 0 then None else Some start, skb'))"

definition nla_nest_start :: "nl_core \<Rightarrow> sk_buff \<Rightarrow> i32 \<Rightarrow> nat option \<times> sk_buff" where
  "nla_nest_start core skb attrtype = nla_nest_start_noflag core skb (attrtype OR NLA_F_NESTED)"

definition nla_nest_end :: "sk_buff \<Rightarrow> nat \<Rightarrow> i32 \<times> sk_buff" where
  "nla_nest_end skb start =
     (of_nat (skb_length skb),
      skb\<lparr>skb_mem := poke start (le_store 2 (of_nat (skb_tail_pointer skb - start) :: u16)) (skb_mem skb)\<rparr>)"

definition nla_nest_cancel :: "nl_core \<Rightarrow> sk_buff \<Rightarrow> nat option \<Rightarrow> sk_buff" where
  "nla_nest_cancel core skb start = nlmsg_trim core skb start"

section \<open>Appending\<close>

definition skb_append :: "sk_buff \<Rightarrow> bytes \<Rightarrow> sk_buff" where
  "skb_append skb bs = skb\<lparr>skb_mem := poke (skb_length skb) bs (skb_mem skb), skb_length := skb_length skb + length bs\<rparr>"

definition skb_room :: "sk_buff \<Rightarrow> nat" where
  "skb_room skb = length (skb_mem skb) - skb_length skb"

lemma skb_tailroom_nat: "skb_ok skb \<Longrightarrow> sint (skb_tailroom skb) = int (skb_room skb)"
proof -
  assume "skb_ok skb"
  then have "skb_room skb < 2 ^ 31" by (auto simp: skb_ok_def skb_room_def)
  then show ?thesis by (simp add: skb_tailroom_def flip: skb_room_def) (simp add: sint_cases unat_of_nat del: of_nat_unat)
qed

lemma skb_append:
  assumes "skb_ok skb" and "length bs \<le> skb_room skb"
  shows "skb_ok (skb_append skb bs)" and "skb_bytes (skb_append skb bs) = skb_bytes skb @ bs"
    and "skb_room (skb_append skb bs) = skb_room skb - length bs"
  using assms by (auto simp: skb_append_def skb_ok_def skb_room_def skb_bytes_def poke_def min_def)

lemma skb_bytes_poke:
  assumes "skb_ok skb" and "n + length bs \<le> skb_length skb"
  shows "skb_bytes (skb\<lparr>skb_mem := poke n bs (skb_mem skb)\<rparr>) = poke n bs (skb_bytes skb)"
  using assms by (cases "n = skb_length skb") (auto simp: skb_bytes_def skb_ok_def poke_def min_def take_drop)

lemma length_skb_bytes [simp]: "skb_ok skb \<Longrightarrow> length (skb_bytes skb) = skb_length skb"
  by (simp add: skb_bytes_def skb_ok_def)

lemma poke_append: "length bs \<le> length ys \<Longrightarrow> poke (length xs) bs (xs @ ys) = xs @ bs @ drop (length bs) ys"
  by (simp add: poke_def)

lemma align4_add: "4 dvd m \<Longrightarrow> align4 (m + n) = m + align4 n"
  by (auto simp: align4_def dvd_def add.assoc)

lemma NLMSG_HDRLEN_eq: "NLMSG_HDRLEN = 16"
  by (simp add: NLMSG_HDRLEN_def NLMSG_ALIGN_def NLMSG_ALIGNTO_def)

lemma NLA_HDRLEN_eq: "NLA_HDRLEN = 4"
  by (simp add: NLA_HDRLEN_def NLA_ALIGN_def NLA_ALIGNTO_def)

lemma nlmsg_sizes:
  assumes "unat payload + 20 < 2 ^ 31"
  shows "unat (nlmsg_msg_size payload) = 16 + unat payload"
    and "sint (nlmsg_total_size payload) = int (align4 (16 + unat payload))"
proof -
  show u: "unat (nlmsg_msg_size payload) = 16 + unat payload"
    using assms by (simp add: nlmsg_msg_size_def NLMSG_HDRLEN_eq unat_word_ariths)
  have "unat (nlmsg_total_size payload) = align4 (16 + unat payload)"
    unfolding nlmsg_total_size_def using unat_align(1) [of "nlmsg_msg_size payload"] u assms by simp
  moreover have "align4 (16 + unat payload) < 2 ^ 31" using align4_bounds(2) [of "16 + unat payload"] assms by linarith
  ultimately show "sint (nlmsg_total_size payload) = int (align4 (16 + unat payload))"
    by (simp add: sint_cases del: of_nat_unat)
qed

definition built_hdr :: "u32 \<Rightarrow> u32 \<Rightarrow> i32 \<Rightarrow> i32 \<Rightarrow> u32 \<Rightarrow> nlmsghdr" where
  "built_hdr portid seq type flags n =
     \<lparr>nlmsg_length = n, nlmsg_type = ucast type, nlmsg_flags = ucast flags, nlmsg_seq = seq, nlmsg_pid = portid\<rparr>"

section \<open>What the kernel documents of the declared functions\<close>

definition EMSGSIZE :: i32 where "EMSGSIZE = 90"

locale netlink_core =
  fixes core :: nl_core
  assumes put_ok: "skb_ok skb \<Longrightarrow> 4 + length d < 2 ^ 16 \<Longrightarrow> align4 (4 + length d) \<le> skb_room skb \<Longrightarrow>
      nla_put core skb t d = (0, skb_append skb (tlv_pad (enc_attr (ucast t) d)))"
    and put_full: "skb_ok skb \<Longrightarrow> 4 + length d < 2 ^ 16 \<Longrightarrow> skb_room skb < align4 (4 + length d) \<Longrightarrow>
      nla_put core skb t d = (- EMSGSIZE, skb)"
    and raw: "skb_ok skb \<Longrightarrow> align4 (16 + unat payload) \<le> skb_room skb \<Longrightarrow>
      \<exists>junk. length junk = unat payload \<and>
        nlmsg_put_raw core skb portid seq type payload flags = (skb_length skb, skb_append skb (tlv_pad (enc_nlmsghdr
          \<lparr>nlmsg_length = nlmsg_msg_size payload, nlmsg_type = ucast type, nlmsg_flags = ucast flags,
           nlmsg_seq = seq, nlmsg_pid = portid\<rparr> @ junk)))"
    and trim: "skb_trim core skb n = (if unat n < skb_length skb then skb\<lparr>skb_length := unat n\<rparr> else skb)"
begin

text \<open>Putting an attribute either appends one padded record or changes nothing.\<close>

lemma put_cases:
  assumes "skb_ok skb" and "4 + length d < 2 ^ 16"
  obtains (full) "nla_put core skb t d = (- EMSGSIZE, skb)" "skb_room skb < align4 (4 + length d)"
  | (appended) skb' where "nla_put core skb t d = (0, skb')" "skb_ok skb'"
      "skb_bytes skb' = skb_bytes skb @ tlv_pad (enc_attr (ucast t) d)"
proof (cases "align4 (4 + length d) \<le> skb_room skb")
  case True
  then show ?thesis using put_ok [OF assms True] skb_append [OF assms(1)] by (intro appended) auto
next
  case False
  then show ?thesis using put_full [OF assms] by (intro full) auto
qed

lemma nest_closed:
  assumes "skb_ok s0" and "nla_nest_start core s0 t = (Some start, s1)"
    and "skb_ok s2" and "skb_bytes s2 = skb_bytes s1 @ body" and "4 + length body < 2 ^ 16"
    and "nla_nest_end s2 start = (len, s3)"
  shows "start = length (skb_bytes s0)" and "skb_ok s3" and "sint len = int (length (skb_bytes s3))"
    and "skb_bytes s3 = skb_bytes s0 @ enc_attr (ucast (t OR NLA_F_NESTED)) body"
    and "\<exists>extra. extra \<noteq> [] \<and> skb_bytes s1 = skb_bytes s0 @ extra"
proof -
  let ?t = "ucast (t OR NLA_F_NESTED) :: u16"
  have empty: "4 + length ([] :: bytes) < 2 ^ 16" by simp
  have "start = skb_length s0 \<and> skb_ok s1 \<and> skb_bytes s1 = skb_bytes s0 @ tlv_pad (enc_attr ?t [])"
  proof (rule put_cases [OF assms(1) empty, of "t OR NLA_F_NESTED"])
    assume "nla_put core s0 (t OR NLA_F_NESTED) [] = (- EMSGSIZE, s0)"
    then show ?thesis using assms(2)
      by (simp add: nla_nest_start_def nla_nest_start_noflag_def EMSGSIZE_def Let_def)
  next
    fix s
    assume "nla_put core s0 (t OR NLA_F_NESTED) [] = (0, s)" "skb_ok s" "skb_bytes s = skb_bytes s0 @ tlv_pad (enc_attr ?t [])"
    then show ?thesis using assms(2)
      by (simp add: nla_nest_start_def nla_nest_start_noflag_def skb_tail_pointer_def Let_def)
  qed
  then have s1': "start = skb_length s0" "skb_ok s1" "skb_bytes s1 = skb_bytes s0 @ tlv_pad (enc_attr ?t [])" by auto
  then show start: "start = length (skb_bytes s0)" using assms(1) by simp
  show "\<exists>extra. extra \<noteq> [] \<and> skb_bytes s1 = skb_bytes s0 @ extra"
    using s1'(3) by (intro exI [of _ "tlv_pad (enc_attr ?t [])"]) (simp add: tlv_pad_def enc_attr_def le_store_def le_bytes_numeral)
  have s2: "skb_bytes s2 = skb_bytes s0 @ le_store 2 (4 :: u16) @ le_store 2 ?t @ body"
    using assms(4) s1' by (simp add: tlv_pad_def enc_attr_def align4_def)
  then have len2: "skb_length s2 = skb_length s0 + 4 + length body"
    using length_skb_bytes [OF assms(3)] length_skb_bytes [OF assms(1)] by simp
  have s3: "s3 = s2\<lparr>skb_mem := poke start (le_store 2 (of_nat (4 + length body) :: u16)) (skb_mem s2)\<rparr>"
    "len = of_nat (skb_length s2)"
    using assms(6) s1'(1) len2 by (auto simp: nla_nest_end_def skb_tail_pointer_def)
  show ok: "skb_ok s3" using assms(3) s1'(1) len2 by (simp add: s3 skb_ok_def length_poke)
  have "skb_bytes s3 = poke start (le_store 2 (of_nat (4 + length body) :: u16)) (skb_bytes s2)"
    using len2 s1'(1) unfolding s3(1) by (intro skb_bytes_poke assms(3)) simp
  then show "skb_bytes s3 = skb_bytes s0 @ enc_attr ?t body" unfolding s2 start
    by (simp add: poke_append enc_attr_def)
  have "skb_length s2 < 2 ^ 31" using assms(3) by (auto simp: skb_ok_def)
  moreover have "skb_length s3 = skb_length s2" by (simp add: s3)
  ultimately show "sint len = int (length (skb_bytes s3))"
    using ok by (simp add: s3(2) sint_cases unat_of_nat del: of_nat_unat)
qed

lemma message_closed:
  assumes "skb_ok s0" and "unat payload + 20 < 2 ^ 31"
    and "nlmsg_put core s0 portid seq type payload flags = (Some nlh, s1)"
    and "skb_ok s2" and "skb_bytes s2 = skb_bytes s1 @ body"
  shows "nlh = length (skb_bytes s0)" and "skb_ok (nlmsg_end s2 nlh)"
    and "\<exists>fam. length fam = align4 (unat payload) \<and> skb_bytes (nlmsg_end s2 nlh) = skb_bytes s0 @
      enc_nlmsghdr (built_hdr portid seq type flags (of_nat (16 + length fam + length body))) @ fam @ body"
    and "\<exists>extra. extra \<noteq> [] \<and> skb_bytes s1 = skb_bytes s0 @ extra"
proof -
  have room: "align4 (16 + unat payload) \<le> skb_room s0"
    using assms(3) skb_tailroom_nat [OF assms(1)] nlmsg_sizes(2) [OF assms(2)]
    by (simp add: nlmsg_put_def split: if_splits)
  obtain junk where junk: "length junk = unat payload"
    "nlmsg_put_raw core s0 portid seq type payload flags = (skb_length s0,
       skb_append s0 (tlv_pad (enc_nlmsghdr (built_hdr portid seq type flags (nlmsg_msg_size payload)) @ junk)))"
    using raw [OF assms(1) room, of portid seq type flags] unfolding built_hdr_def by blast
  let ?h = "\<lambda>n. built_hdr portid seq type flags n"
  define fam where "fam = junk @ replicate (align4 (unat payload) - unat payload) 0"
  have lf: "length fam = align4 (unat payload)" using align4_bounds(1) [of "unat payload"] by (simp add: fam_def junk)
  have "align4 (16 + unat payload) = 16 + align4 (unat payload)" by (rule align4_add) simp
  then have rec: "tlv_pad (enc_nlmsghdr (?h n) @ junk) = enc_nlmsghdr (?h n) @ fam" for n
    by (simp add: tlv_pad_def fam_def junk)
  have nlh: "nlh = skb_length s0" and "s1 = skb_append s0 (enc_nlmsghdr (?h (nlmsg_msg_size payload)) @ fam)"
    using assms(3) junk(2) rec by (auto simp: nlmsg_put_def split: if_splits)
  then have "skb_bytes s1 = skb_bytes s0 @ enc_nlmsghdr (?h (nlmsg_msg_size payload)) @ fam"
    using skb_append(2) [OF assms(1)] room lf \<open>align4 (16 + unat payload) = 16 + align4 (unat payload)\<close> by simp
  moreover from this show "\<exists>extra. extra \<noteq> [] \<and> skb_bytes s1 = skb_bytes s0 @ extra"
    by (intro exI [of _ "enc_nlmsghdr (?h (nlmsg_msg_size payload)) @ fam"]) (auto dest: arg_cong [where f = length])
  ultimately have s2: "skb_bytes s2 = skb_bytes s0 @ enc_nlmsghdr (?h (nlmsg_msg_size payload)) @ fam @ body" using assms(5) by simp
  then have len2: "skb_length s2 = skb_length s0 + (16 + length fam + length body)"
    using length_skb_bytes [OF assms(4)] length_skb_bytes [OF assms(1)] by simp
  show n: "nlh = length (skb_bytes s0)" using nlh assms(1) by simp
  show "skb_ok (nlmsg_end s2 nlh)" using assms(4) nlh len2 by (simp add: nlmsg_end_def skb_ok_def length_poke)
  let ?w = "of_nat (16 + length fam + length body) :: u32"
  have "skb_bytes (nlmsg_end s2 nlh) = poke nlh (le_store 4 ?w) (skb_bytes s2)"
    using skb_bytes_poke [OF assms(4), of nlh "le_store 4 ?w"] nlh len2
    by (simp add: nlmsg_end_def skb_tail_pointer_def del: of_nat_add)
  also have "\<dots> = skb_bytes s0 @ enc_nlmsghdr (?h ?w) @ fam @ body"
    unfolding s2 n by (simp add: poke_append enc_nlmsghdr_def built_hdr_def del: of_nat_add)
  finally show "\<exists>fam. length fam = align4 (unat payload) \<and> skb_bytes (nlmsg_end s2 nlh) = skb_bytes s0 @
      enc_nlmsghdr (built_hdr portid seq type flags (of_nat (16 + length fam + length body))) @ fam @ body"
    using lf by blast
qed

lemma cancel_restores:
  assumes "skb_ok s0" and "skb_ok s2" and "skb_bytes s2 = skb_bytes s0 @ extra" and "extra \<noteq> []"
  shows "skb_bytes (nlmsg_trim core s2 (Some (length (skb_bytes s0)))) = skb_bytes s0"
proof -
  have "0 < length extra" using assms(4) by simp
  then have "skb_length s0 < skb_length s2"
    using length_skb_bytes [OF assms(2)] length_skb_bytes [OF assms(1)] by (simp add: assms(3) del: length_skb_bytes length_greater_0_conv)
  moreover have "skb_length s0 < 2 ^ 31" using assms(1) by (simp add: skb_ok_def)
  moreover have "take (skb_length s0) (skb_bytes s2) = skb_bytes s0" using assms(1) by (simp add: assms(3))
  ultimately show ?thesis using assms(1) by (simp add: nlmsg_trim_def trim unat_of_nat) (simp add: skb_bytes_def min_def)
qed

end

section \<open>A reference implementation\<close>

definition ref_core :: nl_core where
  "ref_core = \<lparr>
     nla_put = (\<lambda>skb t d. if skb_room skb < align4 (4 + length d) then (- EMSGSIZE, skb)
                          else (0, skb_append skb (tlv_pad (enc_attr (ucast t) d)))),
     nlmsg_put_raw = (\<lambda>skb portid seq type payload flags. (skb_length skb, skb_append skb (tlv_pad
       (enc_nlmsghdr (built_hdr portid seq type flags (nlmsg_msg_size payload)) @ replicate (unat payload) 0)))),
     skb_trim = (\<lambda>skb n. if unat n < skb_length skb then skb\<lparr>skb_length := unat n\<rparr> else skb)\<rparr>"

interpretation ref_core: netlink_core ref_core
proof
  fix skb :: sk_buff and payload type flags :: i32 and portid seq :: u32
  show "\<exists>junk. length junk = unat payload \<and>
      nlmsg_put_raw ref_core skb portid seq type payload flags = (skb_length skb, skb_append skb (tlv_pad (enc_nlmsghdr
        \<lparr>nlmsg_length = nlmsg_msg_size payload, nlmsg_type = ucast type, nlmsg_flags = ucast flags,
         nlmsg_seq = seq, nlmsg_pid = portid\<rparr> @ junk)))"
    by (intro exI [of _ "replicate (unat payload) 0"]) (simp add: ref_core_def built_hdr_def)
qed (auto simp: ref_core_def)

section \<open>Reading what was built\<close>

lemma chunk_mid: "length ys = n \<Longrightarrow> chunk (length xs) n (xs @ ys @ zs) = ys"
  by (simp add: chunk_def)

lemma enc_attr_split: "enc_attr t d = take 4 (enc_attr t d) @ d"
  by (simp add: enc_attr_def)

text \<open>The attributes after a position are visited one by one.\<close>

lemma attrs_of_body:
  assumes "\<forall>b \<in> set items. tlv_ok 4 attr_rl b" and "length (pre @ concat (map tlv_pad items)) < 2 ^ 31"
  shows "\<exists>vs. nla_for_each_attr (pre @ concat (map tlv_pad items)) (int (length pre))
      (of_nat (length (concat (map tlv_pad items)))) = Some vs \<and>
    map (attr_at (pre @ concat (map tlv_pad items))) vs = items"
proof -
  let ?body = "concat (map tlv_pad items)"
  let ?len = "of_nat (length ?body) :: i32"
  have s: "sint ?len = int (length ?body)" using assms(2) by (simp add: sint_cases unat_of_nat del: of_nat_unat)
  have "chunk (length pre) (length ?body) (pre @ ?body) = ?body" by (simp add: chunk_def)
  then show ?thesis
    using attrs_visited [of "int (length pre)" ?len "pre @ ?body"] s tlv_split_encoded [OF assms(1)]
    by (simp del: length_concat) blast
qed

lemma load_at_end:
  assumes "skb_bytes skb' = skb_bytes skb @ tlv_pad (enc_attr t d)"
  shows "load_nlattr (skb_bytes skb') (int (length (skb_bytes skb))) = Some \<lparr>nla_length = of_nat (4 + length d), nla_kind = t\<rparr>"
    and "read_at (skb_bytes skb') (nla_data (int (length (skb_bytes skb)))) (length d) = Some d"
proof -
  let ?pre = "skb_bytes skb" and ?z = "replicate (align4 (4 + length d) - (4 + length d)) 0"
  have s: "skb_bytes skb' = ?pre @ take 4 (enc_attr t d) @ d @ ?z"
    using assms enc_attr_split [of t d] by (simp add: tlv_pad_def)
  show "load_nlattr (skb_bytes skb') (int (length ?pre)) = Some \<lparr>nla_length = of_nat (4 + length d), nla_kind = t\<rparr>"
    by (rule load_enc_attr) (simp_all add: s chunk_mid)
  have "chunk (length ?pre + 4) (length d) (skb_bytes skb') = d"
    using chunk_mid [of d "length d" "?pre @ take 4 (enc_attr t d)" ?z] by (simp add: s)
  then show "read_at (skb_bytes skb') (nla_data (int (length ?pre))) (length d) = Some d"
    by (simp add: read_at_def nla_data_def NLA_HDRLEN_eq nat_add_distrib s)
qed

lemma nla_load_at_end:
  assumes "netlink_core core" and "skb_ok skb" and "nla_put core skb t (le_store n (v :: 'a::len word)) = (0, skb')"
    and "LENGTH('a) \<le> 8 * n" and "n \<le> 8"
  shows "nla_load n (skb_bytes skb') (int (length (skb_bytes skb))) = Some v"
proof -
  have "4 + length (le_store n v) < 2 ^ 16" using assms(5) by simp
  from netlink_core.put_cases [OF assms(1,2) this, of t]
  have "skb_bytes skb' = skb_bytes skb @ tlv_pad (enc_attr (ucast t) (le_store n v))"
    using assms(3) by cases (auto simp: EMSGSIZE_def)
  from load_at_end(2) [OF this] show ?thesis using assms(4) by (simp add: nla_load_def le_word_store)
qed

text \<open>The attributes of a message start behind its padded family header.\<close>

lemma attrs_behind_header:
  assumes buf: "buf = pre @ enc_nlmsghdr h @ fam @ concat (map tlv_pad items)" "length buf < 2 ^ 31"
    and h: "nlmsg_length h = of_nat (16 + length fam + length (concat (map tlv_pad items)))"
    and fam: "length fam = align4 (unat payload)" "unat payload + 20 < 2 ^ 31"
    and items: "\<forall>b \<in> set items. tlv_ok 4 attr_rl b"
  shows "\<exists>ws. nlmsg_for_each_attr buf (int (length pre)) payload = Some ws \<and> map (attr_at buf) ws = items"
proof -
  let ?pre = "pre @ enc_nlmsghdr h @ fam" and ?body = "concat (map tlv_pad items)"
  have u: "unat (NLMSG_ALIGN payload) = length fam" using unat_align(1) [of payload] fam by simp
  then have al: "NLMSG_ALIGN payload = of_nat (length fam)" "uint (NLMSG_ALIGN payload) = int (length fam)"
    by (metis of_nat_unat ucast_id) (simp add: uint_unat u del: of_nat_unat)
  have "nlmsg_attrdata (int (length pre)) payload = int (length ?pre)"
    by (simp add: nlmsg_attrdata_def nlmsg_data_def NLMSG_HDRLEN_eq al(2))
  moreover have "nlmsg_attrlen h payload = of_nat (length ?body)"
    by (simp add: nlmsg_attrlen_def nlmsg_len_def NLMSG_HDRLEN_eq al(1) h)
  moreover have "load_nlmsghdr buf (int (length pre)) = Some h"
    by (rule load_enc_nlmsghdr) (simp_all add: buf(1) chunk_mid)
  ultimately show ?thesis
    using attrs_of_body [OF items, of ?pre] buf(2) by (simp add: nlmsg_for_each_attr_def buf(1))
qed

section \<open>Properties\<close>

text \<open>
  (C39) Messages.  A message that is started, filled with any attributes and ended in a socket buffer that already holds
  other messages is found again: the loop over messages visits the old ones and this one, its header has the type, flags,
  sequence number and port it was given, and the loop over its attributes, behind the family header, visits exactly the
  attributes put into it.  Cancelling instead gives the buffer back as it was.
\<close>

theorem netlink_message_read_back:
  assumes core: "netlink_core core" and s0: "skb_ok s0" "skb_bytes s0 = concat (map tlv_pad old)"
    and old: "\<forall>m \<in> set old. tlv_ok 16 msg_rl m"
    and payload: "unat payload + 20 < 2 ^ 31"
    and put: "nlmsg_put core s0 portid seq type payload flags = (Some nlh, s1)"
    and s2: "skb_ok s2" "skb_bytes s2 = skb_bytes s1 @ concat (map tlv_pad items)"
    and items: "\<forall>b \<in> set items. tlv_ok 4 attr_rl b"
    and buf: "buf = skb_bytes (nlmsg_end s2 nlh)"
  shows "(\<exists>vs. nlmsg_for_each_msg buf 0 (of_nat (length buf)) = Some vs \<and>
      map (msg_at buf) vs = old @ [drop nlh buf]) \<and>
    load_nlmsghdr buf (int nlh) = Some (built_hdr portid seq type flags (of_nat (length buf - nlh))) \<and>
    (\<exists>ws. nlmsg_for_each_attr buf (int nlh) payload = Some ws \<and> map (attr_at buf) ws = items) \<and>
    skb_bytes (nlmsg_cancel core s2 nlh) = skb_bytes s0"
proof -
  let ?body = "concat (map tlv_pad items)" and ?h = "built_hdr portid seq type flags"
  note closed = netlink_core.message_closed [OF core s0(1) payload put s2]
  obtain fam where fam: "length fam = align4 (unat payload)"
    "buf = skb_bytes s0 @ enc_nlmsghdr (?h (of_nat (16 + length fam + length ?body))) @ fam @ ?body"
    using closed(3) buf by auto
  have nlh: "nlh = length (skb_bytes s0)" by (rule closed(1))
  define n where "n = 16 + length fam + length ?body"
  have lb: "length buf = nlh + n" using fam(2) nlh by (simp add: n_def)
  moreover have "length buf < 2 ^ 31" using closed(2) buf by (auto simp: skb_ok_def)
  ultimately have small: "length buf < 2 ^ 31" "n < 2 ^ 31" by auto
  let ?msg = "enc_nlmsghdr (?h (of_nat n)) @ fam @ ?body"
  have b: "buf = skb_bytes s0 @ ?msg" unfolding n_def by (rule fam(2))
  have un: "unat (of_nat n :: u32) = n" using small by (simp add: unat_of_nat)
  have msg: "tlv_ok 16 msg_rl ?msg"
    by (rule tlv_ok_msg) (simp only: built_hdr_def nlmsghdr.simps un, simp add: n_def)
  have sl: "sint (of_nat (length buf) :: i32) = int (length buf)" using small by (simp add: sint_cases unat_of_nat del: of_nat_unat)
  have "tlv_split 16 msg_rl (concat (map tlv_pad xs) @ ?msg) = xs @ [?msg]" if "\<forall>m \<in> set xs. tlv_ok 16 msg_rl m" for xs
    using that by (induction xs) (simp_all add: tlv_split_pad tlv_split_last [OF msg])
  then have "tlv_split 16 msg_rl buf = old @ [drop nlh buf]" using old unfolding nlh by (simp add: b s0(2))
  then have 1: "\<exists>vs. nlmsg_for_each_msg buf 0 (of_nat (length buf)) = Some vs \<and> map (msg_at buf) vs = old @ [drop nlh buf]"
    using msgs_visited [of 0 "of_nat (length buf)" buf] sl by auto
  have 2: "load_nlmsghdr buf (int nlh) = Some (?h (of_nat (length buf - nlh)))"
    using lb nlh by (intro load_enc_nlmsghdr) (simp_all add: b chunk_mid n_def add.assoc)
  obtain extra where "extra \<noteq> []" "skb_bytes s1 = skb_bytes s0 @ extra" using closed(4) by blast
  then have 3: "skb_bytes (nlmsg_cancel core s2 nlh) = skb_bytes s0"
    using netlink_core.cancel_restores [OF core s0(1) s2(1), of "extra @ ?body"] s2(2) by (simp add: nlmsg_cancel_def nlh)
  have 4: "\<exists>ws. nlmsg_for_each_attr buf (int nlh) payload = Some ws \<and> map (attr_at buf) ws = items"
    unfolding nlh
    by (rule attrs_behind_header [OF b small(1) _ fam(1) payload items]) (simp add: built_hdr_def n_def)
  show ?thesis using 1 2 3 4 by blast
qed

text \<open>
  Nesting.  Attributes put between the start and the end of a nest, up to the 64 kilobytes the length of an
  attribute can express, are exactly what the loop over the nest visits; the nest itself is an attribute of the enclosing
  level, marked as nested; cancelling it gives the buffer back as it was.
\<close>

theorem nested_attributes_read_back:
  assumes core: "netlink_core core" and s0: "skb_ok s0"
    and start: "nla_nest_start core s0 t = (Some start, s1)"
    and s2: "skb_ok s2" "skb_bytes s2 = skb_bytes s1 @ concat (map tlv_pad items)"
    and items: "\<forall>b \<in> set items. tlv_ok 4 attr_rl b" "4 + length (concat (map tlv_pad items)) < 2 ^ 16"
    and nest_end: "nla_nest_end s2 start = (len, s3)"
  shows "(\<exists>vs. nla_for_each_nested (skb_bytes s3) (int start) = Some vs \<and> map (attr_at (skb_bytes s3)) vs = items) \<and>
    skb_bytes s3 = skb_bytes s0 @ tlv_pad (enc_attr (ucast (t OR NLA_F_NESTED)) (concat (map tlv_pad items))) \<and>
    sint len = int (length (skb_bytes s3)) \<and>
    skb_bytes (nla_nest_cancel core s2 (Some start)) = skb_bytes s0"
proof -
  let ?body = "concat (map tlv_pad items)" and ?t = "ucast (t OR NLA_F_NESTED) :: u16"
  note closed = netlink_core.nest_closed [OF core s0 start s2 items(2) nest_end]
  have "4 dvd length ?body" by (induction items) (simp_all add: align4_bounds(3))
  then have "tlv_pad (enc_attr ?t ?body) = enc_attr ?t ?body" by (simp add: tlv_pad_def align4_id)
  then have s3: "skb_bytes s3 = skb_bytes s0 @ tlv_pad (enc_attr ?t ?body)" using closed(4) by simp
  let ?a = "\<lparr>nla_length = of_nat (4 + length ?body), nla_kind = ?t\<rparr>"
  have "nla_len ?a = of_nat (length ?body)"
  proof -
    have "unat (of_nat (4 + length ?body) :: u16) = 4 + length ?body"
      using items(2) by (simp add: unat_of_nat del: of_nat_add length_concat)
    then have "ucast (of_nat (4 + length ?body) :: u16) = (of_nat (4 + length ?body) :: i32)" by (metis of_nat_unat)
    then show ?thesis by (simp add: nla_len_def NLA_HDRLEN_eq)
  qed
  moreover have "nla_data (int start) = int (length (skb_bytes s0 @ take 4 (enc_attr ?t ?body)))"
    by (simp add: nla_data_def NLA_HDRLEN_eq closed(1))
  moreover have "skb_bytes s3 = (skb_bytes s0 @ take 4 (enc_attr ?t ?body)) @ ?body"
    using closed(4) enc_attr_split [of ?t ?body] by simp
  moreover have "length (skb_bytes s3) < 2 ^ 31" using closed(2) by (auto simp: skb_ok_def)
  ultimately have "\<exists>vs. nla_for_each_nested (skb_bytes s3) (int start) = Some vs \<and> map (attr_at (skb_bytes s3)) vs = items"
    using attrs_of_body [OF items(1), of "skb_bytes s0 @ take 4 (enc_attr ?t ?body)"] load_at_end(1) [OF s3]
    by (simp add: nla_for_each_nested_def closed(1))
  moreover obtain extra where "extra \<noteq> []" "skb_bytes s1 = skb_bytes s0 @ extra" using closed(5) by blast
  then have "skb_bytes (nla_nest_cancel core s2 (Some start)) = skb_bytes s0"
    using netlink_core.cancel_restores [OF core s0 s2(1), of "extra @ ?body"] s2(2)
    by (simp add: nla_nest_cancel_def closed(1))
  ultimately show ?thesis using s3 closed(3) by blast
qed

text \<open>
  Values.  A number put as an attribute is read back by the reader of its type, for each width, sign and byte order;
  when there is no room the result is \<open>-EMSGSIZE\<close> and the buffer is unchanged.
\<close>

theorem attribute_values_read_back:
  assumes core: "netlink_core core" and skb: "skb_ok skb" and pos: "pos = int (length (skb_bytes skb))"
  shows "(nla_put_u8 core skb t b = (0, s) \<longrightarrow> nla_get_u8 (skb_bytes s) pos = Some b) \<and>
    (nla_put_u16 core skb t h = (0, s) \<longrightarrow> nla_get_u16 (skb_bytes s) pos = Some h) \<and>
    (nla_put_net16 core skb t h = (0, s) \<longrightarrow> nla_get_be16 (skb_bytes s) pos = Some h) \<and>
    (nla_put_le16 core skb t h = (0, s) \<longrightarrow> nla_get_le16 (skb_bytes s) pos = Some h) \<and>
    (nla_put_u32 core skb t w = (0, s) \<longrightarrow> nla_get_u32 (skb_bytes s) pos = Some w) \<and>
    (nla_put_net32 core skb t w = (0, s) \<longrightarrow> nla_get_be32 (skb_bytes s) pos = Some w) \<and>
    (nla_put_le32 core skb t w = (0, s) \<longrightarrow> nla_get_le32 (skb_bytes s) pos = Some w) \<and>
    (nla_put_in_addr core skb t w = (0, s) \<longrightarrow> nla_get_in_addr (skb_bytes s) pos = Some w) \<and>
    (nla_put_s8 core skb t b = (0, s) \<longrightarrow> nla_get_s8 (skb_bytes s) pos = Some b) \<and>
    (nla_put_s16 core skb t h = (0, s) \<longrightarrow> nla_get_s16 (skb_bytes s) pos = Some h) \<and>
    (nla_put_s32 core skb t w = (0, s) \<longrightarrow> nla_get_s32 (skb_bytes s) pos = Some w) \<and>
    (skb_room skb < 8 \<longrightarrow> nla_put_u32 core skb t w = (- EMSGSIZE, skb))"
  using nla_load_at_end [OF core skb, where n = 1 and v = b] nla_load_at_end [OF core skb, where n = 2 and v = h]
    nla_load_at_end [OF core skb, where n = 4 and v = w] netlink_core.put_full [OF core skb]
  by (simp add: pos nla_put_u8_def nla_get_u8_def nla_put_u16_def nla_get_u16_def nla_put_net16_def nla_put_be16_def
      nla_get_be16_def nla_put_le16_def nla_get_le16_def nla_put_u32_def nla_get_u32_def nla_put_net32_def nla_put_be32_def
      nla_get_be32_def nla_put_le32_def nla_get_le32_def nla_put_in_addr_def nla_get_in_addr_def nla_put_s8_def
      nla_get_s8_def nla_put_s16_def nla_get_s16_def nla_put_s32_def nla_get_s32_def align4_def)

text \<open>
  The length of a nest is stored in 16 bits without a check: a nest of 64 kilobytes or more is given its length modulo
  \<open>2 ^ 16\<close>, so its reader sees a part of it only.
\<close>

theorem nest_end_truncates:
  assumes "skb_ok s2" and "start + 4 \<le> skb_length s2" and "nla_nest_end s2 start = (len, s3)"
  shows "\<exists>a. load_nlattr (skb_bytes s3) (int start) = Some a \<and> unat (nla_length a) = (skb_length s2 - start) mod 2 ^ 16"
proof -
  let ?w = "le_store 2 (of_nat (skb_length s2 - start) :: u16)"
  have "s3 = s2\<lparr>skb_mem := poke start ?w (skb_mem s2)\<rparr>"
    using assms(3) by (simp add: nla_nest_end_def skb_tail_pointer_def)
  then have s3: "skb_bytes s3 = poke start ?w (skb_bytes s2)" using skb_bytes_poke [OF assms(1), of start ?w] assms(2) by simp
  have "chunk 0 2 (chunk start 4 (skb_bytes s3)) = chunk start 2 (skb_bytes s3)" by (simp add: chunk_def)
  also have "\<dots> = ?w" unfolding s3 using assms by (intro chunk_poke_same) simp_all
  finally have "attr_rl (chunk start 4 (skb_bytes s3)) = (skb_length s2 - start) mod 2 ^ 16"
    by (simp add: attr_rl_def le_simps unat_of_nat)
  moreover have "length (skb_bytes s3) = skb_length s2" using assms by (simp add: s3 length_poke)
  then have "int start + 4 \<le> int (length (skb_bytes s3))" using assms(2) by linarith
  ultimately show ?thesis using load_nlattr_room [of "int start" "skb_bytes s3"] by auto
qed

text \<open>Room appended to a message keeps what was there, and its padding is cleared.\<close>

lemma nlmsg_append_room:
  assumes "skb_ok skb" and "unat sz + 3 < 2 ^ 31" and "nlmsg_append skb sz = (Some p, skb')"
  shows "p = length (skb_bytes skb)" and "skb_ok skb'"
    and "\<exists>junk. length junk = unat sz \<and> skb_bytes skb' = skb_bytes skb @ junk @ replicate (align4 (unat sz) - unat sz) 0"
proof -
  have al: "unat (NLMSG_ALIGN sz) = align4 (unat sz)" using unat_align(1) [of sz] assms(2) by simp
  then have pad: "unat (NLMSG_ALIGN sz - sz) = align4 (unat sz) - unat sz"
    using align4_bounds(1) [of "unat sz"] by (simp add: unat_sub_if_size)
  have "skb_tailroom skb = of_nat (skb_room skb)" by (simp add: skb_tailroom_def skb_room_def)
  moreover have "skb_room skb < 2 ^ 31" using assms(1) by (auto simp: skb_ok_def skb_room_def)
  ultimately have room: "align4 (unat sz) \<le> skb_room skb"
    using assms(3) al by (simp add: nlmsg_append_def word_less_nat_alt unat_of_nat split: if_splits)
  let ?z = "replicate (align4 (unat sz) - unat sz) 0 :: bytes"
  have "poke (skb_length skb + unat sz) [] mem = mem" for mem :: bytes by (simp add: poke_def)
  then have s': "p = skb_length skb" "skb' = skb\<lparr>skb_mem := poke (skb_length skb + unat sz) ?z (skb_mem skb),
      skb_length := skb_length skb + align4 (unat sz)\<rparr>"
    using assms(3) al pad room
    by (auto simp: nlmsg_append_def skb_put_raw_def skb_tail_pointer_def Let_def unat_eq_zero split: if_splits)
  show "p = length (skb_bytes skb)" using s'(1) assms(1) by simp
  have fits: "skb_length skb + align4 (unat sz) \<le> length (skb_mem skb)" using room assms(1) unfolding skb_ok_def skb_room_def by linarith
  then show "skb_ok skb'" using assms(1) align4_bounds(1) [of "unat sz"] by (simp add: s' skb_ok_def length_poke)
  let ?front = "take (skb_length skb + unat sz) (skb_mem skb) @ ?z"
  have "length ?front = skb_length skb + align4 (unat sz)" using fits align4_bounds(1) [of "unat sz"] by simp
  moreover have "skb_bytes skb' = take (skb_length skb + align4 (unat sz))
      (?front @ drop (skb_length skb + unat sz + length ?z) (skb_mem skb))"
    unfolding s' skb_bytes_def poke_def by (simp del: take_append)
  ultimately have "skb_bytes skb' = ?front" by (metis append_eq_conv_conj)
  then have "skb_bytes skb' = skb_bytes skb @ chunk (skb_length skb) (unat sz) (skb_mem skb) @ ?z"
    by (simp add: skb_bytes_def chunk_def take_add)
  then show "\<exists>junk. length junk = unat sz \<and> skb_bytes skb' = skb_bytes skb @ junk @ ?z"
    using fits align4_bounds(1) [of "unat sz"] by (intro exI [of _ "chunk (skb_length skb) (unat sz) (skb_mem skb)"]) simp
qed

section \<open>A small message\<close>

definition demo_skb :: sk_buff where
  "demo_skb = \<lparr>skb_mem = replicate 128 0xAA, skb_length = 0\<rparr>"

definition demo_started :: sk_buff where
  "demo_started = snd (nlmsg_put ref_core demo_skb 7 1 16 4 1)"

lemma demo_skb_ok: "skb_ok demo_skb" "skb_room demo_skb = 128" "skb_bytes demo_skb = []"
  by (simp_all add: demo_skb_def skb_ok_def skb_room_def skb_bytes_def)

lemma demo_put: "nlmsg_put ref_core demo_skb 7 1 16 4 1 = (Some 0, demo_started)"
proof -
  have "\<not> sint (skb_tailroom demo_skb) < sint (nlmsg_total_size 4)"
    using skb_tailroom_nat [OF demo_skb_ok(1)] nlmsg_sizes(2) [of 4] by (simp add: demo_skb_ok align4_def)
  then show ?thesis unfolding demo_started_def nlmsg_put_def by (simp add: ref_core_def demo_skb_def)
qed

lemma demo_started_ok: "skb_ok demo_started" "skb_room demo_started = 108" "length (skb_bytes demo_started) = 20"
proof -
  have "\<not> sint (skb_tailroom demo_skb) < sint (nlmsg_total_size 4)"
    using skb_tailroom_nat [OF demo_skb_ok(1)] nlmsg_sizes(2) [of 4] by (simp add: demo_skb_ok align4_def)
  then have d: "demo_started = skb_append demo_skb
      (tlv_pad (enc_nlmsghdr (built_hdr 7 1 16 1 (nlmsg_msg_size 4)) @ replicate 4 0))"
    unfolding demo_started_def nlmsg_put_def by (simp add: ref_core_def)
  then show "skb_ok demo_started" "skb_room demo_started = 108" "length (skb_bytes demo_started) = 20"
    unfolding d by (simp_all add: skb_append demo_skb_ok align4_def del: length_skb_bytes)
qed

theorem netlink_message_read_back_witness:
  "\<exists>s2 ws. nla_put_u32 ref_core demo_started 3 99 = (0, s2) \<and>
     nlmsg_for_each_attr (skb_bytes (nlmsg_end s2 0)) 0 4 = Some ws \<and>
     map (attr_at (skb_bytes (nlmsg_end s2 0))) ws = [enc_attr 3 (le_store 4 (99 :: u32))]"
proof -
  let ?a = "enc_attr 3 (le_store 4 (99 :: u32))"
  let ?s2 = "skb_append demo_started (tlv_pad ?a)"
  have put: "nla_put_u32 ref_core demo_started 3 99 = (0, ?s2)"
    by (simp add: nla_put_u32_def ref_core_def demo_started_ok align4_def)
  have s2: "skb_ok ?s2" "skb_bytes ?s2 = skb_bytes demo_started @ concat (map tlv_pad [?a])"
    using skb_append [OF demo_started_ok(1), of "tlv_pad ?a"] by (simp_all add: demo_started_ok align4_def)
  have "\<exists>ws. nlmsg_for_each_attr (skb_bytes (nlmsg_end ?s2 0)) (int 0) 4 = Some ws \<and>
      map (attr_at (skb_bytes (nlmsg_end ?s2 0))) ws = [?a]"
    using netlink_message_read_back [OF ref_core.netlink_core_axioms demo_skb_ok(1), of "[]" 4 7 1 16 1 0 demo_started ?s2 "[?a]"]
      demo_put s2 by (simp add: demo_skb_ok tlv_ok_attr)
  then show ?thesis using put by auto
qed

theorem nested_attributes_read_back_witness:
  "\<exists>start s1 s2 vs. nla_nest_start ref_core demo_started 5 = (Some start, s1) \<and> nla_put_flag ref_core s1 9 = (0, s2) \<and>
     nla_for_each_nested (skb_bytes (snd (nla_nest_end s2 start))) (int start) = Some vs \<and>
     map (attr_at (skb_bytes (snd (nla_nest_end s2 start)))) vs = [enc_attr 9 []]"
proof -
  let ?s1 = "skb_append demo_started (tlv_pad (enc_attr (ucast (5 OR NLA_F_NESTED)) []))" and ?start = "skb_length demo_started"
  let ?s2 = "skb_append ?s1 (tlv_pad (enc_attr 9 []))"
  have start: "nla_nest_start ref_core demo_started 5 = (Some ?start, ?s1)"
    by (simp add: nla_nest_start_def nla_nest_start_noflag_def ref_core_def demo_started_ok align4_def skb_tail_pointer_def)
  have s1: "skb_ok ?s1" "skb_room ?s1 = 104"
    by (simp_all add: skb_append demo_started_ok align4_def)
  have flag: "nla_put_flag ref_core ?s1 9 = (0, ?s2)"
    by (simp add: nla_put_flag_def ref_core_def s1 align4_def)
  have s2: "skb_ok ?s2" "skb_bytes ?s2 = skb_bytes ?s1 @ concat (map tlv_pad [enc_attr 9 []])"
    using skb_append [OF s1(1), of "tlv_pad (enc_attr 9 [])"] by (simp_all add: s1 align4_def)
  obtain len s3 where e: "nla_nest_end ?s2 ?start = (len, s3)" by (cases "nla_nest_end ?s2 ?start")
  have "\<forall>b \<in> set [enc_attr 9 []]. tlv_ok 4 attr_rl b" "4 + length (concat (map tlv_pad [enc_attr 9 []])) < 2 ^ 16"
    by (simp_all add: tlv_ok_attr align4_def)
  from nested_attributes_read_back [OF ref_core.netlink_core_axioms demo_started_ok(1) start s2 this e] start flag e
  show ?thesis by auto
qed

theorem attribute_values_read_back_witness:
  "\<exists>s. nla_put_u32 ref_core demo_started 3 99 = (0, s) \<and> nla_get_u32 (skb_bytes s) 20 = Some 99"
proof -
  have "nla_put_u32 ref_core demo_started 3 99 = (0, skb_append demo_started (tlv_pad (enc_attr 3 (le_store 4 (99 :: u32)))))"
    by (simp add: nla_put_u32_def ref_core_def demo_started_ok align4_def)
  moreover from this have "nla_get_u32 (skb_bytes (skb_append demo_started (tlv_pad (enc_attr 3 (le_store 4 (99 :: u32)))))) 20 = Some 99"
    using attribute_values_read_back [OF ref_core.netlink_core_axioms demo_started_ok(1), of 20] demo_started_ok(3) by simp
  ultimately show ?thesis by blast
qed

end
