(* ===== verification/Libbpf_Opts.thy ===== *)
theory Libbpf_Opts
  imports C_Layout
begin

text \<open>
  Option structures of \<open>libbpf.h\<close> and \<open>bpf.h\<close> and the macros of \<open>libbpf_common.h\<close> that go with them.  Every
  structure starts with its own size; libbpf compares it with the structure it was built with and accepts a longer one
  only if what it does not know is zero.  \<open>LIBBPF_OPTS\<close> fills such a structure.  A zero-width bit-field only aligns the
  next member, which is aligned here in any case, and is left out.  \<open>bpf_link_create_opts\<close>, whose last member is in one of
  three alternatives of a union, is not modelled.
\<close>

unbundle bit_operations_syntax

section \<open>The structures, each with its \<open>__last_field\<close>\<close>

type_synonym opts = "layout \<times> string"

definition bpf_object_open_opts :: opts where
  "bpf_object_open_opts = (
     [(''sz'', 8, 8), (''object_name'', 8, 8), (''relaxed_maps'', 1, 1), (''pin_root_path'', 8, 8),
      (''kconfig'', 8, 8), (''btf_custom_path'', 8, 8), (''kernel_log_buf'', 8, 8),
      (''kernel_log_size'', 8, 8), (''kernel_log_level'', 4, 4)], ''kernel_log_level'')"

definition bpf_perf_event_opts :: opts where
  "bpf_perf_event_opts = (
     [(''sz'', 8, 8), (''bpf_cookie'', 8, 8)], ''bpf_cookie'')"

definition bpf_kprobe_opts :: opts where
  "bpf_kprobe_opts = (
     [(''sz'', 8, 8), (''bpf_cookie'', 8, 8), (''offset'', 8, 8), (''retprobe'', 1, 1)], ''retprobe'')"

definition bpf_kprobe_multi_opts :: opts where
  "bpf_kprobe_multi_opts = (
     [(''sz'', 8, 8), (''syms'', 8, 8), (''addrs'', 8, 8), (''cookies'', 8, 8), (''cnt'', 8, 8),
      (''retprobe'', 1, 1)], ''retprobe'')"

definition bpf_ksyscall_opts :: opts where
  "bpf_ksyscall_opts = (
     [(''sz'', 8, 8), (''bpf_cookie'', 8, 8), (''retprobe'', 1, 1)], ''retprobe'')"

definition bpf_uprobe_opts :: opts where
  "bpf_uprobe_opts = (
     [(''sz'', 8, 8), (''ref_ctr_offset'', 8, 8), (''bpf_cookie'', 8, 8), (''retprobe'', 1, 1),
      (''func_name'', 8, 8)], ''func_name'')"

definition bpf_usdt_opts :: opts where
  "bpf_usdt_opts = (
     [(''sz'', 8, 8), (''usdt_cookie'', 8, 8)], ''usdt_cookie'')"

definition bpf_tracepoint_opts :: opts where
  "bpf_tracepoint_opts = (
     [(''sz'', 8, 8), (''bpf_cookie'', 8, 8)], ''bpf_cookie'')"

definition bpf_trace_opts :: opts where
  "bpf_trace_opts = (
     [(''sz'', 8, 8), (''cookie'', 8, 8)], ''cookie'')"

definition bpf_iter_attach_opts :: opts where
  "bpf_iter_attach_opts = (
     [(''sz'', 8, 8), (''link_info'', 8, 8), (''link_info_len'', 4, 4)], ''link_info_len'')"

definition bpf_xdp_set_link_opts :: opts where
  "bpf_xdp_set_link_opts = (
     [(''sz'', 8, 8), (''old_fd'', 4, 4)], ''old_fd'')"

definition bpf_xdp_attach_opts :: opts where
  "bpf_xdp_attach_opts = (
     [(''sz'', 8, 8), (''old_prog_fd'', 4, 4)], ''old_prog_fd'')"

definition bpf_xdp_query_opts :: opts where
  "bpf_xdp_query_opts = (
     [(''sz'', 8, 8), (''prog_id'', 4, 4), (''drv_prog_id'', 4, 4), (''hw_prog_id'', 4, 4),
      (''skb_prog_id'', 4, 4), (''attach_mode'', 1, 1)], ''attach_mode'')"

definition bpf_tc_hook :: opts where
  "bpf_tc_hook = (
     [(''sz'', 8, 8), (''ifindex'', 4, 4), (''attach_point'', 4, 4), (''parent'', 4, 4)], ''parent'')"

definition bpf_tc_opts :: opts where
  "bpf_tc_opts = (
     [(''sz'', 8, 8), (''prog_fd'', 4, 4), (''flags'', 4, 4), (''prog_id'', 4, 4), (''handle'', 4, 4),
      (''priority'', 4, 4)], ''priority'')"

definition ring_buffer_opts :: opts where
  "ring_buffer_opts = (
     [(''sz'', 8, 8)], ''sz'')"

definition perf_buffer_opts :: opts where
  "perf_buffer_opts = (
     [(''sz'', 8, 8)], ''sz'')"

definition perf_buffer_raw_opts :: opts where
  "perf_buffer_raw_opts = (
     [(''sz'', 8, 8), (''cpu_cnt'', 4, 4), (''cpus'', 8, 8), (''map_keys'', 8, 8)], ''map_keys'')"

definition gen_loader_opts :: opts where
  "gen_loader_opts = (
     [(''sz'', 8, 8), (''data'', 8, 8), (''insns'', 8, 8), (''data_sz'', 4, 4), (''insns_sz'', 4, 4)], ''insns_sz'')"

definition bpf_linker_opts :: opts where
  "bpf_linker_opts = (
     [(''sz'', 8, 8)], ''sz'')"

definition bpf_linker_file_opts :: opts where
  "bpf_linker_file_opts = (
     [(''sz'', 8, 8)], ''sz'')"

definition libbpf_prog_handler_opts :: opts where
  "libbpf_prog_handler_opts = (
     [(''sz'', 8, 8), (''cookie'', 8, 8), (''prog_setup_fn'', 8, 8), (''prog_prepare_load_fn'', 8, 8),
      (''prog_attach_fn'', 8, 8)], ''prog_attach_fn'')"

definition bpf_map_create_opts :: opts where
  "bpf_map_create_opts = (
     [(''sz'', 8, 8), (''btf_fd'', 4, 4), (''btf_key_type_id'', 4, 4), (''btf_value_type_id'', 4, 4),
      (''btf_vmlinux_value_type_id'', 4, 4), (''inner_map_fd'', 4, 4), (''map_flags'', 4, 4),
      (''map_extra'', 8, 8), (''numa_node'', 4, 4), (''map_ifindex'', 4, 4)], ''map_ifindex'')"

definition bpf_prog_load_opts :: opts where
  "bpf_prog_load_opts = (
     [(''sz'', 8, 8), (''attempts'', 4, 4), (''expected_attach_type'', 4, 4), (''prog_btf_fd'', 4, 4),
      (''prog_flags'', 4, 4), (''prog_ifindex'', 4, 4), (''kern_version'', 4, 4), (''attach_btf_id'', 4, 4),
      (''attach_prog_fd'', 4, 4), (''attach_btf_obj_fd'', 4, 4), (''fd_array'', 8, 8), (''func_info'', 8, 8),
      (''func_info_cnt'', 4, 4), (''func_info_rec_size'', 4, 4), (''line_info'', 8, 8),
      (''line_info_cnt'', 4, 4), (''line_info_rec_size'', 4, 4), (''log_level'', 4, 4), (''log_size'', 4, 4),
      (''log_buf'', 8, 8)], ''log_buf'')"

definition bpf_btf_load_opts :: opts where
  "bpf_btf_load_opts = (
     [(''sz'', 8, 8), (''log_buf'', 8, 8), (''log_level'', 4, 4), (''log_size'', 4, 4)], ''log_size'')"

definition bpf_map_batch_opts :: opts where
  "bpf_map_batch_opts = (
     [(''sz'', 8, 8), (''elem_flags'', 8, 8), (''flags'', 8, 8)], ''flags'')"

definition bpf_obj_get_opts :: opts where
  "bpf_obj_get_opts = (
     [(''sz'', 8, 8), (''file_flags'', 4, 4)], ''file_flags'')"

definition bpf_prog_attach_opts :: opts where
  "bpf_prog_attach_opts = (
     [(''sz'', 8, 8), (''flags'', 4, 4), (''replace_prog_fd'', 4, 4)], ''replace_prog_fd'')"

definition bpf_link_update_opts :: opts where
  "bpf_link_update_opts = (
     [(''sz'', 8, 8), (''flags'', 4, 4), (''old_prog_fd'', 4, 4)], ''old_prog_fd'')"

definition bpf_prog_query_opts :: opts where
  "bpf_prog_query_opts = (
     [(''sz'', 8, 8), (''query_flags'', 4, 4), (''attach_flags'', 4, 4), (''prog_ids'', 8, 8),
      (''prog_cnt'', 4, 4), (''prog_attach_flags'', 8, 8)], ''prog_attach_flags'')"

definition bpf_prog_bind_opts :: opts where
  "bpf_prog_bind_opts = (
     [(''sz'', 8, 8), (''flags'', 4, 4)], ''flags'')"

definition bpf_test_run_opts :: opts where
  "bpf_test_run_opts = (
     [(''sz'', 8, 8), (''data_in'', 8, 8), (''data_out'', 8, 8), (''data_size_in'', 4, 4),
      (''data_size_out'', 4, 4), (''ctx_in'', 8, 8), (''ctx_out'', 8, 8), (''ctx_size_in'', 4, 4),
      (''ctx_size_out'', 4, 4), (''retval'', 4, 4), (''repeat'', 4, 4), (''duration'', 4, 4),
      (''flags'', 4, 4), (''cpu'', 4, 4), (''batch_size'', 4, 4)], ''batch_size'')"

definition all_opts :: "opts list" where
  "all_opts =
     [bpf_object_open_opts, bpf_perf_event_opts, bpf_kprobe_opts, bpf_kprobe_multi_opts, bpf_ksyscall_opts,
      bpf_uprobe_opts, bpf_usdt_opts, bpf_tracepoint_opts, bpf_trace_opts, bpf_iter_attach_opts,
      bpf_xdp_set_link_opts, bpf_xdp_attach_opts, bpf_xdp_query_opts, bpf_tc_hook, bpf_tc_opts,
      ring_buffer_opts, perf_buffer_opts, perf_buffer_raw_opts, gen_loader_opts, bpf_linker_opts,
      bpf_linker_file_opts, libbpf_prog_handler_opts, bpf_map_create_opts, bpf_prog_load_opts,
      bpf_btf_load_opts, bpf_map_batch_opts, bpf_obj_get_opts, bpf_prog_attach_opts,
      bpf_link_update_opts, bpf_prog_query_opts, bpf_prog_bind_opts, bpf_test_run_opts]"

lemmas opts_defs = bpf_object_open_opts_def bpf_perf_event_opts_def bpf_kprobe_opts_def
  bpf_kprobe_multi_opts_def bpf_ksyscall_opts_def bpf_uprobe_opts_def bpf_usdt_opts_def
  bpf_tracepoint_opts_def bpf_trace_opts_def bpf_iter_attach_opts_def bpf_xdp_set_link_opts_def
  bpf_xdp_attach_opts_def bpf_xdp_query_opts_def bpf_tc_hook_def bpf_tc_opts_def ring_buffer_opts_def
  perf_buffer_opts_def perf_buffer_raw_opts_def gen_loader_opts_def bpf_linker_opts_def
  bpf_linker_file_opts_def libbpf_prog_handler_opts_def bpf_map_create_opts_def bpf_prog_load_opts_def
  bpf_btf_load_opts_def bpf_map_batch_opts_def bpf_obj_get_opts_def bpf_prog_attach_opts_def
  bpf_link_update_opts_def bpf_prog_query_opts_def bpf_prog_bind_opts_def
  bpf_test_run_opts_def

section \<open>The macros of \<open>libbpf_common.h\<close> and \<open>libbpf.h\<close>\<close>

definition LIBBPF_MAJOR_VERSION :: int where "LIBBPF_MAJOR_VERSION = 1"
definition LIBBPF_MINOR_VERSION :: int where "LIBBPF_MINOR_VERSION = 0"

definition LIBBPF_CURRENT_VERSION_GEQ :: "int \<Rightarrow> int \<Rightarrow> bool" where
  "LIBBPF_CURRENT_VERSION_GEQ major minor \<longleftrightarrow>
     LIBBPF_MAJOR_VERSION > major \<or> LIBBPF_MAJOR_VERSION = major \<and> LIBBPF_MINOR_VERSION \<ge> minor"

text \<open>The designated initializers of the compound literal; a later one for the same member wins.\<close>

definition opts_value :: "layout \<Rightarrow> (string \<times> nat) list \<Rightarrow> string \<Rightarrow> nat" where
  "opts_value ly args nm = (case map_of (rev ((''sz'', size_of ly) # args)) nm of Some v \<Rightarrow> v | None \<Rightarrow> 0)"

text \<open>
  \<open>memset\<close> clears the structure and the literal is assigned to it; \<open>pad\<close> is the memory afterwards where the literal has
  padding, which C leaves open: zero if the compiler keeps what \<open>memset\<close> wrote.
\<close>

definition LIBBPF_OPTS :: "layout \<Rightarrow> (string \<times> nat) list \<Rightarrow> bytes \<Rightarrow> bytes" where
  "LIBBPF_OPTS ly args pad =
     store_fields (map (\<lambda>(nm, off, n). (off, le_bytes n (opts_value ly args nm))) (place 0 ly)) pad"

definition BPF_TC_PARENT :: "u32 \<Rightarrow> u32 \<Rightarrow> u32" where
  "BPF_TC_PARENT a b = ((push_bit 16 a) AND 0xFFFF0000) OR (b AND 0x0000FFFF)"

text \<open>Overloading by the number of arguments: \<open>NAME1\<close> to \<open>NAME6\<close>.\<close>

definition libbpf_nth :: "'a list \<Rightarrow> 'a option" where
  "libbpf_nth xs = (if 7 \<le> length xs then Some (xs ! 6) else None)"

definition libbpf_cnt :: "'a list \<Rightarrow> nat option" where
  "libbpf_cnt args = libbpf_nth (map (\<lambda>_. 0) args @ [6, 5, 4, 3, 2, 1])"

section \<open>Layout\<close>

lemma align_up_le: "0 < al \<Longrightarrow> off \<le> align_up off al"
  unfolding align_up_def using div_mult_mod_eq [of "off + al - 1" al] mod_less_divisor [of al "off + al - 1"] by linarith

lemma place_append: "place off (xs @ ys) = place off xs @ place (layout_end off xs) ys"
  by (induction off xs rule: place.induct) auto

lemma layout_end_mono: "\<forall>(nm, sz, al) \<in> set ly. 0 < al \<Longrightarrow> off \<le> layout_end off ly"
proof (induction off ly rule: layout_end.induct)
  case (2 off nm sz al fs)
  then have "align_up off al + sz \<le> layout_end (align_up off al + sz) fs" and "0 < al" by auto
  then show ?case using align_up_le [of al off] by simp
qed simp

lemma place_fields_ok:
  assumes "\<forall>(nm, sz, al) \<in> set ly. 0 < al" and "layout_end off ly \<le> hi" and "\<And>nm n. length (f nm n) = n"
  shows "fields_ok off (map (\<lambda>(nm, o', n). (o', f nm n)) (place off ly)) hi"
  using assms(1,2) by (induction off ly rule: place.induct) (auto simp: assms(3) align_up_le)

lemma layout_end_le_size: "layout_end 0 ly \<le> size_of ly"
proof -
  have "1 \<le> fold max xs (1 :: nat)" for xs
  proof -
    have "b \<le> fold max xs b" for b by (induction xs arbitrary: b) (auto intro: order_trans [OF max.cobounded2])
    then show ?thesis .
  qed
  then have "0 < layout_align ly" unfolding layout_align_def by (simp add: Suc_le_eq)
  then show ?thesis by (simp add: size_of_def align_up_le)
qed

lemma place_before: "(nm, off, n) \<in> set (place lo ly) \<Longrightarrow> \<forall>(nm, sz, al) \<in> set ly. 0 < al \<Longrightarrow> off + n \<le> layout_end lo ly"
proof (induction lo ly rule: place.induct)
  case (2 lo nm' sz al fs)
  then show ?case using layout_end_mono [of fs "align_up lo al + sz"] by auto
qed simp

lemma place_after: "(nm, off, n) \<in> set (place lo ly) \<Longrightarrow> \<forall>(nm, sz, al) \<in> set ly. 0 < al \<Longrightarrow> lo \<le> off"
proof (induction lo ly rule: place.induct)
  case (2 lo nm' sz al fs)
  then show ?case using align_up_le [of al lo] by auto
qed simp

lemma place_sorted:
  "\<forall>(nm, sz, al) \<in> set ly. 0 < al \<Longrightarrow> sorted_wrt (\<lambda>(nm, off, n) (nm', off', n'). off + n \<le> off') (place lo ly)"
proof (induction lo ly rule: place.induct)
  case (2 lo nm sz al fs)
  then show ?case using place_after by fastforce
qed simp

lemma place_names: "map fst (place off ly) = map fst ly"
  by (induction off ly rule: place.induct) auto

lemma layout_end_append: "layout_end off (xs @ ys) = layout_end (layout_end off xs) ys"
  by (induction off xs rule: layout_end.induct) auto

lemma last_place:
  assumes "ly \<noteq> []"
  shows "\<exists>off n. last (place lo ly) = (fst (last ly), off, n) \<and> off + n = layout_end lo ly"
proof -
  obtain xs nm sz al where "ly = xs @ [(nm, sz, al)]" using assms by (cases ly rule: rev_cases) auto
  then show ?thesis by (simp add: place_append layout_end_append)
qed

section \<open>Zero bytes\<close>

lemma nth_poke:
  assumes "off + length xs \<le> length mem" and "i < length mem"
  shows "poke off xs mem ! i = (if off \<le> i \<and> i < off + length xs then xs ! (i - off) else mem ! i)"
  using assms by (auto simp: poke_def nth_append min_def)

lemma store_fields_zero:
  assumes "fields_ok lo fs (length mem)" and "\<forall>i. k \<le> i \<and> i < length mem \<longrightarrow> mem ! i = 0"
    and "\<forall>(off, xs) \<in> set fs. off + length xs \<le> k \<or> set xs \<subseteq> {0}"
  shows "\<forall>i. k \<le> i \<and> i < length mem \<longrightarrow> store_fields fs mem ! i = (0 :: u8)"
  using assms
proof (induction fs arbitrary: lo mem)
  case (Cons f fs)
  obtain off xs where f: "f = (off, xs)" by (cases f)
  have ok: "fields_ok (off + length xs) fs (length mem)" and fit: "off + length xs \<le> length mem"
    using Cons.prems(1) f fields_ok_le by auto
  have x: "xs ! n = 0" if "n < length xs" "set xs \<subseteq> {0}" for n using nth_mem [OF that(1)] that(2) by blast
  have "set xs \<subseteq> {0} \<or> off + length xs \<le> k" using Cons.prems(3) f by auto
  then have z: "\<forall>i. k \<le> i \<and> i < length mem \<longrightarrow> poke off xs mem ! i = 0"
    using Cons.prems(2) fit x by (auto simp: nth_poke)
  have len: "length (poke off xs mem) = length mem" using fit by (simp add: length_poke)
  have "\<forall>i. k \<le> i \<and> i < length mem \<longrightarrow> store_fields fs (poke off xs mem) ! i = 0"
    using Cons.IH [of "off + length xs" "poke off xs mem"] ok z Cons.prems(3) unfolding len by simp
  then show ?case by (simp add: store_fields_def f)
qed (simp add: store_fields_def)

lemma store_fields_outside:
  assumes "fields_ok lo fs (length mem)" and "\<forall>(off, xs) \<in> set fs. i < off \<or> off + length xs \<le> i" and "i < length mem"
  shows "store_fields fs mem ! i = mem ! i"
  using assms
proof (induction fs arbitrary: lo mem)
  case (Cons f fs)
  obtain off xs where f: "f = (off, xs)" by (cases f)
  have ok: "fields_ok (off + length xs) fs (length mem)" and fit: "off + length xs \<le> length mem"
    using Cons.prems(1) f fields_ok_le by auto
  have len: "length (poke off xs mem) = length mem" using fit by (simp add: length_poke)
  have "poke off xs mem ! i = mem ! i" using Cons.prems(2,3) f fit by (auto simp: nth_poke)
  moreover have "store_fields fs (poke off xs mem) ! i = poke off xs mem ! i"
    using Cons.IH [of "off + length xs" "poke off xs mem"] ok Cons.prems(2,3) unfolding len by simp
  ultimately show ?case by (simp add: store_fields_def f)
qed (simp add: store_fields_def)

text \<open>Values of members, by what the arguments say of them.\<close>

lemma opts_value_given: "nm \<notin> fst ` set ys \<Longrightarrow> opts_value ly (xs @ (nm, v) # ys) nm = v"
  using map_of_eq_None_iff [of "rev ys" nm] by (simp add: opts_value_def map_add_def)

lemma opts_value_other: "nm \<notin> fst ` set args \<Longrightarrow> nm \<noteq> ''sz'' \<Longrightarrow> opts_value ly args nm = 0"
  using map_of_eq_None_iff [of "rev args" nm] by (auto simp: opts_value_def map_add_def split: option.splits)

lemma opts_value_size: "''sz'' \<notin> fst ` set args \<Longrightarrow> opts_value ly args ''sz'' = size_of ly"
  using map_of_eq_None_iff [of "rev args" "''sz''"] by (simp add: opts_value_def map_add_def)

lemma le_bytes_zero: "set (le_bytes n 0) \<subseteq> {0}"
  by (induction n) auto

section \<open>Properties\<close>

text \<open>Every structure starts with \<open>sz\<close>, names its members once, and its \<open>__last_field\<close> is its last member.\<close>

definition opts_ok :: "opts \<Rightarrow> bool" where
  "opts_ok x = (case x of (ly, lst) \<Rightarrow> list_all (\<lambda>(nm, sz, al). 0 < al) ly \<and> distinct (map fst ly) \<and>
     (case ly of [] \<Rightarrow> False | f # _ \<Rightarrow> f = (''sz'', 8, 8)) \<and> fst (last ly) = lst)"

lemma all_opts_ok: "list_all opts_ok all_opts"
  by (simp add: all_opts_def opts_ok_def opts_defs)

lemma all_opts_small: "list_all (\<lambda>(ly, lst). size_of ly < 2 ^ 64) all_opts"
proof -
  have "list_all (\<lambda>(ly, lst). size_of ly < 256) all_opts" by code_simp
  then show ?thesis by (rule list.pred_mono_strong) auto
qed

lemma opts_cases:
  assumes "(ly, lst) \<in> set all_opts"
  obtains rest where "ly = (''sz'', 8, 8) # rest" and "\<forall>(nm, sz, al) \<in> set ly. 0 < al" and "distinct (map fst ly)"
    and "fst (last ly) = lst"
proof -
  have "opts_ok (ly, lst)" using all_opts_ok assms by (simp add: list_all_iff)
  then show ?thesis by (intro that [of "tl ly"]) (auto simp: opts_ok_def list_all_iff split: list.splits)
qed

text \<open>Members nobody mentions are zero, and so is everything from the first of them on.\<close>

lemma unused_zero:
  assumes ly: "ly = (''sz'', 8, 8) # rest" and al: "\<forall>(nm, sz, al) \<in> set ly. 0 < al" and d: "distinct (map fst ly)"
    and pad: "length pad = size_of ly"
    and new: "ly = old @ new" "old \<noteq> []" "set pad \<subseteq> {0}" "fst ` set new \<inter> fst ` set args = {}"
  shows "\<forall>i. layout_end 0 old \<le> i \<and> i < size_of ly \<longrightarrow> LIBBPF_OPTS ly args pad ! i = 0"
proof -
  let ?f = "\<lambda>(nm, off, n). (off, le_bytes n (opts_value ly args nm))"
  have ok: "fields_ok 0 (map ?f (place 0 ly)) (length pad)"
    unfolding pad by (rule place_fields_ok [OF al layout_end_le_size]) simp
  have "off + length xs \<le> layout_end 0 old \<or> set xs \<subseteq> {0}" if f: "(off, xs) \<in> set (map ?f (place 0 ly))" for off xs
  proof -
    obtain nm n where x: "(nm, off, n) \<in> set (place 0 ly)" "xs = le_bytes n (opts_value ly args nm)" using f by auto
    then consider "(nm, off, n) \<in> set (place 0 old)" | "(nm, off, n) \<in> set (place (layout_end 0 old) new)"
      by (auto simp: new(1) place_append)
    then show ?thesis
    proof cases
      case 1
      then show ?thesis using place_before [OF 1] al x(2) by (auto simp: new(1))
    next
      case 2
      then have "nm \<in> fst ` set new"
        using place_names [of "layout_end 0 old" new] by (metis fst_conv image_eqI list.set_map)
      moreover have "''sz'' \<notin> fst ` set new" using d new(1,2) ly by (cases old) auto
      then have "nm \<noteq> ''sz''" using calculation by blast
      ultimately have "opts_value ly args nm = 0" using new(4) by (intro opts_value_other) auto
      then show ?thesis using x(2) le_bytes_zero by simp
    qed
  qed
  moreover have "\<forall>i. layout_end 0 old \<le> i \<and> i < length pad \<longrightarrow> pad ! i = 0" using new(3) nth_mem by blast
  ultimately show ?thesis using store_fields_zero [OF ok] unfolding LIBBPF_OPTS_def pad by blast
qed



text \<open>The overloading macro selects by the number of arguments, from one to six.\<close>

lemma libbpf_cnt_length: "args \<noteq> [] \<Longrightarrow> length args \<le> 6 \<Longrightarrow> libbpf_cnt args = Some (length args)"
proof -
  assume "args \<noteq> []" and "length args \<le> 6"
  then have "1 \<le> length args" "length args \<le> 6" by (auto simp: Suc_le_eq)
  then have "length args \<in> {1, 2, 3, 4, 5, 6}" by (simp only: insert_iff empty_iff) arith
  then show ?thesis
    by (auto simp: libbpf_cnt_def libbpf_nth_def nth_append numeral_eq_Suc)
qed

text \<open>The two halves of a queueing discipline's handle.\<close>

lemma BPF_TC_PARENT_halves:
  "drop_bit 16 (BPF_TC_PARENT a b) = take_bit 16 a" "take_bit 16 (BPF_TC_PARENT a b) = take_bit 16 b"
proof -
  have m: "(0xFFFF0000 :: u32) = push_bit 16 (mask 16)" "(0x0000FFFF :: u32) = mask 16" by (simp_all add: mask_eq_exp_minus_1)
  show "drop_bit 16 (BPF_TC_PARENT a b) = take_bit 16 a" "take_bit 16 (BPF_TC_PARENT a b) = take_bit 16 b"
    unfolding BPF_TC_PARENT_def m by (auto intro!: bit_eqI simp: bit_simps)
qed

end
