(* ===== verification/Spec2Isabelle.thy ===== *)
theory Spec2Isabelle
  imports Strace_Protocol So App Libbpf_Log Kernel_Regs Prog2 Core_Variadic Usdt Xsk Btf Lskel Linux_List Bpf_Helpers
    Barriers Netlink_Build Libbpf_Opts
begin

text \<open>
  A verification library for the eBPF tools of this repository: \<open>libbpfstrace\<close>, a system call tracer, \<open>libbpfso\<close>, which
  reports the shared libraries a process loads, and \<open>libbpfapp\<close>, which reports \<open>execve\<close>; and for the code of the
  vendored libbpf headers these tools and their relatives are compiled from.

  \<^bold>\<open>How the program works.\<close>  \<open>libbpfstrace\<close> (\<open>src/libbpfstrace\<close>) finds its target by pid or by scanning
  \<open>/proc\<close>, writes it into the read-only data of its BPF object, loads and attaches two raw tracepoint programs and polls
  a ring buffer.  In the kernel \<open>handle_sys_enter\<close> stores a snapshot of a system call (number, six registers, command
  name, path or socket address) in the hash map \<open>inflight\<close> under the thread's id; \<open>handle_sys_exit\<close> takes it out again
  and submits it together with the return value.  In user space \<open>handle_event\<close> prints one line for each event.
  \<open>libbpfso\<close> and \<open>libbpfapp\<close> have the same shape with one BPF program each.

  \<^bold>\<open>The theories.\<close>
  \<^item> \<open>Prelude\<close>: words, bytes, C strings and little-endian encoding; \<open>C_Lib\<close>: the formats of \<open>printf\<close> the code uses,
    \<open>snprintf\<close>, \<open>strtol\<close>, \<open>strncmp\<close>, \<open>strcspn\<close>; \<open>C_Layout\<close>: offsets, sizes and byte images of C structures.
  \<^item> \<open>Bpf_Env\<close>: the kernel as seen by a BPF program.  The helpers are the record \<open>kenv\<close>, their documented contract is
    the locale \<open>bpf_helpers\<close>, interpreted on \<open>ref_kenv\<close>; a map is the record \<open>map_ops\<close> with the locale \<open>bpf_map\<close>,
    interpreted on a bounded association list (\<open>hash_ops\<close>).
  \<^item> \<open>Switch\<close>: a C \<open>switch\<close> over distinct labels as the locale \<open>switch_table\<close>; \<open>Unistd\<close>: the entries of
    \<open>asm-generic/unistd.h\<close> and \<open>syscall_name\<close>; \<open>Unistd_Nr\<close>: the \<open>__NR\<close> macros of the same header; \<open>Strace_Names\<close>:
    \<open>errno_name\<close>, \<open>futex_op_name\<close> and the tables of \<open>errno.h\<close> and \<open>futex.h\<close>.
  \<^item> \<open>Strace_Event\<close>: \<open>struct syscall_event\<close> and \<open>struct enter_state\<close> with their layout, and the codec between the two
    sides of the ring buffer; \<open>Strace_Bpf\<close>: \<open>libbpfstrace.bpf.c\<close>, one definition per function, and the step function
    \<open>tp_step\<close> of a run of tracepoints of all threads; \<open>Strace_Tracer\<close>: the abstract tracer, the refinement and what
    follows from it.
  \<^item> \<open>Strace_Format\<close> and \<open>Strace_Output\<close>: the formatting functions of \<open>libbpfstrace.c\<close> and \<open>handle_event\<close>;
    \<open>Strace_Proc\<close>: \<open>parse_pid\<close> to \<open>find_pid_by_name\<close>; \<open>Skel\<close>: the generated skeleton; \<open>Poll_Loop\<close>: the polling loop
    both tools share; \<open>Strace_Main\<close>: \<open>main\<close>;
    \<open>Strace_Protocol\<close>: the order in which \<open>main\<close> calls libbpf, against a state machine of the documented use.
  \<^item> \<open>So\<close> and \<open>App\<close>: the other two tools, program and \<open>main\<close>.
  \<^item> \<open>Kernel_Regs\<close>: the kernel's view of what the tracer reads (\<open>struct pt_regs\<close>, \<open>syscall_get_arguments\<close>, the events
    \<open>sys_enter\<close> and \<open>sys_exit\<close>), from the kernel headers in \<open>src/akita-include\<close>; \<open>Libbpf_Log\<close>: the tools' log callbacks.
  \<^item> \<open>Core_Read\<close>, \<open>Core_Variadic\<close>, \<open>Tracing\<close>, \<open>Prog2\<close>, \<open>Bpf_Print\<close>, \<open>Endian\<close>, \<open>Usdt\<close>: the macros of \<open>bpf_core_read.h\<close>
    (what they do, and how the preprocessor unfolds them), \<open>bpf_tracing.h\<close> (with \<open>BPF_PROG2\<close> of its newer copy),
    \<open>bpf_helpers.h\<close>, \<open>bpf_endian.h\<close> and \<open>usdt.bpf.h\<close>; the tools' programs are written with the first, third and fifth.
    \<open>Btf\<close>, \<open>Lskel\<close>, \<open>Xsk\<close>: the inline functions of \<open>btf.h\<close>, \<open>skel_internal.h\<close> and \<open>xsk.h\<close> of the SDK.
  \<^item> \<open>Linux_List\<close>, \<open>Linux_Arith\<close>, \<open>Bpf_Insn\<close>: the support headers of the SDK's libbpf, \<open>list.h\<close> on an explicit store,
    with the locale \<open>intrusive_list\<close> for what a list promises; \<open>err.h\<close>, \<open>kernel.h\<close> and \<open>overflow.h\<close>; and the
    instruction macros of \<open>filter.h\<close>.  \<open>Bpf_Helpers\<close>: the static tail call of \<open>bpf_helpers.h\<close> in these instructions.
  \<^item> \<open>Barriers\<close>: the barriers of \<open>compiler.h\<close> and \<open>xsk.h\<close> and the perf ring of \<open>ring_buffer.h\<close>, on a memory whose
    accesses are reordered; the locale \<open>release_acquire\<close> is interpreted on both families of macros.
  \<^item> \<open>Netlink\<close>, \<open>Netlink_Build\<close>: the messages libbpf exchanges with the kernel, read with \<open>uapi/linux/netlink.h\<close> and
    \<open>net/netlink.h\<close> and built with the latter; the locale \<open>tlv_walk\<close> is what the loops over messages and attributes
    rely on, \<open>netlink_core\<close> what the kernel promises of the functions that are only declared.
  \<^item> \<open>Libbpf_Opts\<close>: the option structures of \<open>libbpf.h\<close> and \<open>bpf.h\<close> and \<open>LIBBPF_OPTS\<close>.

  \<^bold>\<open>How code becomes definitions.\<close>  Structures are records, machine integers are words, C strings and arrays are lists
  with the terminator written out.  A BPF program is a function of the helpers, the context and the map to its result.
  Functions of user space return the list of library calls they make; what the library answers is a parameter.  A read
  past the end of an array, an access through a bad pointer, an overflow of a signed integer in user space, a macro call
  that does not compile, or an exit status that
  depends on an indeterminate variable, is \<open>None\<close>.  The waiting loop, the polling loop and the loop over a list may run
  for ever; they are partial functions whose value is \<open>None\<close> when they do not return, and the signal handler appears as the values successive reads of \<open>exiting\<close> see.  No fuel is used.

  \<^bold>\<open>What is shown.\<close>
  \<^item> The two programs refine an abstract tracer with at most one pending call per thread, for every map that keeps the
    map contract and every interleaving; from this follow provenance, completeness, absence of stale entries and
    printability of events (\<open>Strace_Tracer\<close>).
  \<^item> Captured arguments, paths and addresses are the registers and the user's memory; an event is read back as it was
    stored; the printed line is complete but for error messages of the C library that are too long (\<open>Strace_Event\<close>, \<open>Strace_Output\<close>), and the theorem below joins these from the
    tracepoint to the line on the terminal.
  \<^item> Names of errors and futex operations are those of the kernel's headers, names of system calls those of the \<open>__NR\<close>
    macros with six exceptions, flags of \<open>openat\<close> those of the bits that are set; \<open>parse_pid\<close>, the name match and the scan of \<open>/proc\<close> are characterised
    exactly; \<open>main\<close> returns once it is asked to, releases everything on every path and only ever traces the requested
    process.
  \<^item> The skeletons neither leak nor free twice; the readers of \<open>bpf_core_read.h\<close>, \<open>usdt.bpf.h\<close> and \<open>btf.h\<close> return the
    described bits; byte-order conversions are inverse to each other; the rings of \<open>xsk.h\<close> are bounded queues for every
    interleaving of producer and consumer, with wrap-around.
  \<^item> The snapshot of a call has the number and arguments the kernel's own event records, and the register macros name the
    registers the kernel's accessors read (\<open>Kernel_Regs\<close>); programs written with \<open>filter.h\<close> can be decoded from their
    bytes; lists refine abstract lists under any sequence of insertions and deletions and are traversed completely;
    the overflow check is exact for every integer type except \<open>unsigned short\<close>, for which it can be undefined.
  \<^item> Data published with a release is what a reader finds after the matching acquire, on every architecture and for every
    order of the accesses the barriers allow, which is what the steps of \<open>Xsk\<close> rely on; the loops over netlink buffers end,
    stay inside the buffer and visit what is there for any bytes received; messages that are built are read back;
    option structures hold what was asked for and zeros in all other members.
  \<^item> Some theorems show behaviour the authors do not intend: the address printed for \<open>sendto\<close>, \<open>O_DSYNC\<close> reported as
    \<open>O_SYNC\<close>, results below -4095 reported as errors, system calls printed under the name of a kernel function, the exit
    statuses of \<open>libbpfstrace\<close> and \<open>libbpfso\<close>, the missing terminator after \<open><failed>\<close> in \<open>libbpfso\<close>, the missing
    filter of \<open>libbpfapp\<close>, and the return-address macro on arm64.

  \<^bold>\<open>Not modelled.\<close>  libbpf, the kernel and the C library's internals are not in the repository and appear as parameters;
  so do the skeletons of \<open>libbpfso\<close> and \<open>libbpfapp\<close>.  The verifier's view of a program, build files, \<open>vmlinux.h\<close> and
  the kernel and bcc headers no tool and no part of libbpf's own headers includes are left out, as are declarations
  without a body.  Of \<open>net/netlink.h\<close> the validation policies and the 64-bit values, which call functions that are not in
  the repository, are left out, as is the option structure with a union.  The memory of \<open>Barriers\<close> has no forwarding of a thread's own stores.
\<close>

section \<open>From the system call to the line on the terminal\<close>

lemma openat_call_text:
  assumes "ev_syscall_id e = NR_OPENAT" and "arg_string e = Some (ev_str e)" and "nul_terminated (ev_str e)"
  shows "call_text lib e name = Some (name @ ''(dfd='' @ fmt_d (ev_args e ! 0) @ '', pathname='' @ ''\"'' @ c_str (ev_str e) @
    ''\"'' @ '', flags='' @ flags_text (ev_args e ! 2) @ '', mode='' @ fmt_alt_o (ev_args e ! 3) @ '')'')"
proof -
  have nr: "ev_syscall_id e = nr_openat" using assms(1) by (simp add: NR_OPENAT_def nr_openat_def)
  have "path_text e (ev_args e ! 1) = Some (''\"'' @ c_str (ev_str e) @ ''\"'')"
    using assms(2,3) by (simp add: path_text_def array_str_def)
  moreover have "format_openat_flags (ev_args e ! 2) 256 = Some (flags_text (ev_args e ! 2))"
    by (rule format_openat_flags_eq) simp
  moreover have "nr_openat \<notin> {nr_read, nr_write, nr_ioctl, nr_futex}" by (simp add: user_nr_defs)
  ultimately show ?thesis
    unfolding call_text_def Let_def nr by simp
qed

section \<open>Properties\<close>

text \<open>
  (C1) End to end.  An \<open>openat\<close> of a traced thread whose path can be read, whose snapshot can be stored and for whose
  event the ring buffer has room, and whose result is not the least \<open>long long\<close>, yields an event for which user space
  prints one line: process and thread, the path exactly as the program passed it (cut at 255 characters), the flags by
  name, the mode and the first 127 characters of the return value's text, whatever other threads did between the two
  tracepoints and whatever the ring-buffer memory held.  Nothing of the return value is cut when it is not negative or
  the message \<open>strerror\<close> has for its error is at most 109 characters long.
\<close>

theorem openat_traced_end_to_end:
  assumes "bpf_map ops" and "bpf_helpers env umem kmem" and "text_library lib"
    and "\<not> filtered_out target_tgid (k_pid_tgid env)" and "k_pid_tgid env' = k_pid_tgid env"
    and "\<forall>tp \<in> set ys. tp_id tp \<noteq> k_pid_tgid env"
    and "fst (map_update_elem ops (inflight (tp_run ops target_tgid st xs)) (k_pid_tgid env)
           (enter_snapshot env ctx) BPF_ANY) = 0"
    and "ucast (ctx ! 1) = NR_OPENAT" and "syscall_args env (ctx ! 0) ! 1 = path" and "path \<noteq> 0"
    and "0 \<le> fst (k_read_user_str env SYSCALL_STR_LEN (replicate SYSCALL_STR_LEN NUL) path)"
    and "length mem = size_of syscall_event_layout" and "sint (ctx' ! 1) \<noteq> - (2 ^ 63)"
  defines "args \<equiv> syscall_args env (ctx ! 0)"
  shows "\<exists>e \<in> set (events (tp_run ops target_tgid st (xs @ Sys_Enter env ctx # ys @ Sys_Exit env' ctx' (Some r) # zs))).
    \<exists>ret. ev_ret e = ctx' ! 1 \<and> ret_text lib e = Some ret \<and>
    (0 \<le> sint (ctx' ! 1) \<or> length (lib_strerror lib (ucast (- (ctx' ! 1)))) \<le> 109 \<longrightarrow> take 127 ret = ret) \<and>
    handle_event lib arm64_unistd (store_event e mem @ rest) =
      Some (0, ''pid='' @ fmt_d (id_tgid (k_pid_tgid env)) @ '' tid='' @ fmt_d (id_pid (k_pid_tgid env)) @
        '' comm='' @ c_str (ev_comm e) @ '' '' @
        ''openat(dfd='' @ fmt_d (args ! 0) @ '', pathname='' @ ''\"'' @ c_str (mem_chars umem path 255) @ ''\"'' @
        '', flags='' @ flags_text (args ! 2) @ '', mode='' @ fmt_alt_o (args ! 3) @ '') = '' @ take 127 ret @ '' [id=56]\<newline>'')"
proof -
  let ?s = "enter_snapshot env ctx" and ?i = "k_pid_tgid env"
  let ?e = "event_of ?i ?s (ctx' ! 1)"
  have mem: "?e \<in> set (events (tp_run ops target_tgid st (xs @ Sys_Enter env ctx # ys @ Sys_Exit env' ctx' (Some r) # zs)))"
    by (rule inflight_map.call_is_reported [OF inflight_mapI [OF assms(1)] assms(4-7)])
  have pe: "printable_enter ?s" by (rule bpf_helpers.printable_snapshot [OF assms(2)])
  have p: "printable ?e" by (rule printable_event_of [OF pe])
  have pp: "path_pointer (ucast (ctx ! 1)) (syscall_args env (ctx ! 0)) = path"
    using assms(8,9) by (simp add: path_pointer_def)
  note captured = snapshot_path [OF assms(2) pp assms(10,11)]
  have nr: "es_syscall_id ?s = NR_OPENAT" and args: "es_args ?s = args"
    using assms(8) by (simp_all add: args_def)
  have pos: "0 < es_str_len ?s"
    using captured by (metis One_nat_def add_Suc_right gr0I unat_0 word_gt_0 nat.distinct(1))
  have str: "arg_string ?e = Some (ev_str ?e)" "nul_terminated (ev_str ?e)"
    using pos pe by (auto simp: arg_string_def printable_enter_def)
  have name: "strip_sys (syscall_name arm64_unistd (ev_syscall_id ?e)) = ''openat''"
    using nr by (simp add: arm64_names strip_sys_def strncmp_eq_def)
  have m: "length mem = 384" using assms(12) by simp
  have r: "sint (ev_ret ?e) \<noteq> - (2 ^ 63)" using assms(13) by simp
  obtain call ret where "call_text lib ?e ''openat'' = Some call" and ret: "ret_text lib ?e = Some ret"
    and line: "handle_event lib arm64_unistd (store_event ?e mem @ rest) =
      Some (0, ''pid='' @ fmt_d (ev_tgid ?e) @ '' tid='' @ fmt_d (ev_pid ?e) @ '' comm='' @ c_str (ev_comm ?e) @ '' '' @
        call @ '' = '' @ take 127 ret @ '' [id='' @ fmt_d (ev_syscall_id ?e) @ '']\<newline>'')"
    using handle_event_line [OF assms(3) p m r, of arm64_unistd rest] unfolding name by blast
  moreover have "fmt_d NR_OPENAT = ''56''"
    unfolding fmt_d_def fmt_int_def NR_OPENAT_def by code_simp
  ultimately show ?thesis
    using mem captured openat_call_text [OF _ str, of lib "''openat''"] nr args ret_text_whole [OF ret]
    by (intro bexI [of _ ?e] exI [of _ ret]) simp_all
qed

theorem openat_traced_end_to_end_witness:
  "\<exists>e \<in> set (events (tp_run inflight_ops 42 (tracer_start [])
      [Sys_Enter demo_env [0, 56], Sys_Exit (demo_env\<lparr>k_pid_tgid := 7\<rparr>) [0, 1] None,
       Sys_Exit demo_env [0, 5] (Some (event_of 0 enter_state_zero 0))])). ev_ret e = 5"
proof -
  have "\<forall>tp \<in> set [Sys_Exit (demo_env\<lparr>k_pid_tgid := 7\<rparr>) [0, 1] None]. tp_id tp \<noteq> k_pid_tgid demo_env"
    by (simp add: demo_id push_bit_eq_mult)
  moreover have "fst (map_update_elem inflight_ops (inflight (tp_run inflight_ops 42 (tracer_start []) []))
      (k_pid_tgid demo_env) (enter_snapshot demo_env [0, 56]) BPF_ANY) = 0"
    by (simp add: inflight_ops_def hash_ops_def BPF_ANY_def BPF_NOEXIST_def BPF_EXIST_def)
  ultimately show ?thesis
    using openat_traced_end_to_end [OF inflight_hash.bpf_map_axioms demo_helpers ref_text.text_library_axioms
        demo_unfiltered refl, of "[Sys_Exit (demo_env\<lparr>k_pid_tgid := 7\<rparr>) [0, 1] None]" "tracer_start []" "[]" "[0, 56]"
        "0x0101010101010101" "replicate 384 0" "[0, 5]" "event_of 0 enter_state_zero 0" "[]" "[]"]
    by (auto simp: demo_args demo_reads NR_OPENAT_def simp del: tp_step.simps)
qed

end
